(* ===== verification/Wiki_Prelude.thy ===== *)
theory Wiki_Prelude
  imports Complex_Main "HOL-Library.List_Lexorder" "HOL-Library.Char_ord"
    "HOL-Library.Product_Lexorder" "HOL-Library.Multiset" "HOL-Library.AList"
begin

text \<open>
  Shared vocabulary of the development: the Python and JSON values the components read, the
  string methods they call, the exceptions they raise, and the lemma collections the component
  proofs use.

  \<^item> \<open>json\<close> is a decoded JSON value; an object is an association list in insertion order,
    read through \<open>jget\<close>, which answers \<open>JNull\<close> for a missing key as
    \<^verbatim>\<open>dict.get\<close> answers \<^verbatim>\<open>None\<close>. A float is its value together with the text
    \<^verbatim>\<open>repr\<close> prints for it, so that \<^verbatim>\<open>str\<close> is definable without the
    shortest-digits algorithm; every statement holds for any such pair.
  \<^item> A character is a code point below 256; white space, lower casing and \<^verbatim>\<open>repr\<close> follow
    Python on that range.
  \<^item> An exception is a value of \<open>py_error\<close> carrying the message of the source. A validator
    (a Python function that raises or returns \<^verbatim>\<open>None\<close>) is an optional error; a function that
    raises or returns a value is a sum.
\<close>

named_theorems check_simps \<open>when a validator raises nothing\<close>
named_theorems str_simps \<open>evaluation of the Python string methods\<close>

section \<open>Values and exceptions\<close>

datatype pyfloat = PyFloat (fl_val: rat) (fl_repr: string)

datatype json =
    JNull
  | JBool bool
  | JInt int
  | JFloat pyfloat
  | JStr string
  | JArr "json list"
  | JObj "(string \<times> json) list"

type_synonym json_object = "(string \<times> json) list"

datatype py_error =
    ValueError string
  | TypeError string
  | KeyError string
  | PermissionError string
  | RuntimeError string
  | AttributeError string
  | OverflowError string
  | IndexError string
  | SourcePointerValidationError string
  | ParseViewConflict string
  | ParseSessionStoreConflict string
  | ParseGenerationStoreConflict string
  | NotificationOutboxUnavailableError string

type_synonym 'a result = "py_error + 'a"
type_synonym check = "py_error option"

text \<open>Kogwistar's \<^verbatim>\<open>stable_id\<close> on its parts, and a digest of a text: parameters of the model.\<close>

type_synonym stable_id_fn = "string list \<Rightarrow> string"
type_synonym hash_fn = "string \<Rightarrow> string"

section \<open>Python strings\<close>

definition code_of :: "char \<Rightarrow> nat" where
  "code_of c = of_char c"

definition py_isspace :: "char \<Rightarrow> bool" where
  "py_isspace c = (let n = code_of c in
     (9 \<le> n \<and> n \<le> 13) \<or> (28 \<le> n \<and> n \<le> 32) \<or> n = 133 \<or> n = 160)"

definition py_lstrip :: "string \<Rightarrow> string" where
  "py_lstrip s = dropWhile py_isspace s"

definition py_rstrip :: "string \<Rightarrow> string" where
  "py_rstrip s = rev (dropWhile py_isspace (rev s))"

definition py_strip :: "string \<Rightarrow> string" where
  "py_strip s = py_rstrip (py_lstrip s)"

definition lower_char :: "char \<Rightarrow> char" where
  "lower_char c = (let n = code_of c in
     if (65 \<le> n \<and> n \<le> 90) \<or> (192 \<le> n \<and> n \<le> 222 \<and> n \<noteq> 215) then char_of (n + 32) else c)"

definition py_lower :: "string \<Rightarrow> string" where
  "py_lower s = map lower_char s"

fun py_startswith :: "string \<Rightarrow> string \<Rightarrow> bool" where
  "py_startswith s [] = True"
| "py_startswith [] (p # ps) = False"
| "py_startswith (c # s) (p # ps) = (c = p \<and> py_startswith s ps)"

fun nat_str :: "nat \<Rightarrow> string" where
  "nat_str n = (if n < 10 then [char_of (48 + n)] else nat_str (n div 10) @ [char_of (48 + n mod 10)])"

declare nat_str.simps [simp del]

definition int_str :: "int \<Rightarrow> string" where
  "int_str i = (if i < 0 then ''-'' @ nat_str (nat (- i)) else nat_str (nat i))"

fun join_str :: "string \<Rightarrow> string list \<Rightarrow> string" where
  "join_str sep [] = []"
| "join_str sep [x] = x"
| "join_str sep (x # y # xs) = x @ sep @ join_str sep (y # xs)"

text \<open>The hexadecimal digit, then the escapes of \<^verbatim>\<open>repr\<close> on a string.\<close>

definition hex_digit :: "nat \<Rightarrow> char" where
  "hex_digit d = (if d < 10 then char_of (48 + d) else char_of (87 + d))"

definition repr_char :: "char \<Rightarrow> char \<Rightarrow> string" where
  "repr_char q c = (let n = code_of c in
     if c = q \<or> n = 92 then [char_of (92::nat), c]
     else if n = 10 then [char_of (92::nat), CHR ''n'']
     else if n = 13 then [char_of (92::nat), CHR ''r'']
     else if n = 9 then [char_of (92::nat), CHR ''t'']
     else if n < 32 \<or> (127 \<le> n \<and> n \<le> 160) \<or> n = 173
       then [char_of (92::nat), CHR ''x'', hex_digit (n div 16), hex_digit (n mod 16)]
     else [c])"

definition repr_string :: "string \<Rightarrow> string" where
  "repr_string s = (let q = (if char_of (39::nat) \<in> set s \<and> char_of (34::nat) \<notin> set s
                             then char_of (34::nat) else char_of (39::nat))
     in [q] @ concat (map (repr_char q) s) @ [q])"

fun py_repr :: "json \<Rightarrow> string"
  and repr_items :: "json list \<Rightarrow> string list"
  and repr_pairs :: "json_object \<Rightarrow> string list" where
  "py_repr JNull = ''None''"
| "py_repr (JBool b) = (if b then ''True'' else ''False'')"
| "py_repr (JInt i) = int_str i"
| "py_repr (JFloat f) = fl_repr f"
| "py_repr (JStr s) = repr_string s"
| "py_repr (JArr xs) = ''['' @ join_str '', '' (repr_items xs) @ '']''"
| "py_repr (JObj kvs) = ''{'' @ join_str '', '' (repr_pairs kvs) @ ''}''"
| "repr_items [] = []"
| "repr_items (x # xs) = py_repr x # repr_items xs"
| "repr_pairs [] = []"
| "repr_pairs ((k, v) # kvs) = (repr_string k @ '': '' @ py_repr v) # repr_pairs kvs"

fun py_str :: "json \<Rightarrow> string" where
  "py_str (JStr s) = s"
| "py_str v = py_repr v"

fun truthy :: "json \<Rightarrow> bool" where
  "truthy JNull = False"
| "truthy (JBool b) = b"
| "truthy (JInt i) = (i \<noteq> 0)"
| "truthy (JFloat f) = (fl_val f \<noteq> 0)"
| "truthy (JStr s) = (s \<noteq> [])"
| "truthy (JArr xs) = (xs \<noteq> [])"
| "truthy (JObj kvs) = (kvs \<noteq> [])"

text \<open>\<^verbatim>\<open>value or ""\<close> passed to \<^verbatim>\<open>str\<close>, and \<^verbatim>\<open>dict.get\<close>.\<close>

definition str_or_empty :: "json \<Rightarrow> string" where
  "str_or_empty v = (if truthy v then py_str v else [])"

definition jget :: "json_object \<Rightarrow> string \<Rightarrow> json" where
  "jget obj k = (case map_of obj k of Some v \<Rightarrow> v | None \<Rightarrow> JNull)"

definition json_or :: "json \<Rightarrow> json \<Rightarrow> json" where
  "json_or a b = (if truthy a then a else b)"

text \<open>The value an optional string field contributes to \<^verbatim>\<open>x or ""\<close>.\<close>

definition opt_str :: "string option \<Rightarrow> string" where
  "opt_str v = (case v of None \<Rightarrow> [] | Some s \<Rightarrow> s)"

text \<open>\<^verbatim>\<open>int\<close> on a string: surrounding white space, a sign, then digits that single
  underscores may separate. \<^verbatim>\<open>int\<close> on a float truncates towards zero.\<close>

definition is_digit :: "char \<Rightarrow> bool" where
  "is_digit c = (48 \<le> code_of c \<and> code_of c \<le> 57)"

fun digits_value :: "bool \<Rightarrow> int \<Rightarrow> string \<Rightarrow> int option" where
  "digits_value seen acc [] = (if seen then Some acc else None)"
| "digits_value seen acc (c # cs) =
     (if is_digit c then digits_value True (acc * 10 + (int (code_of c) - 48)) cs
      else if seen \<and> code_of c = 95 \<and> cs \<noteq> [] \<and> is_digit (hd cs) then digits_value False acc cs
      else None)"

definition int_of_string :: "string \<Rightarrow> int option" where
  "int_of_string s = (case py_strip s of
       [] \<Rightarrow> None
     | c # cs \<Rightarrow> (if code_of c = 45 then map_option uminus (digits_value False 0 cs)
                else if code_of c = 43 then digits_value False 0 cs
                else digits_value False 0 (c # cs)))"

definition trunc_rat :: "rat \<Rightarrow> int" where
  "trunc_rat q = (if 0 \<le> q then \<lfloor>q\<rfloor> else - \<lfloor>- q\<rfloor>)"

section \<open>Validators\<close>

definition raise_if :: "bool \<Rightarrow> py_error \<Rightarrow> check" where
  "raise_if b e = (if b then Some e else None)"

text \<open>A Python \<^verbatim>\<open>for\<close> loop whose body raises or continues.\<close>

fun first_error :: "('a \<Rightarrow> check) \<Rightarrow> 'a list \<Rightarrow> check" where
  "first_error f [] = None"
| "first_error f (x # xs) = (case f x of Some e \<Rightarrow> Some e | None \<Rightarrow> first_error f xs)"

text \<open>Consecutive validators: the first that raises decides.\<close>

fun checks :: "check list \<Rightarrow> check" where
  "checks [] = None"
| "checks (c # cs) = (case c of Some e \<Rightarrow> Some e | None \<Rightarrow> checks cs)"

definition check_then :: "check \<Rightarrow> 'a result \<Rightarrow> 'a result" where
  "check_then c r = (case c of Some e \<Rightarrow> Inl e | None \<Rightarrow> r)"

definition res_bind :: "'a result \<Rightarrow> ('a \<Rightarrow> 'b result) \<Rightarrow> 'b result" where
  "res_bind r f = (case r of Inl e \<Rightarrow> Inl e | Inr a \<Rightarrow> f a)"

definition res_check :: "'a result \<Rightarrow> check" where
  "res_check r = (case r of Inl e \<Rightarrow> Some e | Inr _ \<Rightarrow> None)"

fun map_res :: "('a \<Rightarrow> 'b result) \<Rightarrow> 'a list \<Rightarrow> 'b list result" where
  "map_res f [] = Inr []"
| "map_res f (x # xs) = res_bind (f x) (\<lambda>y. res_bind (map_res f xs) (\<lambda>ys. Inr (y # ys)))"

fun fold_res :: "('a \<Rightarrow> 's \<Rightarrow> 's result) \<Rightarrow> 'a list \<Rightarrow> 's \<Rightarrow> 's result" where
  "fold_res f [] s = Inr s"
| "fold_res f (x # xs) s = res_bind (f x s) (fold_res f xs)"

section \<open>Evaluation of characters\<close>

text \<open>Code equations that compare code points as integers, which evaluate faster than naturals.\<close>

definition char_int :: "char \<Rightarrow> int" where
  "char_int c = of_char c"

lemma int_code_of: "int (code_of c) = char_int c"
  by (simp add: code_of_def char_int_def of_nat_of_char)

lemma code_of_compare:
  "code_of c < numeral k \<longleftrightarrow> char_int c < numeral k" "code_of c \<le> numeral k \<longleftrightarrow> char_int c \<le> numeral k"
  "numeral k \<le> code_of c \<longleftrightarrow> numeral k \<le> char_int c" "code_of c = numeral k \<longleftrightarrow> char_int c = numeral k"
  by (simp_all flip: int_code_of)

lemma py_isspace_code [code]:
  "py_isspace c = (let n = char_int c in
     (9 \<le> n \<and> n \<le> 13) \<or> (28 \<le> n \<and> n \<le> 32) \<or> n = 133 \<or> n = 160)"
  by (simp add: py_isspace_def Let_def code_of_compare)

lemma is_digit_code [code]: "is_digit c = (let n = char_int c in 48 \<le> n \<and> n \<le> 57)"
  by (simp add: is_digit_def Let_def code_of_compare)

lemma lower_char_code [code]:
  "lower_char c = (let n = char_int c in
     if (65 \<le> n \<and> n \<le> 90) \<or> (192 \<le> n \<and> n \<le> 222 \<and> n \<noteq> 215) then char_of (n + 32) else c)"
proof -
  have "char_of (code_of c + 32) = char_of (char_int c + 32)"
    by (metis char_of_nat int_code_of of_nat_add of_nat_numeral)
  then show ?thesis by (simp add: lower_char_def Let_def code_of_compare)
qed

section \<open>Lemmas on validators and results\<close>

lemma raise_if_None [simp, check_simps]: "raise_if b e = None \<longleftrightarrow> \<not> b"
  by (simp add: raise_if_def)

lemma raise_if_Some [simp]: "raise_if b e = Some e' \<longleftrightarrow> b \<and> e' = e"
  by (auto simp: raise_if_def)

lemma raise_if_simps [simp]: "raise_if False e = None" "raise_if True e = Some e"
  by (simp_all add: raise_if_def)

lemma first_error_None [simp, check_simps]: "first_error f xs = None \<longleftrightarrow> (\<forall>x\<in>set xs. f x = None)"
  by (induction xs) (auto split: option.splits)

lemma first_error_Some: "first_error f xs = Some e \<Longrightarrow> \<exists>x\<in>set xs. f x = Some e"
  by (induction xs) (auto split: option.splits)

lemma checks_Nil [simp]: "checks cs = None \<longleftrightarrow> (\<forall>c\<in>set cs. c = None)"
  by (induction cs) (auto split: option.splits)

lemma checks_step [simp]: "checks (None # cs) = checks cs" "checks (Some e # cs) = Some e"
  by simp_all

declare checks.simps(2) [simp del] first_error.simps(2) [simp del]

lemma checks_Some: "checks cs = Some e \<Longrightarrow> Some e \<in> set cs"
  by (induction cs) (auto simp: checks.simps split: option.splits)

lemma check_then_Inr [simp]: "check_then c r = Inr a \<longleftrightarrow> c = None \<and> r = Inr a"
  by (simp add: check_then_def split: option.split)

lemma check_then_None [simp]: "check_then None r = r"
  by (simp add: check_then_def)

lemma check_then_Some [simp]: "check_then (Some e) r = Inl e"
  by (simp add: check_then_def)

lemma res_bind_Inr [simp]: "res_bind r f = Inr b \<longleftrightarrow> (\<exists>a. r = Inr a \<and> f a = Inr b)"
  by (simp add: res_bind_def split: sum.split)

lemma res_bind_simps [simp]: "res_bind (Inr a) f = f a" "res_bind (Inl e) f = Inl e"
  by (simp_all add: res_bind_def)

lemma res_check_None [simp, check_simps]: "res_check r = None \<longleftrightarrow> (\<exists>a. r = Inr a)"
  by (simp add: res_check_def split: sum.split)

lemma map_res_Inr: "map_res f xs = Inr ys \<Longrightarrow> list_all2 (\<lambda>x y. f x = Inr y) xs ys"
  by (induction xs arbitrary: ys) auto

lemma map_res_Inr_set: "map_res f xs = Inr ys \<Longrightarrow> set ys = {y. \<exists>x\<in>set xs. f x = Inr y}"
  by (induction xs arbitrary: ys) auto

lemma map_res_id: "(\<And>x. x \<in> set xs \<Longrightarrow> f x = Inr (g x)) \<Longrightarrow> map_res f xs = Inr (map g xs)"
  by (induction xs) auto

lemma map_res_inverse: "(\<And>x. x \<in> set xs \<Longrightarrow> f (g x) = Inr x) \<Longrightarrow> map_res f (map g xs) = Inr xs"
  by (induction xs) auto

section \<open>Lemmas on strings and ordered sets\<close>

lemma sort_mset_cong: "mset xs = mset ys \<Longrightarrow> sort xs = sort ys"
  by (rule properties_for_sort) simp_all

lemma dropWhile_idem: "dropWhile P (dropWhile P xs) = dropWhile P xs"
  by (induction xs) auto

lemma dropWhile_head: "dropWhile P xs = y # ys \<Longrightarrow> \<not> P y"
  by (induction xs) (auto split: if_splits)

lemma py_rstrip_last: "py_rstrip s \<noteq> [] \<Longrightarrow> \<not> py_isspace (last (py_rstrip s))"
  unfolding py_rstrip_def
  by (cases "dropWhile py_isspace (rev s)") (auto dest: dropWhile_head)

lemma py_rstrip_snoc [str_simps]:
  "py_rstrip (s @ [c]) = (if py_isspace c then py_rstrip s else s @ [c])"
  by (simp add: py_rstrip_def)

lemma py_rstrip_Nil [simp]: "py_rstrip [] = []"
  by (simp add: py_rstrip_def)

lemma py_lstrip_Nil [simp]: "py_lstrip [] = []"
  by (simp add: py_lstrip_def)

lemma py_rstrip_id: "s \<noteq> [] \<Longrightarrow> \<not> py_isspace (last s) \<Longrightarrow> py_rstrip s = s"
  by (cases s rule: rev_cases) (auto simp: py_rstrip_snoc)

lemma py_rstrip_Cons:
  "\<not> py_isspace c \<Longrightarrow> py_rstrip (c # s) = c # py_rstrip s"
  by (induction s rule: rev_induct) (auto simp: py_rstrip_snoc py_rstrip_def)

lemma py_strip_idem [simp]: "py_strip (py_strip s) = py_strip s"
proof (cases "py_lstrip s")
  case Nil
  then show ?thesis by (simp add: py_strip_def)
next
  case (Cons c t)
  then have c: "\<not> py_isspace c" by (auto simp: py_lstrip_def dest: dropWhile_head)
  have t: "py_rstrip (py_rstrip (c # t)) = py_rstrip (c # t)"
    by (cases "py_rstrip (c # t) = []") (auto intro: py_rstrip_id dest: py_rstrip_last)
  from Cons c t show ?thesis
    by (simp add: py_strip_def py_rstrip_Cons) (simp add: py_lstrip_def py_rstrip_Cons)
qed

lemma py_strip_Nil [simp]: "py_strip [] = []"
  by (simp add: py_strip_def)

lemma py_startswith_append [simp]: "py_startswith (p @ s) p"
  by (induction p) auto

lemma py_startswith_iff: "py_startswith s p \<longleftrightarrow> (\<exists>t. s = p @ t)"
  by (induction s p rule: py_startswith.induct) auto

lemma str_or_empty_simps [simp]:
  "str_or_empty JNull = []" "str_or_empty (JStr s) = s"
  by (auto simp: str_or_empty_def)

lemma jget_Nil [simp]: "jget [] k = JNull"
  by (simp add: jget_def)

lemma jget_Cons [simp]: "jget ((k', v) # kvs) k = (if k = k' then v else jget kvs k)"
  by (simp add: jget_def)

lemma sorted_list_of_set_unique:
  "finite A \<Longrightarrow> sorted xs \<Longrightarrow> distinct xs \<Longrightarrow> set xs = A \<Longrightarrow> sorted_list_of_set A = xs"
  by (metis sorted_list_of_set.idem_if_sorted_distinct)

lemma set_alist_update: "set (AList.update k v xs) \<subseteq> insert (k, v) (set xs)"
  by (induction xs) auto

lemma alist_update_fresh: "map_of xs k = None \<Longrightarrow> AList.update k v xs = xs @ [(k, v)]"
  by (induction xs) (auto split: if_splits)

text \<open>A list ordered by a symmetric relation is so in every order.\<close>

lemma sorted_wrt_mset_cong:
  assumes "symp P" "mset xs = mset ys" "sorted_wrt P xs"
  shows "sorted_wrt P ys"
  using assms(2,3)
proof (induction xs arbitrary: ys)
  case Nil
  then show ?case by simp
next
  case (Cons x xs)
  then have "x \<in> set ys" by (metis list.set_intros(1) set_mset_mset)
  then obtain us vs where ys: "ys = us @ x # vs" by (auto simp: in_set_conv_decomp)
  with Cons.prems(1) have m: "mset xs = mset (us @ vs)" by simp
  with Cons have IH: "sorted_wrt P (us @ vs)" by simp
  have "\<forall>y\<in>set (us @ vs). P x y"
    using Cons.prems(2) m by (metis set_mset_mset sorted_wrt.simps(2))
  with IH assms(1) show ?case
    by (auto simp: ys sorted_wrt_append dest: sympD)
qed

lemma sorted_wrt_mset_iff:
  "symp P \<Longrightarrow> mset xs = mset ys \<Longrightarrow> sorted_wrt P xs \<longleftrightarrow> sorted_wrt P ys"
  by (metis sorted_wrt_mset_cong)

lemma sorted_wrt_cong_pairs:
  "(\<And>i j. i < j \<Longrightarrow> j < length xs \<Longrightarrow> P (xs ! i) (xs ! j) = Q (xs ! i) (xs ! j)) \<Longrightarrow>
     sorted_wrt P xs = sorted_wrt Q xs"
  by (auto simp: sorted_wrt_iff_nth_less)

lemma set_take_sorted_list: "set (take n (sorted_list_of_set A)) \<subseteq> A"
  by (cases "finite A") (auto dest: in_set_takeD)

lemma map_of_insort_key: "map_of (insort_key fst x xs) = map_of (x # xs)"
proof (induction xs)
  case (Cons y xs)
  then show ?case by (cases x, cases y) (auto simp: fun_eq_iff)
qed simp

lemma map_of_sort_key [simp]: "map_of (sort_key fst xs) = map_of xs"
  by (induction xs) (simp_all add: map_of_insort_key split: prod.split)

lemma set_map_filter: "set (List.map_filter f xs) = {y. \<exists>x\<in>set xs. f x = Some y}"
  by (induction xs) (auto simp: List.map_filter_simps split: option.splits)

end
