(* ===== verification/Source_Guards.thy ===== *)
theory Source_Guards
  imports Wiki_Prelude
begin

text \<open>
  Source revisions and the maintenance guard (maintenance/maintenance\_guards.py): the identity
  of one revision of a source document, the readiness stage a maintenance kind needs, and the
  two fences a queued job passes before it may touch the graph. The hash \<^verbatim>\<open>sha256\<close> and
  Kogwistar's \<^verbatim>\<open>stable_id\<close> are parameters.
\<close>

section \<open>Definitions\<close>

datatype guard_status = GReady | GBlocked | GStale

record source_revision =
  sr_source_document_id :: string
  sr_revision_id :: string
  sr_source_digest :: string
  sr_revision_document_id :: "string option"

record guard_decision =
  gd_status :: guard_status
  gd_reason :: string
  gd_source_document_id :: string
  gd_source_revision_id :: string
  gd_source_digest :: string
  gd_required_stage :: string

definition source_digest :: "hash_fn \<Rightarrow> string \<Rightarrow> string" where
  "source_digest sha256 raw_text = sha256 raw_text"

definition source_revision_document_id :: "stable_id_fn \<Rightarrow> string \<Rightarrow> string \<Rightarrow> string \<Rightarrow> string" where
  "source_revision_document_id stable_id ws doc rev_id =
     stable_id [''kogwistar_llm_wiki.source_revision_document'', ws, doc, rev_id]"

definition build_source_revision ::
    "stable_id_fn \<Rightarrow> hash_fn \<Rightarrow> string \<Rightarrow> string \<Rightarrow> string \<Rightarrow> string option \<Rightarrow> source_revision" where
  "build_source_revision stable_id sha256 ws doc raw_text attempt_id =
     (let digest = source_digest sha256 raw_text;
          attempt = (if opt_str attempt_id = [] then ''content'' else opt_str attempt_id);
          rev_id = stable_id [''kogwistar_llm_wiki.source_revision'', ws, doc, digest, attempt]
      in \<lparr>sr_source_document_id = doc, sr_revision_id = rev_id, sr_source_digest = digest,
          sr_revision_document_id = Some (source_revision_document_id stable_id ws doc rev_id)\<rparr>)"

definition required_stage_for_maintenance :: "string \<Rightarrow> string" where
  "required_stage_for_maintenance kind =
     (if kind \<in> {''document_seed_graph'', ''document_parse_graph'',
                 ''document_expand_parse_children'', ''document_reparse_region''}
      then ''source_map_seeded'' else ''parsed_graph_persisted'')"

definition readiness_id :: "stable_id_fn \<Rightarrow> string \<Rightarrow> string \<Rightarrow> string \<Rightarrow> string" where
  "readiness_id stable_id doc rev_id stage =
     stable_id [''kogwistar_llm_wiki.source_readiness'', doc, rev_id, stage]"

definition evaluate_maintenance_guard ::
    "source_revision option \<Rightarrow> string \<Rightarrow> string \<Rightarrow> string option \<Rightarrow> string \<Rightarrow> string set \<Rightarrow> guard_decision" where
  "evaluate_maintenance_guard revision requested_rev requested_digest requested_doc stage ready =
     (case revision of
        None \<Rightarrow>
          \<lparr>gd_status = GBlocked, gd_reason = ''source_revision_missing'', gd_source_document_id = [],
           gd_source_revision_id = requested_rev, gd_source_digest = requested_digest,
           gd_required_stage = stage\<rparr>
      | Some r \<Rightarrow>
          let doc_mismatch = (requested_doc \<noteq> None \<and> sr_revision_document_id r \<noteq> requested_doc) in
          if sr_revision_id r \<noteq> requested_rev \<or> sr_source_digest r \<noteq> requested_digest \<or> doc_mismatch
          then \<lparr>gd_status = GStale,
                gd_reason = (if doc_mismatch then ''source_revision_document_mismatch''
                             else ''source_revision_mismatch''),
                gd_source_document_id = sr_source_document_id r,
                gd_source_revision_id = requested_rev, gd_source_digest = requested_digest,
                gd_required_stage = stage\<rparr>
          else if requested_rev \<notin> ready
          then \<lparr>gd_status = GBlocked, gd_reason = ''required_stage_missing:'' @ stage,
                gd_source_document_id = sr_source_document_id r,
                gd_source_revision_id = requested_rev, gd_source_digest = requested_digest,
                gd_required_stage = stage\<rparr>
          else \<lparr>gd_status = GReady, gd_reason = ''source_revision_and_readiness_verified'',
                gd_source_document_id = sr_source_document_id r,
                gd_source_revision_id = requested_rev, gd_source_digest = requested_digest,
                gd_required_stage = stage\<rparr>)"

definition evaluate_parse_session_guard ::
    "guard_decision \<Rightarrow> string \<Rightarrow> string option \<Rightarrow> guard_decision" where
  "evaluate_parse_session_guard decision requested_session active_session =
     (if gd_status decision \<noteq> GReady \<or> opt_str active_session = [] then decision
      else if Some requested_session = active_session then decision
      else \<lparr>gd_status = GStale, gd_reason = ''parse_session_superseded'',
            gd_source_document_id = gd_source_document_id decision,
            gd_source_revision_id = gd_source_revision_id decision,
            gd_source_digest = gd_source_digest decision,
            gd_required_stage = gd_required_stage decision\<rparr>)"

section \<open>Properties\<close>

lemma maintenance_guard_ready_iff:
  "gd_status (evaluate_maintenance_guard revision rid dig doc stage ready) = GReady \<longleftrightarrow>
     (\<exists>r. revision = Some r \<and> sr_revision_id r = rid \<and> sr_source_digest r = dig \<and>
          (doc = None \<or> sr_revision_document_id r = doc) \<and> rid \<in> ready)"
  by (auto simp: evaluate_maintenance_guard_def Let_def split: option.split)

lemma parse_session_guard_ready_iff:
  "gd_status (evaluate_parse_session_guard d requested active) = GReady \<longleftrightarrow>
     gd_status d = GReady \<and> (opt_str active = [] \<or> active = Some requested)"
  by (auto simp: evaluate_parse_session_guard_def)

lemma guard_keeps_request:
  "gd_source_revision_id (evaluate_maintenance_guard revision rid dig doc stage ready) = rid"
  "gd_source_digest (evaluate_maintenance_guard revision rid dig doc stage ready) = dig"
  "gd_required_stage (evaluate_maintenance_guard revision rid dig doc stage ready) = stage"
  by (auto simp: evaluate_maintenance_guard_def Let_def split: option.split)

text \<open>C10: the two fences in sequence admit a queued parse job exactly when the source still has the
  revision, digest and (if one was pinned) revision document the job was queued for, that revision
  reached the required stage, and no other parse session has been made active since.\<close>

theorem guards_admit_iff:
  "gd_status (evaluate_parse_session_guard
       (evaluate_maintenance_guard revision rid dig doc stage ready) requested active) = GReady \<longleftrightarrow>
     (\<exists>r. revision = Some r \<and> sr_revision_id r = rid \<and> sr_source_digest r = dig \<and>
          (doc = None \<or> sr_revision_document_id r = doc)) \<and>
     rid \<in> ready \<and> (opt_str active = [] \<or> active = Some requested)"
  unfolding parse_session_guard_ready_iff maintenance_guard_ready_iff by blast

text \<open>A job queued for one text of a source is never admitted once the current revision was
  built from a text with another hash: the guard reports it stale, whatever stages are recorded.\<close>

theorem guard_rejects_changed_text:
  assumes "sha256 old_text \<noteq> sha256 new_text"
  shows "gd_status (evaluate_maintenance_guard
           (Some (build_source_revision stable_id sha256 ws doc new_text attempt))
           (sr_revision_id (build_source_revision stable_id sha256 ws doc old_text attempt'))
           (sr_source_digest (build_source_revision stable_id sha256 ws doc old_text attempt'))
           pinned stage ready) = GStale"
  using assms
  by (simp add: evaluate_maintenance_guard_def build_source_revision_def source_digest_def Let_def)

theorem guard_rejects_changed_text_witness:
  "gd_status (evaluate_maintenance_guard
     (Some (build_source_revision concat (\<lambda>t. t) ''w'' ''d'' ''new'' None))
     (sr_revision_id (build_source_revision concat (\<lambda>t. t) ''w'' ''d'' ''old'' None))
     (sr_source_digest (build_source_revision concat (\<lambda>t. t) ''w'' ''d'' ''old'' None))
     None ''parsed_graph_persisted'' UNIV) = GStale"
  by (rule guard_rejects_changed_text) simp

end
