(* ===== verification/Dependency_Planning.thy ===== *)
theory Dependency_Planning
  imports Wiki_Prelude
begin

text \<open>
  Bounded dependency invalidation (maintenance/dependency\_planning.py): given the identifiers
  that changed, find the derived artifacts of the same workspace that refer to them, the
  maintenance kinds to queue again and the projections to refresh. A graph item is the part of a
  Kogwistar node or edge the planner reads; the five Python sets its closures update are the
  accumulator \<open>invalidation\<close>.
\<close>

section \<open>Definitions\<close>

record graph_item =
  gi_id :: string
  gi_metadata :: json_object
  gi_source_ids :: json
  gi_target_ids :: json

record invalidation =
  inv_affected :: "string set"
  inv_source_ids :: "string set"
  inv_follow_up_kinds :: "string set"
  inv_projection_ids :: "string set"
  inv_skipped :: "string set"

record dependency_plan =
  dp_workspace_id :: string
  dp_changed_entity_ids :: "string list"
  dp_affected_entity_ids :: "string list"
  dp_affected_source_document_ids :: "string list"
  dp_follow_up_kinds :: "string list"
  dp_projection_entity_ids :: "string list"
  dp_skipped_cross_workspace_ids :: "string list"
  dp_truncated :: bool

definition follow_up_kinds_by_artifact :: "(string \<times> string list) list" where
  "follow_up_kinds_by_artifact =
     [(''candidate_link'', [''document_propose_crosslinks'']),
      (''crosslink'', [''document_propose_crosslinks'']),
      (''derived_summary'', [''document_summarize_units'']),
      (''summary'', [''document_summarize_units'']),
      (''promotion_candidate'', [''conversation_promote_to_kg'']),
      (''promotion_evidence_pack'', [''conversation_promote_to_kg'']),
      (''projection_status_event'', [])]"

definition projection_artifact_kinds :: "string set" where
  "projection_artifact_kinds = {''promoted_knowledge''}"

definition ids_from :: "json \<Rightarrow> string set" where
  "ids_from v = (case v of
       JStr s \<Rightarrow> (if py_strip s \<noteq> [] then {s} else {})
     | JArr xs \<Rightarrow> set (filter (\<lambda>s. s \<noteq> []) (map (\<lambda>x. py_strip (py_str x)) xs))
     | _ \<Rightarrow> {})"

definition node_reference_keys :: "string list" where
  "node_reference_keys = [''depends_on_ids'', ''derived_from_ids'', ''lineage_node_ids'',
     ''lineage_edge_ids'', ''source_document_ids'', ''source_document_id'',
     ''parse_generation_member_id'']"

definition edge_reference_keys :: "string list" where
  "edge_reference_keys = [''depends_on_ids'', ''derived_from_ids'', ''lineage_node_ids'',
     ''lineage_edge_ids'']"

definition node_references :: "graph_item \<Rightarrow> string set" where
  "node_references n = (\<Union>k\<in>set node_reference_keys. ids_from (jget (gi_metadata n) k))"

definition edge_references :: "graph_item \<Rightarrow> string set" where
  "edge_references e = ids_from (gi_source_ids e) \<union> ids_from (gi_target_ids e) \<union>
     (\<Union>k\<in>set edge_reference_keys. ids_from (jget (gi_metadata e) k))"

definition artifact_kind_of :: "graph_item \<Rightarrow> string" where
  "artifact_kind_of i = py_strip (str_or_empty (jget (gi_metadata i) ''artifact_kind''))"

definition item_source_ids :: "graph_item \<Rightarrow> string set" where
  "item_source_ids i = ids_from (jget (gi_metadata i) ''source_document_ids'') \<union>
     (let s = py_strip (str_or_empty (jget (gi_metadata i) ''source_document_id''))
      in if s \<noteq> [] then {s} else {})"

definition follow_up_kinds_for :: "string \<Rightarrow> string set" where
  "follow_up_kinds_for kind =
     (case map_of follow_up_kinds_by_artifact kind of Some ks \<Rightarrow> set ks | None \<Rightarrow> {})"

definition consider_item ::
    "string \<Rightarrow> string set \<Rightarrow> graph_item \<times> string set \<Rightarrow> invalidation \<Rightarrow> invalidation" where
  "consider_item ws changed p acc = (case p of (item, refs) \<Rightarrow>
     let item_id = py_strip (gi_id item); kind = artifact_kind_of item in
     if item_id = [] \<or> (item_id \<notin> changed \<and> refs \<inter> changed = {}) then acc
     else if str_or_empty (jget (gi_metadata item) ''workspace_id'') \<noteq> ws
     then acc\<lparr>inv_skipped := insert item_id (inv_skipped acc)\<rparr>
     else if kind \<notin> set (map fst follow_up_kinds_by_artifact) \<and> kind \<notin> projection_artifact_kinds
     then acc
     else acc\<lparr>inv_affected := insert item_id (inv_affected acc),
              inv_projection_ids := (if kind \<in> projection_artifact_kinds
                 then insert item_id (inv_projection_ids acc) else inv_projection_ids acc),
              inv_source_ids := inv_source_ids acc \<union> item_source_ids item,
              inv_follow_up_kinds := inv_follow_up_kinds acc \<union> follow_up_kinds_for kind\<rparr>)"

definition empty_invalidation :: invalidation where
  "empty_invalidation = \<lparr>inv_affected = {}, inv_source_ids = {}, inv_follow_up_kinds = {},
     inv_projection_ids = {}, inv_skipped = {}\<rparr>"

definition normalize_changed :: "string list \<Rightarrow> string set" where
  "normalize_changed ids = set (filter (\<lambda>s. s \<noteq> []) (map py_strip ids))"

definition plan_dependency_invalidation ::
    "string \<Rightarrow> string list \<Rightarrow> graph_item list \<Rightarrow> graph_item list \<Rightarrow> int \<Rightarrow> dependency_plan result" where
  "plan_dependency_invalidation ws changed_ids nodes edges max_dependents =
     (if max_dependents < 1 then Inl (ValueError ''max_dependents must be positive'')
      else
        let changed = normalize_changed changed_ids;
            acc1 = fold (\<lambda>n. consider_item ws changed (n, node_references n)) nodes empty_invalidation;
            acc = fold (\<lambda>e. consider_item ws changed (e, edge_references e)) edges acc1;
            ordered = sorted_list_of_set (inv_affected acc);
            truncated = (int (length ordered) > max_dependents);
            bounded = (if truncated then take (nat max_dependents) ordered else ordered);
            kept = filter (\<lambda>i. gi_id i \<in> set bounded) (nodes @ edges)
        in Inr \<lparr>dp_workspace_id = ws,
                dp_changed_entity_ids = sorted_list_of_set changed,
                dp_affected_entity_ids = bounded,
                dp_affected_source_document_ids =
                  sorted_list_of_set (\<Union>i\<in>set kept. item_source_ids i),
                dp_follow_up_kinds = sorted_list_of_set (inv_follow_up_kinds acc),
                dp_projection_entity_ids =
                  sorted_list_of_set (set (filter (\<lambda>i. i \<in> inv_projection_ids acc) (map gi_id kept))),
                dp_skipped_cross_workspace_ids = sorted_list_of_set (inv_skipped acc),
                dp_truncated = truncated\<rparr>)"

section \<open>The planner against its specification\<close>

text \<open>The abstract specification: which items are touched by the change, and which of them the
  workspace may invalidate.\<close>

definition touched :: "string set \<Rightarrow> graph_item \<times> string set \<Rightarrow> bool" where
  "touched changed p \<longleftrightarrow> py_strip (gi_id (fst p)) \<noteq> [] \<and>
     (py_strip (gi_id (fst p)) \<in> changed \<or> snd p \<inter> changed \<noteq> {})"

definition local_item :: "string \<Rightarrow> graph_item \<Rightarrow> bool" where
  "local_item ws i \<longleftrightarrow> str_or_empty (jget (gi_metadata i) ''workspace_id'') = ws"

definition derived_artifact :: "graph_item \<Rightarrow> bool" where
  "derived_artifact i \<longleftrightarrow> artifact_kind_of i \<in> set (map fst follow_up_kinds_by_artifact) \<or>
     artifact_kind_of i \<in> projection_artifact_kinds"

definition invalidated :: "string \<Rightarrow> string set \<Rightarrow> graph_item \<times> string set \<Rightarrow> bool" where
  "invalidated ws changed p \<longleftrightarrow> touched changed p \<and> local_item ws (fst p) \<and> derived_artifact (fst p)"

definition plan_items :: "graph_item list \<Rightarrow> graph_item list \<Rightarrow> (graph_item \<times> string set) list" where
  "plan_items nodes edges =
     map (\<lambda>n. (n, node_references n)) nodes @ map (\<lambda>e. (e, edge_references e)) edges"

definition item_key :: "graph_item \<times> string set \<Rightarrow> string" where
  "item_key p = py_strip (gi_id (fst p))"

lemma consider_cases:
  "consider_item ws changed p acc =
     (if \<not> touched changed p then acc
      else if \<not> local_item ws (fst p) then acc\<lparr>inv_skipped := insert (item_key p) (inv_skipped acc)\<rparr>
      else if \<not> derived_artifact (fst p) then acc
      else acc\<lparr>inv_affected := insert (item_key p) (inv_affected acc),
               inv_projection_ids := (if artifact_kind_of (fst p) \<in> projection_artifact_kinds
                 then insert (item_key p) (inv_projection_ids acc) else inv_projection_ids acc),
               inv_source_ids := inv_source_ids acc \<union> item_source_ids (fst p),
               inv_follow_up_kinds := inv_follow_up_kinds acc \<union>
                 follow_up_kinds_for (artifact_kind_of (fst p))\<rparr>)"
  by (cases p)
    (auto simp: consider_item_def item_key_def touched_def local_item_def derived_artifact_def Let_def)

lemma fold_consider_affected:
  "inv_affected (fold (consider_item ws changed) ps acc) =
     inv_affected acc \<union> item_key ` {p \<in> set ps. invalidated ws changed p}"
  by (induction ps arbitrary: acc) (auto simp: consider_cases invalidated_def)

lemma fold_consider_skipped:
  "inv_skipped (fold (consider_item ws changed) ps acc) =
     inv_skipped acc \<union> item_key ` {p \<in> set ps. touched changed p \<and> \<not> local_item ws (fst p)}"
  by (induction ps arbitrary: acc) (auto simp: consider_cases)

lemma fold_consider_projection:
  "inv_projection_ids (fold (consider_item ws changed) ps acc) =
     inv_projection_ids acc \<union> item_key ` {p \<in> set ps. invalidated ws changed p \<and>
        artifact_kind_of (fst p) \<in> projection_artifact_kinds}"
  by (induction ps arbitrary: acc) (auto simp: consider_cases invalidated_def)

lemma fold_consider_follow_up:
  "inv_follow_up_kinds (fold (consider_item ws changed) ps acc) =
     inv_follow_up_kinds acc \<union>
     (\<Union>p\<in>{p \<in> set ps. invalidated ws changed p}. follow_up_kinds_for (artifact_kind_of (fst p)))"
  by (induction ps arbitrary: acc) (auto simp: consider_cases invalidated_def)

lemmas fold_consider = fold_consider_affected fold_consider_skipped fold_consider_projection
  fold_consider_follow_up

lemma plan_fold:
  "fold (\<lambda>e. consider_item ws changed (e, edge_references e)) edges
     (fold (\<lambda>n. consider_item ws changed (n, node_references n)) nodes acc) =
   fold (consider_item ws changed) (plan_items nodes edges) acc"
  by (simp add: plan_items_def fold_map comp_def)

definition affected_spec :: "string \<Rightarrow> string list \<Rightarrow> graph_item list \<Rightarrow> graph_item list \<Rightarrow> string set" where
  "affected_spec ws changed_ids nodes edges =
     item_key ` {p \<in> set (plan_items nodes edges). invalidated ws (normalize_changed changed_ids) p}"

lemma finite_affected_spec [simp]: "finite (affected_spec ws changed_ids nodes edges)"
  by (simp add: affected_spec_def)

text \<open>C14: a bound below one is refused; otherwise the identifiers the planner reports as affected
  are, in sorted order and cut at the bound, exactly those of the items of this workspace that are a
  derived artifact and that either changed themselves or refer to a changed identifier. The plan is
  marked truncated exactly when some were cut, and the touched items of other workspaces are exactly
  the ones it reports as skipped.\<close>

theorem dependency_plan_exact:
  "(m < 1 \<longrightarrow> plan_dependency_invalidation ws ids nodes edges m =
                 Inl (ValueError ''max_dependents must be positive'')) \<and>
   (1 \<le> m \<longrightarrow> (\<exists>plan. plan_dependency_invalidation ws ids nodes edges m = Inr plan \<and>
      dp_affected_entity_ids plan =
        take (nat m) (sorted_list_of_set (affected_spec ws ids nodes edges)) \<and>
      (dp_truncated plan \<longleftrightarrow> nat m < card (affected_spec ws ids nodes edges)) \<and>
      set (dp_skipped_cross_workspace_ids plan) =
        item_key ` {p \<in> set (plan_items nodes edges). touched (normalize_changed ids) p \<and>
           \<not> local_item ws (fst p)}))"
  by (auto simp: plan_dependency_invalidation_def Let_def plan_fold fold_consider
      empty_invalidation_def affected_spec_def zless_nat_eq_int_zless)

text \<open>The example graph: a changed source \<open>s\<close>, a summary and a crosslink of workspace \<open>w\<close> that
  depend on it, and a summary of another workspace.\<close>

definition example_item :: "string \<Rightarrow> string \<Rightarrow> string \<Rightarrow> graph_item" where
  "example_item i ws kind = \<lparr>gi_id = i,
     gi_metadata = [(''workspace_id'', JStr ws), (''artifact_kind'', JStr kind),
                    (''depends_on_ids'', JArr [JStr ''s''])],
     gi_source_ids = JArr [], gi_target_ids = JArr []\<rparr>"

theorem dependency_plan_exact_witness:
  "\<exists>plan. plan_dependency_invalidation ''w'' [''s'']
       [example_item ''a'' ''w'' ''summary'', example_item ''b'' ''v'' ''summary''] [] 4 = Inr plan \<and>
     dp_affected_entity_ids plan = take (nat 4) (sorted_list_of_set (affected_spec ''w'' [''s'']
       [example_item ''a'' ''w'' ''summary'', example_item ''b'' ''v'' ''summary''] []))"
  using dependency_plan_exact [of 4 "''w''" "[''s'']"
      "[example_item ''a'' ''w'' ''summary'', example_item ''b'' ''v'' ''summary'']" "[]"]
  by fastforce

lemma plan_items_set_cong:
  "set nodes = set nodes' \<Longrightarrow> set edges = set edges' \<Longrightarrow>
     set (plan_items nodes edges) = set (plan_items nodes' edges')"
  by (simp add: plan_items_def)

text \<open>The plan does not depend on the order, or on repetitions, in which the graph reads returned
  the nodes and edges, nor in which the changed identifiers were given.\<close>

theorem dependency_plan_order_independent:
  assumes "set ids = set ids'" "set nodes = set nodes'" "set edges = set edges'"
  shows "plan_dependency_invalidation ws ids nodes edges m =
         plan_dependency_invalidation ws ids' nodes' edges' m"
proof -
  have c: "normalize_changed ids = normalize_changed ids'"
    by (simp add: normalize_changed_def assms)
  have i: "set (plan_items nodes edges) = set (plan_items nodes' edges')"
    using assms(2,3) by (rule plan_items_set_cong)
  show ?thesis
    by (simp add: plan_dependency_invalidation_def Let_def plan_fold fold_consider
        empty_invalidation_def c i assms)
qed

theorem dependency_plan_order_independent_witness:
  "plan_dependency_invalidation ''w'' [''s'', ''t'']
     [example_item ''a'' ''w'' ''summary'', example_item ''b'' ''w'' ''crosslink''] [] 9 =
   plan_dependency_invalidation ''w'' [''t'', ''s'']
     [example_item ''b'' ''w'' ''crosslink'', example_item ''a'' ''w'' ''summary''] [] 9"
  by (rule dependency_plan_order_independent) auto

text \<open>The bound does not reach the follow-up kinds: with a bound of one, the plan below cuts the
  crosslink away and still asks for its maintenance kind to be queued.\<close>

theorem follow_up_kinds_unbounded:
  "case plan_dependency_invalidation ''w'' [''s'']
       [example_item ''a'' ''w'' ''summary'', example_item ''b'' ''w'' ''crosslink''] [] 1 of
     Inl _ \<Rightarrow> False
   | Inr plan \<Rightarrow> dp_affected_entity_ids plan = [''a''] \<and> dp_truncated plan \<and>
       dp_follow_up_kinds plan = [''document_propose_crosslinks'', ''document_summarize_units'']"
  by code_simp

end
