(* ===== verification/Parse_Model.thy ===== *)
theory Parse_Model
  imports Wiki_Prelude Source_Guards
begin

text \<open>
  The data of durable parsing (parsing/parse\_views.py, first half) and the reconciliation decision
  (parsing/parse\_reconciliation.py). Each pydantic model is a record; its field constraints and
  model validator are one \<open>validate\<close> function, an optional \<^verbatim>\<open>ValidationError\<close> (a
  \<^verbatim>\<open>ValueError\<close>). Timestamps are microseconds. An entry of a stored JSON payload is a
  \<open>field\<close>: absent or not an object, an object some model cannot be read from, or an object with
  the typed content, whose constraints \<open>model_validate\<close> checks.
\<close>

section \<open>Definitions\<close>

datatype parse_generation_status = GenSeeded | GenExpanding | GenStable | GenFailed

datatype parse_session_phase =
  PhaseSeeded | PhaseExpanding | PhaseStable | PhaseReviewRequired | PhaseFailed

datatype parse_frontier_status = FrontierPending | FrontierClaimed | FrontierComplete | FrontierFailed

datatype parse_view_status = ViewActive | ViewSuperseded

datatype 'a field = NotObject | Malformed | Object 'a

record source_region =
  rg_source_document_id :: string
  rg_start_char :: int
  rg_end_char :: int

definition validate_source_region :: "source_region \<Rightarrow> check" where
  "validate_source_region r = checks
     [raise_if (rg_start_char r < 0) (ValueError ''start_char''),
      raise_if (rg_end_char r \<le> 0) (ValueError ''end_char''),
      raise_if (rg_end_char r \<le> rg_start_char r)
        (ValueError ''source region end_char must be greater than start_char'')]"

record parse_target =
  pt_source_document_id :: string
  pt_source_revision_id :: string
  pt_revision_document_id :: string
  pt_region :: source_region
  pt_reason :: string
  pt_parser_profile :: string
  pt_generation_member_id :: "string option"
  pt_llm_provider :: "string option"
  pt_llm_model :: "string option"
  pt_model_version :: "string option"
  pt_prompt_version :: "string option"
  pt_parser_version :: "string option"

definition max_length :: "nat \<Rightarrow> string option \<Rightarrow> string \<Rightarrow> check" where
  "max_length n v name = raise_if (length (opt_str v) > n) (ValueError name)"

definition validate_parse_target :: "parse_target \<Rightarrow> check" where
  "validate_parse_target t = checks
     [validate_source_region (pt_region t),
      raise_if (pt_reason t = [] \<or> length (pt_reason t) > 512) (ValueError ''reason''),
      raise_if (pt_parser_profile t = [] \<or> length (pt_parser_profile t) > 256) (ValueError ''parser_profile''),
      max_length 128 (pt_llm_provider t) ''llm_provider'',
      max_length 256 (pt_llm_model t) ''llm_model'',
      max_length 256 (pt_model_version t) ''model_version'',
      max_length 256 (pt_prompt_version t) ''prompt_version'',
      max_length 256 (pt_parser_version t) ''parser_version'',
      raise_if (rg_source_document_id (pt_region t) \<noteq> pt_revision_document_id t)
        (ValueError ''parse target region must point to its revision document'')]"

record parse_generation =
  pg_generation_id :: string
  pg_workspace_id :: string
  pg_source_document_id :: string
  pg_source_revision_id :: string
  pg_source_digest :: string
  pg_revision_document_id :: string
  pg_parser_profile :: string
  pg_parser_version :: string
  pg_llm_provider :: "string option"
  pg_llm_model :: "string option"
  pg_model_version :: "string option"
  pg_prompt_version :: "string option"
  pg_parent_generation_id :: "string option"
  pg_maintenance_run_id :: "string option"
  pg_status :: parse_generation_status
  pg_created_at :: int

record parse_generation_commit =
  pc_commit_id :: string
  pc_generation_id :: string
  pc_workspace_id :: string
  pc_source_document_id :: string
  pc_source_revision_id :: string
  pc_member_ids :: "string list"
  pc_consumed_frontier_ids :: "string list"
  pc_attempt :: int
  pc_committed_at :: int

definition validate_parse_generation_commit :: "parse_generation_commit \<Rightarrow> check" where
  "validate_parse_generation_commit c = raise_if (pc_attempt c < 1) (ValueError ''attempt'')"

record parse_generation_member =
  pm_member_id :: string
  pm_generation_id :: string
  pm_workspace_id :: string
  pm_source_document_id :: string
  pm_source_revision_id :: string
  pm_revision_document_id :: string
  pm_region :: source_region
  pm_semantic_id :: "string option"
  pm_semantic_fingerprint :: "string option"
  pm_parent_member_id :: "string option"
  pm_depth :: int
  pm_payload :: json_object

definition validate_parse_generation_member :: "parse_generation_member \<Rightarrow> check" where
  "validate_parse_generation_member m = checks
     [validate_source_region (pm_region m),
      raise_if (pm_depth m < 0) (ValueError ''depth''),
      raise_if (rg_source_document_id (pm_region m) \<noteq> pm_revision_document_id m)
        (ValueError ''parse generation member region must point to its revision document'')]"

text \<open>\<^verbatim>\<open>by_id\<close>: a later member with the same identifier replaces an earlier one.\<close>

definition members_by_id :: "parse_generation_member list \<Rightarrow> string \<rightharpoonup> parse_generation_member" where
  "members_by_id ms = map_of (rev (map (\<lambda>m. (pm_member_id m, m)) ms))"

definition check_member_ancestry ::
    "(string \<rightharpoonup> parse_generation_member) \<Rightarrow> (string \<rightharpoonup> string) \<Rightarrow> parse_generation_member \<Rightarrow> check" where
  "check_member_ancestry by_id expected m =
     (if opt_str (pm_parent_member_id m) = [] then None
      else case by_id (opt_str (pm_parent_member_id m)) of
        None \<Rightarrow> Some (ValueError ''parse generation member references an unknown parent member'')
      | Some p \<Rightarrow> checks
          [raise_if (pm_generation_id p \<noteq> pm_generation_id m \<or>
                     pm_workspace_id p \<noteq> pm_workspace_id m \<or>
                     pm_source_document_id p \<noteq> pm_source_document_id m \<or>
                     pm_source_revision_id p \<noteq> pm_source_revision_id m \<or>
                     pm_revision_document_id p \<noteq> pm_revision_document_id m)
             (ValueError ''parse generation member parent is outside the immutable lineage''),
           raise_if (rg_start_char (pm_region p) > rg_start_char (pm_region m) \<or>
                     rg_end_char (pm_region p) < rg_end_char (pm_region m))
             (ValueError ''parse generation member region is outside its parent region''),
           raise_if (expected (pm_member_id m) \<noteq> None \<and>
                     expected (pm_member_id m) \<noteq> pm_parent_member_id m)
             (ValueError ''parse generation member disagrees with the source structural parent'')])"

definition validate_generation_member_ancestry ::
    "parse_generation_member list \<Rightarrow> (string \<rightharpoonup> string) \<Rightarrow> check" where
  "validate_generation_member_ancestry ms expected =
     first_error (check_member_ancestry (members_by_id ms) expected) ms"

record parse_frontier_item =
  fi_frontier_id :: string
  fi_session_id :: string
  fi_generation_id :: string
  fi_workspace_id :: string
  fi_source_document_id :: string
  fi_source_revision_id :: string
  fi_revision_document_id :: string
  fi_parent_member_id :: "string option"
  fi_region :: source_region
  fi_depth :: int
  fi_ordinal :: int
  fi_status :: parse_frontier_status
  fi_attempt :: int
  fi_last_error :: "string option"

definition validate_parse_frontier_item :: "parse_frontier_item \<Rightarrow> check" where
  "validate_parse_frontier_item f = checks
     [validate_source_region (fi_region f),
      raise_if (fi_depth f < 0) (ValueError ''depth''),
      raise_if (fi_ordinal f < 0) (ValueError ''ordinal''),
      raise_if (fi_attempt f < 0) (ValueError ''attempt'')]"

record parse_session_state =
  ss_session_id :: string
  ss_workspace_id :: string
  ss_source_document_id :: string
  ss_source_revision_id :: string
  ss_source_digest :: string
  ss_revision_document_id :: string
  ss_generation_id :: string
  ss_phase :: parse_session_phase
  ss_frontier_ids :: "string list"
  ss_consumed_frontier_ids :: "string list"
  ss_max_depth :: int
  ss_max_frontier_items :: int
  ss_max_parser_calls :: int
  ss_max_region_chars :: int
  ss_parser_calls :: int
  ss_token_budget :: "int option"
  ss_wall_time_seconds :: "rat option"
  ss_last_progress_at :: int
  ss_failure_reason :: "string option"
  ss_parser_state :: json_object
  ss_pending_view :: "json_object option"
  ss_dependents_enqueued_view_version :: "int option"

definition validate_parse_session_state :: "parse_session_state \<Rightarrow> check" where
  "validate_parse_session_state s = checks
     [raise_if (ss_max_depth s < 0) (ValueError ''max_depth''),
      raise_if (ss_max_frontier_items s < 1) (ValueError ''max_frontier_items''),
      raise_if (ss_max_parser_calls s < 1) (ValueError ''max_parser_calls''),
      raise_if (ss_max_region_chars s < 1) (ValueError ''max_region_chars''),
      raise_if (ss_parser_calls s < 0) (ValueError ''parser_calls''),
      raise_if (case ss_token_budget s of None \<Rightarrow> False | Some b \<Rightarrow> b < 1) (ValueError ''token_budget''),
      raise_if (case ss_wall_time_seconds s of None \<Rightarrow> False | Some w \<Rightarrow> w \<le> 0)
        (ValueError ''wall_time_seconds''),
      raise_if (case ss_dependents_enqueued_view_version s of None \<Rightarrow> False | Some v \<Rightarrow> v < 1)
        (ValueError ''dependents_enqueued_view_version'')]"

record parse_view_selection =
  sel_member_id :: string
  sel_generation_id :: string
  sel_region :: source_region

record parse_view =
  pv_view_id :: string
  pv_view_version :: int
  pv_workspace_id :: string
  pv_source_document_id :: string
  pv_source_revision_id :: string
  pv_revision_document_id :: string
  pv_selections :: "parse_view_selection list"
  pv_predecessor_view_id :: "string option"
  pv_status :: parse_view_status
  pv_activated_at :: int

definition selection_key :: "parse_view_selection \<Rightarrow> int \<times> int \<times> string" where
  "selection_key s = (rg_start_char (sel_region s), rg_end_char (sel_region s), sel_member_id s)"

fun check_pairwise :: "parse_view_selection list \<Rightarrow> check" where
  "check_pairwise (previous # current # rest) =
     (if rg_start_char (sel_region current) < rg_end_char (sel_region previous)
      then Some (ValueError ''ParseView selections must not overlap'')
      else check_pairwise (current # rest))"
| "check_pairwise _ = None"

definition selections_are_grounded_and_disjoint :: "parse_view \<Rightarrow> check" where
  "selections_are_grounded_and_disjoint v =
     (let regions = sort_key selection_key (pv_selections v) in checks
        [first_error (\<lambda>s. raise_if
             (rg_source_document_id (sel_region s) \<noteq> pv_revision_document_id v)
             (ValueError ''ParseView selections must point to the revision document'')) regions,
         check_pairwise regions])"

definition validate_parse_view :: "parse_view \<Rightarrow> check" where
  "validate_parse_view v = checks
     [raise_if (pv_view_version v < 1) (ValueError ''view_version''),
      first_error (\<lambda>s. validate_source_region (sel_region s)) (pv_selections v),
      selections_are_grounded_and_disjoint v]"

definition model_validate :: "('a \<Rightarrow> check) \<Rightarrow> 'a field \<Rightarrow> 'a result" where
  "model_validate validate f = (case f of
       NotObject \<Rightarrow> Inl (ValueError ''validation error'')
     | Malformed \<Rightarrow> Inl (ValueError ''validation error'')
     | Object a \<Rightarrow> check_then (validate a) (Inr a))"

subsection \<open>Identifiers\<close>

definition generation_id :: "stable_id_fn \<Rightarrow> string \<Rightarrow> string \<Rightarrow> string \<Rightarrow> string \<Rightarrow> string \<Rightarrow> string" where
  "generation_id stable_id ws doc rev_id profile derivation =
     stable_id [''kogwistar_llm_wiki.parse_generation'', ws, doc, rev_id, profile, derivation]"

definition parse_session_id :: "stable_id_fn \<Rightarrow> string \<Rightarrow> string \<Rightarrow> string \<Rightarrow> string \<Rightarrow> string" where
  "parse_session_id stable_id ws doc rev_id profile =
     stable_id [''kogwistar_llm_wiki.parse_session'', ws, doc, rev_id, profile]"

definition reparse_session_id ::
    "stable_id_fn \<Rightarrow> string \<Rightarrow> string \<Rightarrow> string \<Rightarrow> string \<Rightarrow> source_region \<Rightarrow> string option \<Rightarrow>
     string option \<Rightarrow> string option \<Rightarrow> string option \<Rightarrow> string option \<Rightarrow> string" where
  "reparse_session_id stable_id ws doc rev_id profile region provider llm_model model_v prompt_v parser_v =
     stable_id [''kogwistar_llm_wiki.reparse_session'', ws, doc, rev_id, profile,
       rg_source_document_id region, int_str (rg_start_char region), int_str (rg_end_char region),
       opt_str provider, opt_str llm_model, opt_str model_v, opt_str prompt_v, opt_str parser_v]"

definition generation_member_id :: "stable_id_fn \<Rightarrow> string \<Rightarrow> string \<Rightarrow> int \<Rightarrow> string" where
  "generation_member_id stable_id gen commit ordinal =
     stable_id [''kogwistar_llm_wiki.parse_generation_member'', gen, commit, int_str ordinal]"

definition frontier_id :: "stable_id_fn \<Rightarrow> string \<Rightarrow> source_region \<Rightarrow> int \<Rightarrow> string" where
  "frontier_id stable_id session region ordinal =
     stable_id [''kogwistar_llm_wiki.parse_frontier'', session, rg_source_document_id region,
       int_str (rg_start_char region), int_str (rg_end_char region), int_str ordinal]"

definition legacy_generation_id :: "stable_id_fn \<Rightarrow> string \<Rightarrow> string \<Rightarrow> string" where
  "legacy_generation_id stable_id ws doc =
     stable_id [''kogwistar_llm_wiki.parse_generation.legacy_g0'', ws, doc]"

subsection \<open>Reconciliation\<close>

datatype reconciliation_outcome =
  Equivalent | Additive | CorrectiveReplacement | LowerConfidence | ReviewRequired

record reconciliation_decision =
  rd_outcome :: reconciliation_outcome
  rd_view_update_allowed :: bool
  rd_active_graph_patch_required :: bool
  rd_requires_review :: bool
  rd_overlapping_member_ids :: "string list"
  rd_rationale :: string

definition lower_confidence :: "rat option \<Rightarrow> rat option \<Rightarrow> bool" where
  "lower_confidence new old = (case new of None \<Rightarrow> False
     | Some n \<Rightarrow> (case old of None \<Rightarrow> False | Some p \<Rightarrow> n < p))"

definition decide_parse_reconciliation ::
    "string list \<Rightarrow> bool \<Rightarrow> rat option \<Rightarrow> rat option \<Rightarrow> bool \<Rightarrow> reconciliation_decision" where
  "decide_parse_reconciliation ids same_fingerprint new_confidence previous_confidence approved =
     (let overlap = sorted_list_of_set (set (filter (\<lambda>v. py_strip v \<noteq> []) ids))
      in if overlap = []
         then \<lparr>rd_outcome = Additive, rd_view_update_allowed = True,
               rd_active_graph_patch_required = False, rd_requires_review = False,
               rd_overlapping_member_ids = overlap,
               rd_rationale = ''new derivation covers a region without an active selection''\<rparr>
         else if same_fingerprint
         then \<lparr>rd_outcome = Equivalent, rd_view_update_allowed = True,
               rd_active_graph_patch_required = False, rd_requires_review = False,
               rd_overlapping_member_ids = overlap,
               rd_rationale = ''derivation fingerprint matches the active interpretation''\<rparr>
         else if lower_confidence new_confidence previous_confidence
         then \<lparr>rd_outcome = LowerConfidence, rd_view_update_allowed = False,
               rd_active_graph_patch_required = False, rd_requires_review = True,
               rd_overlapping_member_ids = overlap,
               rd_rationale = ''replacement derivation has lower confidence than the active interpretation''\<rparr>
         else if approved
         then \<lparr>rd_outcome = CorrectiveReplacement, rd_view_update_allowed = True,
               rd_active_graph_patch_required = True, rd_requires_review = False,
               rd_overlapping_member_ids = overlap,
               rd_rationale = ''replacement was explicitly approved for reconciliation''\<rparr>
         else \<lparr>rd_outcome = ReviewRequired, rd_view_update_allowed = False,
               rd_active_graph_patch_required = False, rd_requires_review = True,
               rd_overlapping_member_ids = overlap,
               rd_rationale = ''overlapping derivation lacks an equivalence proof or replacement approval''\<rparr>)"


section \<open>Reading models back\<close>

lemma model_validate_Inr [simp]: "model_validate v f = Inr a \<longleftrightarrow> f = Object a \<and> v a = None"
  by (auto simp: model_validate_def split: field.split)

lemma map_res_model_validate:
  "map_res (model_validate v) fs = Inr xs \<longleftrightarrow> fs = map Object xs \<and> (\<forall>x\<in>set xs. v x = None)"
  by (induction fs arbitrary: xs) (auto simp: Cons_eq_map_conv)

section \<open>The view validator accepts exactly the disjoint selections\<close>

definition disjoint_selections :: "parse_view_selection \<Rightarrow> parse_view_selection \<Rightarrow> bool" where
  "disjoint_selections a b \<longleftrightarrow>
     rg_end_char (sel_region a) \<le> rg_start_char (sel_region b) \<or>
     rg_end_char (sel_region b) \<le> rg_start_char (sel_region a)"

definition valid_region :: "source_region \<Rightarrow> bool" where
  "valid_region r \<longleftrightarrow> 0 \<le> rg_start_char r \<and> rg_start_char r < rg_end_char r"

abbreviation precedes :: "parse_view_selection \<Rightarrow> parse_view_selection \<Rightarrow> bool" where
  "precedes a b \<equiv> rg_end_char (sel_region a) \<le> rg_start_char (sel_region b)"

lemma validate_source_region_None [simp, check_simps]:
  "validate_source_region r = None \<longleftrightarrow> valid_region r"
  by (auto simp: validate_source_region_def valid_region_def)

lemma symp_disjoint: "symp disjoint_selections"
  by (auto simp: symp_def disjoint_selections_def)

lemma check_pairwise_None:
  "check_pairwise xs = None \<longleftrightarrow> successively precedes xs"
  by (induction xs rule: check_pairwise.induct) auto

lemma check_pairwise_sorted_wrt:
  assumes "\<forall>s\<in>set xs. valid_region (sel_region s)"
  shows "check_pairwise xs = None \<longleftrightarrow> sorted_wrt precedes xs"
  using assms
proof (induction xs rule: check_pairwise.induct)
  case (1 a b rest)
  then have v: "valid_region (sel_region b)" by simp
  show ?case
  proof (cases "precedes a b")
    case True
    with 1 have "check_pairwise (a # b # rest) = None \<longleftrightarrow> sorted_wrt precedes (b # rest)" by simp
    moreover have "sorted_wrt precedes (b # rest) \<Longrightarrow> \<forall>x\<in>set rest. precedes a x"
      using True v by (force simp: valid_region_def)
    ultimately show ?thesis using True by auto
  next
    case False
    then show ?thesis by simp
  qed
qed simp_all

lemma sorted_wrt_precedes_iff_disjoint:
  assumes "sorted (map selection_key xs)" "\<forall>s\<in>set xs. valid_region (sel_region s)"
  shows "sorted_wrt precedes xs = sorted_wrt disjoint_selections xs"
proof (rule sorted_wrt_cong_pairs)
  fix i j assume ij: "i < j" "j < length xs"
  with assms(1) have "selection_key (xs ! i) \<le> selection_key (xs ! j)"
    by (simp add: sorted_iff_nth_mono_less)
  then have le: "rg_start_char (sel_region (xs ! i)) \<le> rg_start_char (sel_region (xs ! j))"
    by (auto simp: selection_key_def less_eq_prod_def less_prod_def)
  from ij assms(2) have v: "valid_region (sel_region (xs ! j))" by simp
  show "precedes (xs ! i) (xs ! j) = disjoint_selections (xs ! i) (xs ! j)"
    using le v by (auto simp: disjoint_selections_def valid_region_def)
qed

lemma selections_check_None:
  assumes "\<forall>s\<in>set (pv_selections v). valid_region (sel_region s)"
  shows "selections_are_grounded_and_disjoint v = None \<longleftrightarrow>
    (\<forall>s\<in>set (pv_selections v). rg_source_document_id (sel_region s) = pv_revision_document_id v) \<and>
    sorted_wrt disjoint_selections (pv_selections v)"
proof -
  let ?xs = "sort_key selection_key (pv_selections v)"
  have "check_pairwise ?xs = None \<longleftrightarrow> sorted_wrt precedes ?xs"
    using assms by (intro check_pairwise_sorted_wrt) simp
  also have "\<dots> \<longleftrightarrow> sorted_wrt disjoint_selections ?xs"
    using assms by (intro sorted_wrt_precedes_iff_disjoint) simp_all
  also have "\<dots> \<longleftrightarrow> sorted_wrt disjoint_selections (pv_selections v)"
    by (intro sorted_wrt_mset_iff symp_disjoint) simp
  finally show ?thesis
    by (auto simp: selections_are_grounded_and_disjoint_def)
qed

text \<open>C9: a parse view is accepted exactly when its version is positive, every selected region is a
  non-empty span of the view's own revision document, and no two selections, at whatever positions
  they were listed, overlap. The sort and the comparison of neighbours decide the all-pairs
  condition.\<close>

theorem parse_view_accepted_iff:
  "validate_parse_view v = None \<longleftrightarrow>
     1 \<le> pv_view_version v \<and>
     (\<forall>s\<in>set (pv_selections v). valid_region (sel_region s) \<and>
        rg_source_document_id (sel_region s) = pv_revision_document_id v) \<and>
     (\<forall>i j. i < j \<longrightarrow> j < length (pv_selections v) \<longrightarrow>
        disjoint_selections (pv_selections v ! i) (pv_selections v ! j))"
proof (cases "\<forall>s\<in>set (pv_selections v). valid_region (sel_region s)")
  case True
  then show ?thesis
    by (auto simp: validate_parse_view_def selections_check_None sorted_wrt_iff_nth_less)
next
  case False
  then show ?thesis by (auto simp: validate_parse_view_def)
qed

definition example_view :: parse_view where
  "example_view = \<lparr>pv_view_id = ''v'', pv_view_version = 1, pv_workspace_id = ''w'',
     pv_source_document_id = ''d'', pv_source_revision_id = ''r'', pv_revision_document_id = ''rd'',
     pv_selections = [\<lparr>sel_member_id = ''m2'', sel_generation_id = ''g'',
         sel_region = \<lparr>rg_source_document_id = ''rd'', rg_start_char = 5, rg_end_char = 9\<rparr>\<rparr>,
       \<lparr>sel_member_id = ''m1'', sel_generation_id = ''g'',
         sel_region = \<lparr>rg_source_document_id = ''rd'', rg_start_char = 0, rg_end_char = 5\<rparr>\<rparr>],
     pv_predecessor_view_id = None, pv_status = ViewActive, pv_activated_at = 0\<rparr>"

theorem parse_view_accepted_iff_witness:
  "validate_parse_view example_view = None"
proof -
  have "\<forall>i j. i < j \<longrightarrow> j < length (pv_selections example_view) \<longrightarrow>
        disjoint_selections (pv_selections example_view ! i) (pv_selections example_view ! j)"
    by (auto simp: example_view_def disjoint_selections_def less_Suc_eq nth_Cons')
  then show ?thesis
    unfolding parse_view_accepted_iff by (simp add: example_view_def valid_region_def)
qed

section \<open>Member ancestry\<close>

text \<open>The parent relation a list of members describes, and its transitive closure.\<close>

definition is_parent ::
    "parse_generation_member list \<Rightarrow> parse_generation_member \<Rightarrow> parse_generation_member \<Rightarrow> bool" where
  "is_parent ms child parent \<longleftrightarrow> child \<in> set ms \<and> opt_str (pm_parent_member_id child) \<noteq> [] \<and>
     members_by_id ms (opt_str (pm_parent_member_id child)) = Some parent"

inductive ancestor ::
    "parse_generation_member list \<Rightarrow> parse_generation_member \<Rightarrow> parse_generation_member \<Rightarrow> bool"
  for ms where
  ancestor_parent: "is_parent ms m p \<Longrightarrow> ancestor ms m p"
| ancestor_step: "ancestor ms m p \<Longrightarrow> is_parent ms p q \<Longrightarrow> ancestor ms m q"

definition same_lineage :: "parse_generation_member \<Rightarrow> parse_generation_member \<Rightarrow> bool" where
  "same_lineage m p \<longleftrightarrow> pm_generation_id p = pm_generation_id m \<and>
     pm_workspace_id p = pm_workspace_id m \<and> pm_source_document_id p = pm_source_document_id m \<and>
     pm_source_revision_id p = pm_source_revision_id m \<and>
     pm_revision_document_id p = pm_revision_document_id m"

definition region_within :: "source_region \<Rightarrow> source_region \<Rightarrow> bool" where
  "region_within r p \<longleftrightarrow> rg_start_char p \<le> rg_start_char r \<and> rg_end_char r \<le> rg_end_char p"

lemma ancestry_parent:
  assumes "validate_generation_member_ancestry ms expected = None" "is_parent ms m p"
  shows "same_lineage m p \<and> region_within (pm_region m) (pm_region p)"
  using assms
  by (auto simp: validate_generation_member_ancestry_def is_parent_def check_member_ancestry_def
      same_lineage_def region_within_def not_less split: if_splits option.splits)

text \<open>in a generation whose members pass the ancestry check, every ancestor of a member, however
  far up its parent chain, belongs to the same generation, workspace, source, revision and revision
  document, and its region contains the member's region.\<close>

theorem ancestors_contain_member:
  assumes "validate_generation_member_ancestry ms expected = None" "ancestor ms m p"
  shows "same_lineage m p \<and> region_within (pm_region m) (pm_region p)"
  using assms(2)
proof (induction rule: ancestor.induct)
  case (ancestor_parent m p)
  with assms(1) show ?case by (rule ancestry_parent)
next
  case (ancestor_step m p q)
  with assms(1) ancestry_parent [of ms expected p q] show ?case
    by (auto simp: same_lineage_def region_within_def)
qed

definition example_member :: "string \<Rightarrow> string option \<Rightarrow> int \<Rightarrow> int \<Rightarrow> parse_generation_member" where
  "example_member i parent a b = \<lparr>pm_member_id = i, pm_generation_id = ''g'', pm_workspace_id = ''w'',
     pm_source_document_id = ''d'', pm_source_revision_id = ''r'', pm_revision_document_id = ''rd'',
     pm_region = \<lparr>rg_source_document_id = ''rd'', rg_start_char = a, rg_end_char = b\<rparr>,
     pm_semantic_id = None, pm_semantic_fingerprint = None, pm_parent_member_id = parent,
     pm_depth = 0, pm_payload = []\<rparr>"

theorem ancestors_contain_member_witness:
  "region_within (pm_region (example_member ''c'' (Some ''b'') 2 4))
     (pm_region (example_member ''a'' None 0 9))"
proof -
  let ?ms = "[example_member ''a'' None 0 9, example_member ''b'' (Some ''a'') 1 5,
              example_member ''c'' (Some ''b'') 2 4]"
  have ok: "validate_generation_member_ancestry ?ms Map.empty = None"
    by (auto simp: validate_generation_member_ancestry_def check_member_ancestry_def
        members_by_id_def example_member_def opt_str_def)
  have "ancestor ?ms (example_member ''c'' (Some ''b'') 2 4) (example_member ''a'' None 0 9)"
    by (rule ancestor_step [OF ancestor_parent, where p = "example_member ''b'' (Some ''a'') 1 5"])
      (auto simp: is_parent_def members_by_id_def example_member_def opt_str_def)
  from ancestors_contain_member [OF ok this] show ?thesis by simp
qed

section \<open>Reconciliation\<close>

text \<open>A new derivation may replace the active selections without review exactly when it overlaps
  none of them, or its fingerprint equals theirs, or the replacement was approved and its confidence
  is not known to be lower; every other case is sent to review, and a graph patch is demanded only
  for an approved replacement.\<close>

theorem reconciliation_decision_iff:
  fixes ids fp new old appr
  defines "d \<equiv> decide_parse_reconciliation ids fp new old appr"
  shows "(rd_view_update_allowed d \<longleftrightarrow> (\<forall>v\<in>set ids. py_strip v = []) \<or> fp \<or>
            (appr \<and> \<not> lower_confidence new old)) \<and>
         (rd_requires_review d \<longleftrightarrow> \<not> rd_view_update_allowed d) \<and>
         (rd_active_graph_patch_required d \<longleftrightarrow>
            rd_view_update_allowed d \<and> rd_outcome d = CorrectiveReplacement)"
proof -
  have e: "sorted_list_of_set (set (filter (\<lambda>v. py_strip v \<noteq> []) ids)) = [] \<longleftrightarrow>
      (\<forall>v\<in>set ids. py_strip v = [])"
    by (auto simp: filter_empty_conv)
  show ?thesis
    unfolding d_def decide_parse_reconciliation_def Let_def e
    by auto
qed

theorem reconciliation_decision_iff_witness:
  "rd_requires_review (decide_parse_reconciliation [''m''] False (Some (1/2)) (Some (3/4)) True)"
  using reconciliation_decision_iff [of "[''m'']" False "Some (1/2)" "Some (3/4)" True]
  by (simp add: lower_confidence_def py_strip_def py_lstrip_def py_rstrip_def py_isspace_def code_of_def)

end
