(* ===== verification/Projection_Store.thy ===== *)
theory Projection_Store
  imports Parse_Model
begin

text \<open>
  The interface of Kogwistar's named projections, on which the parse stores rest, and the payloads
  they keep there. Kogwistar is not part of the repository: its store is the record
  \<open>projection_ops\<close> of the operations the code calls, an argument of every definition that uses
  it, and the locale \<open>projection_store\<close> states what the code relies on: a compare-and-swap with
  both expected sequences absent succeeds exactly on an absent row, one with both given succeeds
  exactly on a row with those sequences, a success writes that row and no other, a refusal writes
  nothing; the sequences of a row are integers. The schema version and materialization status the
  code passes are the constants 1 and \<^verbatim>\<open>ready\<close> and play no part. \<open>mem_ops\<close> is an implementation of the interface over an association list.

  What other workers do between the reads of an operation and its compare-and-swap is an argument
  \<open>env\<close>, a state transformer the operation knows nothing about.
\<close>

section \<open>Interface\<close>

record 'p projection_row =
  row_key :: string
  row_payload :: 'p
  row_authoritative_seq :: json
  row_materialized_seq :: json

record ('s, 'p) projection_ops =
  get_named_projection :: "'s \<Rightarrow> string \<Rightarrow> string \<Rightarrow> 'p projection_row option"
  list_named_projections :: "'s \<Rightarrow> string \<Rightarrow> 'p projection_row list"
  cas_named_projection ::
    "'s \<Rightarrow> string \<Rightarrow> string \<Rightarrow> 'p \<Rightarrow> int option \<Rightarrow> int option \<Rightarrow> int \<Rightarrow> int \<Rightarrow> 's \<times> bool"

definition cas_expects :: "'p projection_row option \<Rightarrow> int option \<Rightarrow> int option \<Rightarrow> bool" where
  "cas_expects row expected_auth expected_mat = (case row of
       None \<Rightarrow> expected_auth = None \<and> expected_mat = None
     | Some r \<Rightarrow> map_option JInt expected_auth = Some (row_authoritative_seq r) \<and>
                map_option JInt expected_mat = Some (row_materialized_seq r))"

definition new_row :: "string \<Rightarrow> 'p \<Rightarrow> int \<Rightarrow> int \<Rightarrow> 'p projection_row" where
  "new_row k p auth mat = \<lparr>row_key = k, row_payload = p, row_authoritative_seq = JInt auth,
     row_materialized_seq = JInt mat\<rparr>"

locale projection_store =
  fixes ops :: "('s, 'p) projection_ops"
    and invar :: "'s \<Rightarrow> bool"
  assumes cas_decides: "invar s \<Longrightarrow>
      snd (cas_named_projection ops s ns k p ea em a m) \<longleftrightarrow>
        cas_expects (get_named_projection ops s ns k) ea em"
    and cas_writes: "invar s \<Longrightarrow> cas_expects (get_named_projection ops s ns k) ea em \<Longrightarrow>
      get_named_projection ops (fst (cas_named_projection ops s ns k p ea em a m)) ns' k' =
        (if ns' = ns \<and> k' = k then Some (new_row k p a m) else get_named_projection ops s ns' k')"
    and cas_refuses: "invar s \<Longrightarrow> \<not> cas_expects (get_named_projection ops s ns k) ea em \<Longrightarrow>
      fst (cas_named_projection ops s ns k p ea em a m) = s"
    and invar_cas: "invar s \<Longrightarrow> invar (fst (cas_named_projection ops s ns k p ea em a m))"
    and list_rows: "invar s \<Longrightarrow>
      set (list_named_projections ops s ns) = {r. \<exists>k. get_named_projection ops s ns k = Some r}"
    and row_key: "invar s \<Longrightarrow> get_named_projection ops s ns k = Some r \<Longrightarrow> row_key r = k"
    and row_seqs: "invar s \<Longrightarrow> get_named_projection ops s ns k = Some r \<Longrightarrow>
      (\<exists>a. row_authoritative_seq r = JInt a) \<and> (\<exists>m. row_materialized_seq r = JInt m)"
begin

lemma cas_swapped:
  assumes "invar s" "cas_named_projection ops s ns k p ea em a m = (s', True)"
  shows "cas_expects (get_named_projection ops s ns k) ea em"
    and "get_named_projection ops s' ns k = Some (new_row k p a m)"
    and "ns' \<noteq> ns \<or> k' \<noteq> k \<Longrightarrow> get_named_projection ops s' ns' k' = get_named_projection ops s ns' k'"
    and "invar s'"
proof -
  show e: "cas_expects (get_named_projection ops s ns k) ea em"
    using assms cas_decides [OF assms(1), of ns k p ea em a m] by simp
  show "get_named_projection ops s' ns k = Some (new_row k p a m)"
    using assms cas_writes [OF assms(1) e, of p a m ns k] by simp
  show "ns' \<noteq> ns \<or> k' \<noteq> k \<Longrightarrow> get_named_projection ops s' ns' k' = get_named_projection ops s ns' k'"
    using assms cas_writes [OF assms(1) e, of p a m ns' k'] by auto
  show "invar s'"
    using assms invar_cas [OF assms(1), of ns k p ea em a m] by simp
qed

lemma cas_refused:
  assumes "invar s" "cas_named_projection ops s ns k p ea em a m = (s', False)"
  shows "\<not> cas_expects (get_named_projection ops s ns k) ea em" and "s' = s"
  using assms cas_decides [OF assms(1), of ns k p ea em a m]
    cas_refuses [OF assms(1), of ns k ea em p a m] by auto

end

section \<open>The association-list implementation\<close>

type_synonym 'p mem_store = "((string \<times> string) \<times> 'p projection_row) list"

definition mem_get :: "'p mem_store \<Rightarrow> string \<Rightarrow> string \<Rightarrow> 'p projection_row option" where
  "mem_get s ns k = map_of s (ns, k)"

definition mem_list :: "'p mem_store \<Rightarrow> string \<Rightarrow> 'p projection_row list" where
  "mem_list s ns = map snd (filter (\<lambda>e. fst (fst e) = ns) s)"

definition mem_cas :: "'p mem_store \<Rightarrow> string \<Rightarrow> string \<Rightarrow> 'p \<Rightarrow> int option \<Rightarrow> int option \<Rightarrow>
    int \<Rightarrow> int \<Rightarrow> 'p mem_store \<times> bool" where
  "mem_cas s ns k p ea em a m =
     (if cas_expects (mem_get s ns k) ea em then (AList.update (ns, k) (new_row k p a m) s, True)
      else (s, False))"

definition mem_ops :: "('p mem_store, 'p) projection_ops" where
  "mem_ops = \<lparr>get_named_projection = mem_get, list_named_projections = mem_list,
     cas_named_projection = mem_cas\<rparr>"

definition mem_row_ok :: "(string \<times> string) \<times> 'p projection_row \<Rightarrow> bool" where
  "mem_row_ok e \<longleftrightarrow> row_key (snd e) = snd (fst e) \<and>
     (\<exists>a. row_authoritative_seq (snd e) = JInt a) \<and> (\<exists>m. row_materialized_seq (snd e) = JInt m)"

definition mem_invar :: "'p mem_store \<Rightarrow> bool" where
  "mem_invar s \<longleftrightarrow> distinct (map fst s) \<and> (\<forall>e\<in>set s. mem_row_ok e)"

lemma mem_ops_sel [simp]:
  "get_named_projection mem_ops = mem_get" "list_named_projections mem_ops = mem_list"
  "cas_named_projection mem_ops = mem_cas"
  by (simp_all add: mem_ops_def)

lemma mem_invar_update:
  assumes "mem_invar s" "mem_row_ok ((ns, k), r)"
  shows "mem_invar (AList.update (ns, k) r s)"
proof (unfold mem_invar_def, intro conjI ballI)
  show d: "distinct (map fst (AList.update (ns, k) r s))"
    using assms by (simp add: mem_invar_def distinct_update)
  fix e assume "e \<in> set (AList.update (ns, k) r s)"
  with d have "map_of (AList.update (ns, k) r s) (fst e) = Some (snd e)"
    by (metis map_of_is_SomeI prod.collapse)
  then show "mem_row_ok e"
    using assms by (cases e) (auto simp: update_conv' mem_invar_def dest: map_of_SomeD split: if_splits)
qed

interpretation mem: projection_store mem_ops mem_invar
proof unfold_locales
  fix s :: "'p mem_store" and ns k p ea em a m ns' k'
  assume "mem_invar s"
  then show "mem_invar (fst (cas_named_projection mem_ops s ns k p ea em a m))"
    by (simp add: mem_cas_def mem_invar_update mem_row_ok_def new_row_def)
next
  fix s :: "'p mem_store" and ns
  assume s: "mem_invar s"
  show "set (list_named_projections mem_ops s ns) =
      {r. \<exists>k. get_named_projection mem_ops s ns k = Some r}"
    using s by (force simp: mem_list_def mem_get_def mem_invar_def dest: map_of_SomeD)
next
  fix s :: "'p mem_store" and ns k r
  assume "mem_invar s" "get_named_projection mem_ops s ns k = Some r"
  then have "mem_row_ok ((ns, k), r)"
    by (auto simp: mem_get_def mem_invar_def dest: map_of_SomeD)
  then show "row_key r = k" "(\<exists>a. row_authoritative_seq r = JInt a) \<and>
      (\<exists>m. row_materialized_seq r = JInt m)"
    by (simp_all add: mem_row_ok_def)
qed (auto simp: mem_cas_def mem_get_def update_conv')

lemma mem_invar_Nil [simp]: "mem_invar []"
  by (simp add: mem_invar_def)

section \<open>Stored payloads and sequence numbers\<close>

record stored_payload =
  sp_generation :: "parse_generation field"
  sp_commits :: "(string \<times> parse_generation_commit field) list option"
  sp_members :: "(string \<times> parse_generation_member field) list option"
  sp_session :: "parse_session_state field"
  sp_frontier :: "parse_frontier_item field list"
  sp_active :: json_object
  sp_view :: "parse_view field"

datatype payload = NotMapping | Mapping stored_payload

definition empty_payload :: stored_payload where
  "empty_payload = \<lparr>sp_generation = NotObject, sp_commits = None, sp_members = None,
     sp_session = NotObject, sp_frontier = [], sp_active = [], sp_view = Malformed\<rparr>"

definition state_namespace :: "string \<Rightarrow> string" where
  "state_namespace ws = ''ws:'' @ ws @ '':projection_state''"

text \<open>\<^verbatim>\<open>_sequence\<close> of the session and generation stores, \<^verbatim>\<open>_payload_int\<close> of the view store.\<close>

fun sequence_value :: "json \<Rightarrow> int \<Rightarrow> int" where
  "sequence_value (JBool b) d = (if b then 1 else 0)"
| "sequence_value (JInt i) d = i"
| "sequence_value (JFloat f) d = trunc_rat (fl_val f)"
| "sequence_value (JStr s) d = (case int_of_string s of Some i \<Rightarrow> i | None \<Rightarrow> d)"
| "sequence_value v d = d"

fun payload_int :: "json \<Rightarrow> int \<Rightarrow> int" where
  "payload_int (JBool b) d = (if b then 1 else 0)"
| "payload_int (JInt i) d = i"
| "payload_int (JFloat f) d = trunc_rat (fl_val f)"
| "payload_int v d = (case int_of_string (py_str v) of Some i \<Rightarrow> i | None \<Rightarrow> d)"

text \<open>\<^verbatim>\<open>_object_map\<close>: the entries that are objects; \<^verbatim>\<open>_objects\<close>: the items that are.\<close>

definition object_map :: "(string \<times> 'a field) list option \<Rightarrow> (string \<times> 'a field) list" where
  "object_map m = (case m of None \<Rightarrow> [] | Some kvs \<Rightarrow> filter (\<lambda>kv. snd kv \<noteq> NotObject) kvs)"

definition objects :: "'a field list \<Rightarrow> 'a field list" where
  "objects xs = filter (\<lambda>x. x \<noteq> NotObject) xs"

lemma object_map_None [simp]: "object_map None = []"
  by (simp add: object_map_def)

lemma object_map_id: "\<forall>kv\<in>set kvs. snd kv \<noteq> NotObject \<Longrightarrow> object_map (Some kvs) = kvs"
  by (simp add: object_map_def)

lemma object_map_objects: "kv \<in> set (object_map m) \<Longrightarrow> snd kv \<noteq> NotObject"
  by (auto simp: object_map_def split: option.splits)

lemma object_map_update [simp]:
  "v \<noteq> NotObject \<Longrightarrow>
     object_map (Some (AList.update k v (object_map m))) = AList.update k v (object_map m)"
  by (rule object_map_id) (use set_alist_update in \<open>fastforce dest: object_map_objects\<close>)

text \<open>The assumption under which a result about a compare-and-swap speaks of the row the operation
  read: other workers that leave the sequences of a row alone leave the row alone.\<close>

definition version_respecting ::
    "('s, 'p) projection_ops \<Rightarrow> ('s \<Rightarrow> bool) \<Rightarrow> ('s \<Rightarrow> 's) \<Rightarrow> bool" where
  "version_respecting ops invar env \<longleftrightarrow>
     (\<forall>s. invar s \<longrightarrow> invar (env s)) \<and>
     (\<forall>s ns k r r'. invar s \<longrightarrow> get_named_projection ops s ns k = Some r \<longrightarrow>
        get_named_projection ops (env s) ns k = Some r' \<longrightarrow>
        row_authoritative_seq r' = row_authoritative_seq r \<longrightarrow>
        row_materialized_seq r' = row_materialized_seq r \<longrightarrow> r' = r)"

lemma version_respecting_id [simp]: "version_respecting ops invar (\<lambda>s. s)"
  by (simp add: version_respecting_def)

lemma version_respecting_invar: "version_respecting ops invar env \<Longrightarrow> invar s \<Longrightarrow> invar (env s)"
  by (simp add: version_respecting_def)

lemma new_row_sel [simp]:
  "row_key (new_row k p a m) = k" "row_payload (new_row k p a m) = p"
  "row_authoritative_seq (new_row k p a m) = JInt a" "row_materialized_seq (new_row k p a m) = JInt m"
  by (simp_all add: new_row_def)

context projection_store
begin

text \<open>A compare-and-swap that expects the sequences it read, and wins, found the row it read.\<close>

lemma cas_found_same_row:
  assumes "invar s" "version_respecting ops invar env"
    and "get_named_projection ops s ns k = Some r"
    and "cas_expects (get_named_projection ops (env s) ns k)
           (Some (sequence_value (row_authoritative_seq r) d))
           (Some (sequence_value (row_materialized_seq r) d'))"
  shows "get_named_projection ops (env s) ns k = Some r"
proof -
  from row_seqs [OF assms(1,3)] obtain a m where
    "row_authoritative_seq r = JInt a" "row_materialized_seq r = JInt m" by blast
  with assms show ?thesis
    unfolding version_respecting_def cas_expects_def by (auto split: option.splits)
qed

end
text \<open>The store the parse components share: a projection store whose payloads are theirs.\<close>

locale parse_store = projection_store ops invar
  for ops :: "('s, payload) projection_ops" and invar :: "'s \<Rightarrow> bool"

interpretation parse_mem: parse_store mem_ops mem_invar
  by unfold_locales

end
