(* ===== verification/Parse_Generations.thy ===== *)
theory Parse_Generations
  imports Projection_Store
begin

text \<open>
  The generation store (parsing/parse\_generation\_store.py): immutable parse evidence, written in
  idempotent commits, with a monotone lifecycle status.
\<close>

section \<open>Definitions\<close>

type_synonym generation_record =
  "parse_generation \<times> parse_generation_commit list \<times> parse_generation_member list \<times> int"

definition generation_key :: "string \<Rightarrow> string" where
  "generation_key gid = ''parse_generation:'' @ gid"

definition commit_outside :: "string \<Rightarrow> parse_generation \<Rightarrow> parse_generation_commit \<Rightarrow> bool" where
  "commit_outside ws g c \<longleftrightarrow> pc_workspace_id c \<noteq> ws \<or> pc_generation_id c \<noteq> pg_generation_id g \<or>
     pc_source_document_id c \<noteq> pg_source_document_id g \<or>
     pc_source_revision_id c \<noteq> pg_source_revision_id g"

definition member_outside :: "string \<Rightarrow> parse_generation \<Rightarrow> parse_generation_member \<Rightarrow> bool" where
  "member_outside ws g m \<longleftrightarrow> pm_workspace_id m \<noteq> ws \<or> pm_generation_id m \<noteq> pg_generation_id g \<or>
     pm_source_document_id m \<noteq> pg_source_document_id g \<or>
     pm_source_revision_id m \<noteq> pg_source_revision_id g \<or>
     pm_revision_document_id m \<noteq> pg_revision_document_id g"

text \<open>What \<^verbatim>\<open>get\<close> decodes from a row, and \<^verbatim>\<open>get\<close> itself.\<close>

definition decode_generation ::
    "string \<Rightarrow> string \<Rightarrow> payload projection_row \<Rightarrow> generation_record result" where
  "decode_generation ws gid row = (case row_payload row of
       NotMapping \<Rightarrow> Inl (TypeError ''parse generation projection payload must be an object'')
     | Mapping p \<Rightarrow>
       res_bind (model_validate (\<lambda>_. None) (sp_generation p)) (\<lambda>g.
       check_then (raise_if (pg_workspace_id g \<noteq> ws \<or> pg_generation_id g \<noteq> gid)
         (ValueError ''parse generation workspace or identity does not match store''))
       (res_bind (map_res (model_validate validate_parse_generation_commit)
           (map snd (object_map (sp_commits p)))) (\<lambda>commits.
        res_bind (map_res (model_validate validate_parse_generation_member)
           (map snd (object_map (sp_members p)))) (\<lambda>members.
        check_then (checks
          [validate_generation_member_ancestry members Map.empty,
           first_error (\<lambda>c. raise_if (commit_outside ws g c)
             (ValueError ''stored parse generation commit is outside its generation'')) commits,
           first_error (\<lambda>m. raise_if (member_outside ws g m)
             (ValueError ''stored parse generation member is outside its generation'')) members,
           raise_if (\<not> (\<forall>c\<in>set commits. set (pc_member_ids c) \<subseteq> set (map pm_member_id members)))
             (ValueError ''stored parse generation commit references an unknown member'')])
        (Inr (g, commits, members, sequence_value (row_authoritative_seq row) 0)))))))"

definition generation_get ::
    "('s, payload) projection_ops \<Rightarrow> string \<Rightarrow> 's \<Rightarrow> string \<Rightarrow> generation_record option result" where
  "generation_get ops ws s gid =
     (case get_named_projection ops s (state_namespace ws) (generation_key gid) of
        None \<Rightarrow> Inr None
      | Some row \<Rightarrow> res_bind (decode_generation ws gid row) (\<lambda>d. Inr (Some d)))"

text \<open>One row of \<^verbatim>\<open>list_for_source\<close>, skipped or kept, and the listing, newest first.\<close>

definition generation_header_of ::
    "string \<Rightarrow> string \<Rightarrow> payload projection_row \<Rightarrow> (parse_generation \<times> int) list result" where
  "generation_header_of ws doc row =
     (if \<not> py_startswith (row_key row) ''parse_generation:'' then Inr []
      else case row_payload row of
        NotMapping \<Rightarrow> Inr []
      | Mapping p \<Rightarrow> res_bind (model_validate (\<lambda>_. None) (sp_generation p)) (\<lambda>g.
          if pg_workspace_id g = ws \<and> pg_source_document_id g = doc
          then Inr [(g, sequence_value (row_authoritative_seq row) 0)] else Inr []))"

definition generation_list_for_source ::
    "('s, payload) projection_ops \<Rightarrow> string \<Rightarrow> 's \<Rightarrow> string \<Rightarrow> (parse_generation \<times> int) list result" where
  "generation_list_for_source ops ws s doc =
     res_bind (map_res (generation_header_of ws doc)
         (list_named_projections ops s (state_namespace ws))) (\<lambda>found.
       Inr (rev (sort_key (\<lambda>h. (pg_created_at (fst h), pg_generation_id (fst h)))
         (rev (concat found)))))"

fun status_rank :: "parse_generation_status \<Rightarrow> nat" where
  "status_rank GenSeeded = 0"
| "status_rank GenExpanding = 1"
| "status_rank GenStable = 2"
| "status_rank GenFailed = 3"

definition validate_status_transition :: "parse_generation \<Rightarrow> parse_generation \<Rightarrow> check" where
  "validate_status_transition current new =
     (if pg_generation_id current \<noteq> pg_generation_id new
      then Some (ParseGenerationStoreConflict ''generation ID was reused with different evidence'')
      else if pg_status new = GenFailed then None
      else if pg_status current = GenFailed
      then Some (ParseGenerationStoreConflict ''failed generation cannot resume'')
      else raise_if (status_rank (pg_status new) < status_rank (pg_status current))
        (ParseGenerationStoreConflict ''generation lifecycle status cannot regress''))"

definition validate_batch ::
    "string \<Rightarrow> parse_generation \<Rightarrow> parse_generation_commit \<Rightarrow> parse_generation_member list \<Rightarrow> check" where
  "validate_batch ws g c ms = checks
     [raise_if (pg_workspace_id g \<noteq> ws \<or> pc_workspace_id c \<noteq> ws)
        (ValueError ''parse generation workspace does not match store workspace''),
      raise_if (pc_generation_id c \<noteq> pg_generation_id g)
        (ValueError ''generation commit does not match generation''),
      raise_if (pc_source_document_id c \<noteq> pg_source_document_id g \<or>
                pc_source_revision_id c \<noteq> pg_source_revision_id g)
        (ValueError ''generation commit source identity does not match generation''),
      raise_if (set (pc_member_ids c) \<noteq> set (map pm_member_id ms))
        (ValueError ''generation commit member IDs must match the member batch''),
      first_error (\<lambda>m. raise_if (member_outside ws g m)
        (ValueError ''generation member is outside the committed generation'')) ms]"

definition put_members ::
    "parse_generation_member list \<Rightarrow> (string \<times> parse_generation_member field) list \<Rightarrow>
     (string \<times> parse_generation_member field) list" where
  "put_members ms kvs = fold (\<lambda>m. AList.update (pm_member_id m) (Object m)) ms kvs"

text \<open>The header check of \<^verbatim>\<open>commit\<close> against the stored generation.\<close>

definition check_stored_header :: "parse_generation field \<Rightarrow> parse_generation \<Rightarrow> check" where
  "check_stored_header stored g =
     (if stored = Object g then None
      else if stored = NotObject
      then Some (ParseGenerationStoreConflict ''generation ID was reused with different evidence'')
      else case model_validate (\<lambda>_. None) stored of
        Inl e \<Rightarrow> Some e
      | Inr header \<Rightarrow> checks
          [validate_status_transition header g,
           raise_if (header\<lparr>pg_status := pg_status g\<rparr> \<noteq> g)
             (ParseGenerationStoreConflict ''generation ID was reused with different immutable evidence'')])"

text \<open>\<open>Replay v\<close>: the commit is already stored, at version \<open>v\<close>. \<open>Write p ea em v\<close>: the payload to
  write, the expected sequences and the next version.\<close>

datatype commit_plan =
    Replay int
  | Write stored_payload "int option" "int option" int

definition member_conflict :: check where
  "member_conflict = Some (ParseGenerationStoreConflict ''member ID was reused with different evidence'')"

definition plan_commit ::
    "payload projection_row option \<Rightarrow> parse_generation \<Rightarrow> parse_generation_commit \<Rightarrow>
     parse_generation_member list \<Rightarrow> commit_plan result" where
  "plan_commit row g c ms = (case row of
       None \<Rightarrow> Inr (Write (empty_payload\<lparr>sp_generation := Object g,
                 sp_commits := Some [(pc_commit_id c, Object c)],
                 sp_members := Some (put_members ms [])\<rparr>) None None 1)
     | Some r \<Rightarrow> (case row_payload r of
         NotMapping \<Rightarrow> Inl (TypeError ''parse generation projection payload must be an object'')
       | Mapping p \<Rightarrow>
         let commits = object_map (sp_commits p); members = object_map (sp_members p) in
         check_then (check_stored_header (sp_generation p) g)
         (case map_of commits (pc_commit_id c) of
            Some stored \<Rightarrow>
              if stored \<noteq> Object c
              then Inl (ParseGenerationStoreConflict ''commit ID was reused with different evidence'')
              else check_then (first_error (\<lambda>m.
                     if map_of members (pm_member_id m) \<noteq> Some (Object m) then member_conflict else None) ms)
                   (Inr (Replay (sequence_value (row_authoritative_seq r) 0)))
          | None \<Rightarrow>
              check_then (first_error (\<lambda>m.
                if map_of members (pm_member_id m) \<noteq> None \<and>
                   map_of members (pm_member_id m) \<noteq> Some (Object m) then member_conflict else None) ms)
              (Inr (Write (empty_payload\<lparr>sp_generation := Object g,
                     sp_commits := Some (AList.update (pc_commit_id c) (Object c) commits),
                     sp_members := Some (put_members ms members)\<rparr>)
                   (Some (sequence_value (row_authoritative_seq r) (-1)))
                   (Some (sequence_value (row_materialized_seq r) (-1)))
                   (sequence_value (row_authoritative_seq r) (-1) + 1))))))"

definition validate_written_members :: "stored_payload \<Rightarrow> check" where
  "validate_written_members p =
     (case map_res (model_validate validate_parse_generation_member)
         (map snd (case sp_members p of Some kvs \<Rightarrow> kvs | None \<Rightarrow> [])) of
        Inl e \<Rightarrow> Some e
      | Inr ms \<Rightarrow> validate_generation_member_ancestry ms Map.empty)"

definition generation_commit ::
    "('s, payload) projection_ops \<Rightarrow> ('s \<Rightarrow> 's) \<Rightarrow> string \<Rightarrow> 's \<Rightarrow> parse_generation \<Rightarrow>
     parse_generation_commit \<Rightarrow> parse_generation_member list \<Rightarrow> 's \<times> int result" where
  "generation_commit ops env ws s g c ms =
     (case validate_batch ws g c ms of
        Some e \<Rightarrow> (s, Inl e)
      | None \<Rightarrow>
        let ns = state_namespace ws; k = generation_key (pg_generation_id g) in
        (case plan_commit (get_named_projection ops s ns k) g c ms of
           Inl e \<Rightarrow> (s, Inl e)
         | Inr (Replay v) \<Rightarrow> (s, Inr v)
         | Inr (Write p ea em v) \<Rightarrow>
             (case validate_written_members p of
                Some e \<Rightarrow> (s, Inl e)
              | None \<Rightarrow>
                (case cas_named_projection ops (env s) ns k (Mapping p) ea em v v of
                   (s', True) \<Rightarrow> (s', Inr v)
                 | (s', False) \<Rightarrow>
                     (s', Inl (ParseGenerationStoreConflict ''generation commit lost a CAS race''))))))"


section \<open>Lemmas on the stored evidence\<close>

definition stored_payload_of ::
    "('s, payload) projection_ops \<Rightarrow> string \<Rightarrow> 's \<Rightarrow> string \<Rightarrow> stored_payload option" where
  "stored_payload_of ops ws s gid =
     (case get_named_projection ops s (state_namespace ws) (generation_key gid) of
        None \<Rightarrow> None
      | Some r \<Rightarrow> (case row_payload r of NotMapping \<Rightarrow> None | Mapping p \<Rightarrow> Some p))"

definition stored_members ::
    "('s, payload) projection_ops \<Rightarrow> string \<Rightarrow> 's \<Rightarrow> string \<Rightarrow> string \<rightharpoonup> parse_generation_member field" where
  "stored_members ops ws s gid =
     (case stored_payload_of ops ws s gid of None \<Rightarrow> Map.empty
      | Some p \<Rightarrow> map_of (object_map (sp_members p)))"

definition stored_commits ::
    "('s, payload) projection_ops \<Rightarrow> string \<Rightarrow> 's \<Rightarrow> string \<Rightarrow> string \<rightharpoonup> parse_generation_commit field" where
  "stored_commits ops ws s gid =
     (case stored_payload_of ops ws s gid of None \<Rightarrow> Map.empty
      | Some p \<Rightarrow> map_of (object_map (sp_commits p)))"

definition stored_header ::
    "('s, payload) projection_ops \<Rightarrow> string \<Rightarrow> 's \<Rightarrow> string \<Rightarrow> parse_generation option" where
  "stored_header ops ws s gid =
     (case stored_payload_of ops ws s gid of None \<Rightarrow> None
      | Some p \<Rightarrow> (case sp_generation p of Object h \<Rightarrow> Some h | _ \<Rightarrow> None))"

lemma put_members_simps [simp]:
  "put_members [] kvs = kvs"
  "put_members (m # ms) kvs = put_members ms (AList.update (pm_member_id m) (Object m) kvs)"
  by (simp_all add: put_members_def)

lemma put_members_other:
  "i \<notin> pm_member_id ` set ms \<Longrightarrow> map_of (put_members ms kvs) i = map_of kvs i"
  by (induction ms arbitrary: kvs) (auto simp: update_conv')

lemma put_members_stored:
  "distinct (map pm_member_id ms) \<Longrightarrow> m \<in> set ms \<Longrightarrow>
     map_of (put_members ms kvs) (pm_member_id m) = Some (Object m)"
  by (induction ms arbitrary: kvs) (auto simp: update_conv' put_members_other)

lemma put_members_keeps:
  "map_of kvs i = Some v \<Longrightarrow> \<forall>m\<in>set ms. pm_member_id m = i \<longrightarrow> v = Object m \<Longrightarrow>
     map_of (put_members ms kvs) i = Some v"
  by (induction ms arbitrary: kvs) (auto simp: update_conv')

lemma set_put_members:
  "set (put_members ms kvs) \<subseteq> set kvs \<union> (\<lambda>m. (pm_member_id m, Object m)) ` set ms"
proof (induction ms arbitrary: kvs)
  case (Cons m ms)
  from Cons [of "AList.update (pm_member_id m) (Object m) kvs"] show ?case
    using set_alist_update [of "pm_member_id m" "Object m" kvs] by auto
qed simp

lemma object_map_put_members [simp]:
  "object_map (Some (put_members ms (object_map kvs))) = put_members ms (object_map kvs)"
  by (rule object_map_id) (use set_put_members in \<open>fastforce dest: object_map_objects\<close>)

lemma object_map_put_members_Nil [simp]:
  "object_map (Some (put_members ms [])) = put_members ms []"
  using object_map_put_members [of ms None] by (simp add: object_map_def)


section \<open>What a successful commit did\<close>

text \<open>The payload a commit writes over the payload \<open>p\<close> (\<open>None\<close>: over no row).\<close>

definition committed_payload ::
    "stored_payload option \<Rightarrow> parse_generation \<Rightarrow> parse_generation_commit \<Rightarrow>
     parse_generation_member list \<Rightarrow> stored_payload" where
  "committed_payload p g c ms = empty_payload\<lparr>sp_generation := Object g,
     sp_commits := Some (AList.update (pc_commit_id c) (Object c)
       (case p of None \<Rightarrow> [] | Some p \<Rightarrow> object_map (sp_commits p))),
     sp_members := Some (put_members ms (case p of None \<Rightarrow> [] | Some p \<Rightarrow> object_map (sp_members p)))\<rparr>"

definition members_compatible ::
    "(string \<rightharpoonup> parse_generation_member field) \<Rightarrow> parse_generation_member list \<Rightarrow> bool" where
  "members_compatible stored ms \<longleftrightarrow> (\<forall>m\<in>set ms. \<forall>v. stored (pm_member_id m) = Some v \<longrightarrow> v = Object m)"

lemma plan_commit_Replay:
  "plan_commit row g c ms = Inr (Replay v) \<Longrightarrow>
     \<exists>r p. row = Some r \<and> row_payload r = Mapping p \<and> check_stored_header (sp_generation p) g = None \<and>
       map_of (object_map (sp_commits p)) (pc_commit_id c) = Some (Object c) \<and>
       (\<forall>m\<in>set ms. map_of (object_map (sp_members p)) (pm_member_id m) = Some (Object m)) \<and>
       v = sequence_value (row_authoritative_seq r) 0"
  by (auto simp: plan_commit_def Let_def member_conflict_def split: option.splits payload.splits if_splits)

lemma plan_commit_Write:
  "plan_commit row g c ms = Inr (Write q ea em v) \<Longrightarrow>
     (row = None \<and> q = committed_payload None g c ms \<and> ea = None \<and> em = None \<and> v = 1) \<or>
     (\<exists>r p. row = Some r \<and> row_payload r = Mapping p \<and> check_stored_header (sp_generation p) g = None \<and>
       map_of (object_map (sp_commits p)) (pc_commit_id c) = None \<and>
       members_compatible (map_of (object_map (sp_members p))) ms \<and>
       q = committed_payload (Some p) g c ms \<and>
       ea = Some (sequence_value (row_authoritative_seq r) (-1)) \<and>
       em = Some (sequence_value (row_materialized_seq r) (-1)) \<and>
       v = sequence_value (row_authoritative_seq r) (-1) + 1)"
  by (auto simp: plan_commit_def Let_def member_conflict_def committed_payload_def
      members_compatible_def split: option.splits payload.splits if_splits)

text \<open>\<open>commit_effect\<close>: the commit changed nothing because it was stored already, or it wrote
  \<open>committed_payload\<close> over the row it read.\<close>

definition commit_effect ::
    "('s, payload) projection_ops \<Rightarrow> string \<Rightarrow> 's \<Rightarrow> 's \<Rightarrow> parse_generation \<Rightarrow>
     parse_generation_commit \<Rightarrow> parse_generation_member list \<Rightarrow> int \<Rightarrow> bool" where
  "commit_effect ops ws s s' g c ms v \<longleftrightarrow>
     (let p = stored_payload_of ops ws s (pg_generation_id g);
          k = generation_key (pg_generation_id g) in
      (s' = s \<and> (\<exists>r q. get_named_projection ops s (state_namespace ws) k = Some r \<and>
           row_payload r = Mapping q \<and> check_stored_header (sp_generation q) g = None \<and>
           map_of (object_map (sp_commits q)) (pc_commit_id c) = Some (Object c) \<and>
           (\<forall>m\<in>set ms. map_of (object_map (sp_members q)) (pm_member_id m) = Some (Object m)) \<and>
           v = sequence_value (row_authoritative_seq r) 0)) \<or>
      (get_named_projection ops s' (state_namespace ws) k =
         Some (new_row k (Mapping (committed_payload p g c ms)) v v) \<and>
       validate_written_members (committed_payload p g c ms) = None \<and>
       (case p of None \<Rightarrow> get_named_projection ops s (state_namespace ws) k = None
        | Some q \<Rightarrow> check_stored_header (sp_generation q) g = None \<and>
            map_of (object_map (sp_commits q)) (pc_commit_id c) = None \<and>
            members_compatible (map_of (object_map (sp_members q))) ms)))"

context parse_store
begin

lemma commit_success_effect:
  assumes "invar s" "version_respecting ops invar env"
    "generation_commit ops env ws s g c ms = (s', Inr v)"
  shows "commit_effect ops ws s s' g c ms v \<and> validate_batch ws g c ms = None"
proof -
  let ?ns = "state_namespace ws" and ?k = "generation_key (pg_generation_id g)"
  have b: "validate_batch ws g c ms = None"
    using assms(3) by (auto simp: generation_commit_def split: option.splits)
  obtain pl where pl: "plan_commit (get_named_projection ops s ?ns ?k) g c ms = Inr pl"
    using assms(3) b by (auto simp: generation_commit_def Let_def split: sum.splits)
  show ?thesis
  proof (cases pl)
    case (Replay w)
    then show ?thesis
      using assms(3) b pl plan_commit_Replay [OF pl [unfolded Replay]]
      by (auto simp: generation_commit_def commit_effect_def Let_def)
  next
    case (Write q ea em w)
    with assms(3) b pl have cas: "cas_named_projection ops (env s) ?ns ?k (Mapping q) ea em v v = (s', True)"
      and w: "w = v" and vw: "validate_written_members q = None"
      by (auto simp: generation_commit_def Let_def split: option.splits prod.splits bool.splits)
    have row: "get_named_projection ops s' ?ns ?k = Some (new_row ?k (Mapping q) v v)"
      using cas_swapped(2) assms cas version_respecting_invar by metis
    show ?thesis
      using plan_commit_Write [OF pl [unfolded Write]] b row vw w
      by (auto simp: commit_effect_def stored_payload_of_def Let_def)
  qed
qed

end

lemma validated_batch [check_simps]:
  assumes "validate_batch ws g c ms = None"
  shows "pg_workspace_id g = ws" "\<not> commit_outside ws g c" "\<forall>m\<in>set ms. \<not> member_outside ws g m"
    "set (pc_member_ids c) = pm_member_id ` set ms"
  using assms by (auto simp: validate_batch_def commit_outside_def)

lemma committed_payload_sel [simp]:
  "sp_generation (committed_payload p g c ms) = Object g"
  "object_map (sp_commits (committed_payload p g c ms)) =
     AList.update (pc_commit_id c) (Object c) (case p of None \<Rightarrow> [] | Some p \<Rightarrow> object_map (sp_commits p))"
  "object_map (sp_members (committed_payload p g c ms)) =
     put_members ms (case p of None \<Rightarrow> [] | Some p \<Rightarrow> object_map (sp_members p))"
  by (cases p; use object_map_update [of "Object c" "pc_commit_id c" None] in
      \<open>simp add: committed_payload_def\<close>)+

lemma stored_of_row:
  assumes "get_named_projection ops s (state_namespace ws) (generation_key gid) = Some r"
    "row_payload r = Mapping p"
  shows "stored_payload_of ops ws s gid = Some p"
    "stored_members ops ws s gid = map_of (object_map (sp_members p))"
    "stored_commits ops ws s gid = map_of (object_map (sp_commits p))"
    "stored_header ops ws s gid = (case sp_generation p of Object h \<Rightarrow> Some h | _ \<Rightarrow> None)"
  using assms by (simp_all add: stored_payload_of_def stored_members_def stored_commits_def stored_header_def)

lemma commit_effect_keeps:
  assumes "commit_effect ops ws s s' g c ms v"
  shows "stored_members ops ws s (pg_generation_id g) \<subseteq>\<^sub>m stored_members ops ws s' (pg_generation_id g)"
    and "stored_commits ops ws s (pg_generation_id g) \<subseteq>\<^sub>m stored_commits ops ws s' (pg_generation_id g)"
    and "stored_commits ops ws s' (pg_generation_id g) (pc_commit_id c) = Some (Object c)"
    and "distinct (map pm_member_id ms) \<Longrightarrow> m \<in> set ms \<Longrightarrow>
      stored_members ops ws s' (pg_generation_id g) (pm_member_id m) = Some (Object m)"
proof -
  let ?gid = "pg_generation_id g"
  let ?p = "stored_payload_of ops ws s ?gid"
  have old: "stored_members ops ws s ?gid =
      map_of (case ?p of None \<Rightarrow> [] | Some p \<Rightarrow> object_map (sp_members p))"
    "stored_commits ops ws s ?gid =
      map_of (case ?p of None \<Rightarrow> [] | Some p \<Rightarrow> object_map (sp_commits p))"
    by (simp_all add: stored_members_def stored_commits_def split: option.split)
  have new: "stored_members ops ws s' ?gid = map_of (put_members ms
        (case ?p of None \<Rightarrow> [] | Some p \<Rightarrow> object_map (sp_members p)))"
    "stored_commits ops ws s' ?gid = (stored_commits ops ws s ?gid)(pc_commit_id c \<mapsto> Object c)"
    "members_compatible (stored_members ops ws s ?gid) ms" "stored_commits ops ws s ?gid (pc_commit_id c) = None"
    if "s' \<noteq> s \<or> stored_commits ops ws s ?gid (pc_commit_id c) = None"
    using assms that
    by (auto simp: commit_effect_def Let_def stored_of_row old update_conv' members_compatible_def
        split: option.splits)
  show "stored_members ops ws s ?gid \<subseteq>\<^sub>m stored_members ops ws s' ?gid"
    using new by (cases "s' = s") (auto simp: map_le_def members_compatible_def old
        intro!: put_members_keeps [symmetric])
  show "stored_commits ops ws s ?gid \<subseteq>\<^sub>m stored_commits ops ws s' ?gid"
    using new by (cases "s' = s") (auto simp: map_le_def)
  show "stored_commits ops ws s' ?gid (pc_commit_id c) = Some (Object c)"
    using assms by (auto simp: commit_effect_def Let_def stored_of_row(3) update_conv')
  show "distinct (map pm_member_id ms) \<Longrightarrow> m \<in> set ms \<Longrightarrow>
      stored_members ops ws s' ?gid (pm_member_id m) = Some (Object m)"
    using assms by (auto simp: commit_effect_def Let_def stored_of_row(2) put_members_stored)
qed

text \<open>C4: a commit that succeeds stores its commit event and every member of its batch, and every
  commit event and member that was stored before keeps its content: no evidence is ever replaced or
  removed, whatever other workers did between the read and the compare-and-swap.\<close>

theorem generation_commit_keeps_evidence:
  assumes "parse_store ops invar" "invar s" "version_respecting ops invar env"
    and "generation_commit ops env ws s g c ms = (s', Inr v)"
  shows "stored_members ops ws s (pg_generation_id g) \<subseteq>\<^sub>m stored_members ops ws s' (pg_generation_id g) \<and>
    stored_commits ops ws s (pg_generation_id g) \<subseteq>\<^sub>m stored_commits ops ws s' (pg_generation_id g) \<and>
    stored_commits ops ws s' (pg_generation_id g) (pc_commit_id c) = Some (Object c) \<and>
    (distinct (map pm_member_id ms) \<longrightarrow> (\<forall>m\<in>set ms.
       stored_members ops ws s' (pg_generation_id g) (pm_member_id m) = Some (Object m)))"
proof -
  have "commit_effect ops ws s s' g c ms v"
    using parse_store.commit_success_effect [OF assms] by simp
  from commit_effect_keeps [OF this] show ?thesis by simp
qed

definition example_generation :: "parse_generation_status \<Rightarrow> parse_generation" where
  "example_generation st = \<lparr>pg_generation_id = ''g'', pg_workspace_id = ''w'',
     pg_source_document_id = ''d'', pg_source_revision_id = ''r'', pg_source_digest = ''h'',
     pg_revision_document_id = ''rd'', pg_parser_profile = ''p'', pg_parser_version = ''1'',
     pg_llm_provider = None, pg_llm_model = None, pg_model_version = None, pg_prompt_version = None,
     pg_parent_generation_id = None, pg_maintenance_run_id = None, pg_status = st, pg_created_at = 0\<rparr>"

definition example_commit :: "string \<Rightarrow> string list \<Rightarrow> parse_generation_commit" where
  "example_commit i ids = \<lparr>pc_commit_id = i, pc_generation_id = ''g'', pc_workspace_id = ''w'',
     pc_source_document_id = ''d'', pc_source_revision_id = ''r'', pc_member_ids = ids,
     pc_consumed_frontier_ids = [], pc_attempt = 1, pc_committed_at = 0\<rparr>"

definition example_store :: "payload mem_store" where
  "example_store = fst (generation_commit mem_ops (\<lambda>s. s) ''w'' [] (example_generation GenSeeded)
     (example_commit ''c1'' [''a'']) [example_member ''a'' None 0 9])"

lemma example_commit_ok:
  "generation_commit mem_ops (\<lambda>s. s) ''w'' [] (example_generation GenSeeded)
     (example_commit ''c1'' [''a'']) [example_member ''a'' None 0 9] = (example_store, Inr 1)"
proof -
  have "snd (generation_commit mem_ops (\<lambda>s. s) ''w'' [] (example_generation GenSeeded)
     (example_commit ''c1'' [''a'']) [example_member ''a'' None 0 9]) = Inr 1"
    by code_simp
  then show ?thesis by (simp add: example_store_def prod_eq_iff)
qed

theorem generation_commit_keeps_evidence_witness:
  "stored_commits mem_ops ''w'' example_store ''g'' ''c1'' = Some (Object (example_commit ''c1'' [''a'']))"
  using generation_commit_keeps_evidence [OF parse_mem.parse_store_axioms mem_invar_Nil
      version_respecting_id example_commit_ok]
  by (simp add: example_generation_def example_commit_def)

lemma check_stored_header_same [simp]: "check_stored_header (Object g) g = None"
  by (simp add: check_stored_header_def)

text \<open>Retrying a commit that succeeded is idempotent: it returns the same version and leaves the
  store as it is, whatever other workers do meanwhile. The batch must not name a member twice: two
  different members with one identifier pass the batch check and would be refused on the retry.\<close>

theorem generation_commit_idempotent:
  assumes "parse_store ops invar" "invar s" "version_respecting ops invar env"
    and "generation_commit ops env ws s g c ms = (s', Inr v)"
    and "distinct (map pm_member_id ms)"
  shows "generation_commit ops env' ws s' g c ms = (s', Inr v)"
proof -
  let ?k = "generation_key (pg_generation_id g)" and ?ns = "state_namespace ws"
  from parse_store.commit_success_effect [OF assms(1-4)]
  have e: "commit_effect ops ws s s' g c ms v" and b: "validate_batch ws g c ms = None" by auto
  have "plan_commit (get_named_projection ops s' ?ns ?k) g c ms = Inr (Replay v)"
    using e put_members_stored [OF assms(5)]
    by (auto simp: commit_effect_def Let_def plan_commit_def member_conflict_def update_conv')
  with b show ?thesis by (simp add: generation_commit_def Let_def)
qed

theorem generation_commit_idempotent_witness:
  "generation_commit mem_ops (\<lambda>s. []) ''w'' example_store (example_generation GenSeeded)
     (example_commit ''c1'' [''a'']) [example_member ''a'' None 0 9] = (example_store, Inr 1)"
  by (rule generation_commit_idempotent [OF parse_mem.parse_store_axioms mem_invar_Nil
      version_respecting_id example_commit_ok]) simp

section \<open>The lifecycle of a generation\<close>

definition advances :: "parse_generation \<Rightarrow> parse_generation \<Rightarrow> bool" where
  "advances h g \<longleftrightarrow> h\<lparr>pg_status := pg_status g\<rparr> = g \<and>
     status_rank (pg_status h) \<le> status_rank (pg_status g)"

lemma advances_refl [simp]: "advances h h"
  by (simp add: advances_def)

lemma advances_trans: "advances h g \<Longrightarrow> advances g f \<Longrightarrow> advances h f"
  by (cases h, cases g, cases f) (auto simp: advances_def)

lemma check_stored_header_advances:
  "check_stored_header (Object h) g = None \<Longrightarrow> advances h g"
  by (cases "pg_status h"; cases "pg_status g")
    (auto simp: check_stored_header_def model_validate_def validate_status_transition_def
      advances_def split: if_splits)


lemma generation_key_inject [simp]: "generation_key a = generation_key b \<longleftrightarrow> a = b"
  by (simp add: generation_key_def)

lemma stored_header_row_cong:
  "get_named_projection ops s (state_namespace ws) (generation_key gid) =
   get_named_projection ops t (state_namespace ws) (generation_key gid) \<Longrightarrow>
     stored_header ops ws s gid = stored_header ops ws t gid"
  by (simp add: stored_header_def stored_payload_of_def)

lemma commit_effect_header:
  assumes "commit_effect ops ws s s' g c ms v" "stored_header ops ws s (pg_generation_id g) = Some h"
  shows "\<exists>h'. stored_header ops ws s' (pg_generation_id g) = Some h' \<and> advances h h'"
proof (cases "s' = s")
  case False
  then have new: "stored_header ops ws s' (pg_generation_id g) = Some g"
    using assms(1) by (auto simp: commit_effect_def Let_def stored_of_row(4))
  have "advances h g"
    using assms False check_stored_header_advances
    by (auto simp: commit_effect_def Let_def stored_header_def split: option.splits field.splits)
  with new show ?thesis by simp
qed (use assms in auto)

text \<open>A run: commits of any workers, one after another or with the compare-and-swap of one after
  whole runs of the others.\<close>

inductive commit_run ::
    "('s, payload) projection_ops \<Rightarrow> ('s \<Rightarrow> bool) \<Rightarrow> string \<Rightarrow> 's \<Rightarrow> 's \<Rightarrow> bool"
  for ops invar ws where
  run_start: "commit_run ops invar ws s s"
| run_commit: "commit_run ops invar ws s t \<Longrightarrow> version_respecting ops invar env \<Longrightarrow>
     commit_run ops invar ws t (env t) \<Longrightarrow> generation_commit ops env ws t g c ms = (u, r) \<Longrightarrow>
     commit_run ops invar ws s u"

context parse_store
begin

lemma commit_outcome:
  assumes "invar s" "version_respecting ops invar env" "generation_commit ops env ws s g c ms = (u, r)"
  shows "invar u \<and> (u = s \<or> u = env s \<or> (\<exists>v. r = Inr v \<and> (\<forall>gid. gid \<noteq> pg_generation_id g \<longrightarrow>
     stored_header ops ws u gid = stored_header ops ws (env s) gid)))"
proof -
  have i: "invar (env s)" using assms version_respecting_invar by metis
  consider "u = s" | p ea em v b where
      "cas_named_projection ops (env s) (state_namespace ws) (generation_key (pg_generation_id g))
         (Mapping p) ea em v v = (u, b)" "b \<longrightarrow> r = Inr v"
    using assms(3) by (auto simp: generation_commit_def Let_def
        split: option.splits sum.splits commit_plan.splits prod.splits bool.splits)
  then show ?thesis
  proof cases
    case 1
    with assms show ?thesis by simp
  next
    case (2 p ea em v b)
    show ?thesis
    proof (cases b)
      case True
      with 2(1) have "cas_named_projection ops (env s) (state_namespace ws)
        (generation_key (pg_generation_id g)) (Mapping p) ea em v v = (u, True)" by simp
      note sw = cas_swapped [OF i this]
      show ?thesis
        using sw(4) 2(2) True by (auto intro!: stored_header_row_cong sw(3))
    next
      case False
      with 2(1) have "u = env s" using cas_refused(2) [OF i] by simp
      with i show ?thesis by simp
    qed
  qed
qed

lemma commit_run_headers:
  assumes "commit_run ops invar ws s u" "invar s"
  shows "invar u \<and> (\<forall>gid h. stored_header ops ws s gid = Some h \<longrightarrow>
    (\<exists>h'. stored_header ops ws u gid = Some h' \<and> advances h h'))"
  using assms
proof (induction rule: commit_run.induct)
  case (run_start s)
  then show ?case by auto
next
  case (run_commit s t env g c ms u r)
  then have t: "invar t" by simp
  note out = commit_outcome [OF t run_commit.hyps(2,4)]
  have "\<exists>h'. stored_header ops ws u gid = Some h' \<and> advances h h'"
    if h: "stored_header ops ws s gid = Some h" for gid h
  proof -
    obtain h1 where h1: "stored_header ops ws t gid = Some h1" "advances h h1"
      using run_commit.IH(1) run_commit.prems h by blast
    obtain h2 where h2: "stored_header ops ws (env t) gid = Some h2" "advances h h2"
      using run_commit.IH(2) t h1 advances_trans by blast
    show ?thesis
    proof (cases "u = t \<or> u = env t \<or> gid \<noteq> pg_generation_id g")
      case True
      then show ?thesis using h1 h2 out by (metis (full_types))
    next
      case False
      then obtain v where "r = Inr v" and g: "gid = pg_generation_id g" using out by blast
      with commit_success_effect [OF t run_commit.hyps(2)] run_commit.hyps(4)
      have "commit_effect ops ws t u g c ms v" by blast
      from commit_effect_header [OF this] h1 g show ?thesis using advances_trans by blast
    qed
  qed
  with out show ?case by blast
qed

end

text \<open>C12: along every run of commits, by any number of workers in any interleaving, a stored
  generation keeps every field of its header but the status, and the status only moves forward in the
  order seeded, expanding, stable, failed: a failed generation never resumes.\<close>

theorem generation_lifecycle_monotone:
  assumes "parse_store ops invar" "invar s" "commit_run ops invar ws s u"
    and "stored_header ops ws s gid = Some h"
  shows "\<exists>h'. stored_header ops ws u gid = Some h' \<and> h\<lparr>pg_status := pg_status h'\<rparr> = h' \<and>
    status_rank (pg_status h) \<le> status_rank (pg_status h') \<and>
    (pg_status h = GenFailed \<longrightarrow> pg_status h' = GenFailed)"
proof -
  obtain h' where h': "stored_header ops ws u gid = Some h'" "advances h h'"
    using parse_store.commit_run_headers [OF assms(1,3,2)] assms(4) by blast
  moreover have "pg_status h = GenFailed \<Longrightarrow> pg_status h' = GenFailed"
    using h'(2) by (cases "pg_status h'") (auto simp: advances_def)
  ultimately show ?thesis by (auto simp: advances_def)
qed

lemma example_run:
  "commit_run mem_ops mem_invar ''w'' example_store
     (fst (generation_commit mem_ops (\<lambda>s. s) ''w'' example_store (example_generation GenStable)
        (example_commit ''c2'' [''b'']) [example_member ''b'' (Some ''a'') 2 4]))"
  by (rule run_commit [OF run_start version_respecting_id run_start]) (rule prod.collapse [symmetric])

lemma example_store_header:
  "stored_header mem_ops ''w'' example_store ''g'' = Some (example_generation GenSeeded)"
  by code_simp

lemma example_store_invar: "mem_invar example_store"
  using parse_mem.commit_outcome [OF mem_invar_Nil version_respecting_id example_commit_ok] by simp

theorem generation_lifecycle_monotone_witness:
  "\<exists>h'. stored_header mem_ops ''w'' (fst (generation_commit mem_ops (\<lambda>s. s) ''w'' example_store
        (example_generation GenStable) (example_commit ''c2'' [''b''])
        [example_member ''b'' (Some ''a'') 2 4])) ''g'' = Some h' \<and>
     0 \<le> status_rank (pg_status h')"
  using generation_lifecycle_monotone [OF parse_mem.parse_store_axioms example_store_invar example_run
      example_store_header] by auto


section \<open>A commit can be read back\<close>

definition generation_readable ::
    "string \<Rightarrow> string \<Rightarrow> payload projection_row \<Rightarrow> parse_generation \<Rightarrow> parse_generation_commit list \<Rightarrow>
     parse_generation_member list \<Rightarrow> bool" where
  "generation_readable ws gid row g cs ms \<longleftrightarrow> (\<exists>p. row_payload row = Mapping p \<and>
     sp_generation p = Object g \<and> pg_workspace_id g = ws \<and> pg_generation_id g = gid \<and>
     map snd (object_map (sp_commits p)) = map Object cs \<and>
     map snd (object_map (sp_members p)) = map Object ms \<and>
     (\<forall>c\<in>set cs. validate_parse_generation_commit c = None \<and> \<not> commit_outside ws g c \<and>
        set (pc_member_ids c) \<subseteq> pm_member_id ` set ms) \<and>
     (\<forall>m\<in>set ms. validate_parse_generation_member m = None \<and> \<not> member_outside ws g m) \<and>
     validate_generation_member_ancestry ms Map.empty = None)"

lemma decode_generation_Inr:
  "decode_generation ws gid row = Inr (g, cs, ms, v) \<longleftrightarrow>
     generation_readable ws gid row g cs ms \<and> v = sequence_value (row_authoritative_seq row) 0"
  by (auto simp: decode_generation_def generation_readable_def map_res_model_validate
      split: payload.splits)

lemma put_members_extends:
  "distinct (map pm_member_id ms) \<Longrightarrow> members_compatible (map_of kvs) ms \<Longrightarrow>
     set (put_members ms kvs) = set kvs \<union> (\<lambda>m. (pm_member_id m, Object m)) ` set ms"
proof (induction ms arbitrary: kvs)
  case (Cons m ms)
  let ?kvs = "AList.update (pm_member_id m) (Object m) kvs"
  have s: "set ?kvs = insert (pm_member_id m, Object m) (set kvs)"
  proof (cases "map_of kvs (pm_member_id m)")
    case None
    then show ?thesis by (simp add: alist_update_fresh)
  next
    case (Some v)
    then have v: "map_of kvs (pm_member_id m) = Some (Object m)"
      using Cons.prems(2) by (simp add: members_compatible_def)
    then show ?thesis by (simp add: update_triv map_of_SomeD insert_absorb)
  qed
  have "members_compatible (map_of ?kvs) ms"
    using Cons.prems by (auto simp: members_compatible_def update_conv' image_iff)
  then show ?case using Cons.IH [of ?kvs] Cons.prems(1) s by simp
qed simp

lemma stored_header_identity:
  assumes "check_stored_header (Object h) g = None"
  shows "commit_outside ws h = commit_outside ws g" "member_outside ws h = member_outside ws g"
    "pg_workspace_id h = pg_workspace_id g" "h\<lparr>pg_status := pg_status g\<rparr> = g"
  using check_stored_header_advances [OF assms]
  by (cases h, cases g, auto simp: advances_def commit_outside_def member_outside_def fun_eq_iff)+

lemma map_snd_Objects: "\<forall>f\<in>snd ` set kvs. \<exists>x. f = Object x \<Longrightarrow> \<exists>xs. map snd kvs = map Object xs"
  by (auto simp: ex_map_conv)

text \<open>One write over a readable row (or over none) is readable.\<close>

lemma committed_payload_readable:
  assumes b: "validate_batch ws g c ms = None" and d: "distinct (map pm_member_id ms)"
    and c: "validate_parse_generation_commit c = None"
    and w: "validate_written_members (committed_payload p g c ms) = None"
    and row: "row_payload row = Mapping (committed_payload p g c ms)"
    and fresh: "map_of (case p of None \<Rightarrow> [] | Some p \<Rightarrow> object_map (sp_commits p)) (pc_commit_id c) = None"
    and compat: "members_compatible (map_of (case p of None \<Rightarrow> [] | Some p \<Rightarrow> object_map (sp_members p))) ms"
    and old: "map snd (case p of None \<Rightarrow> [] | Some p \<Rightarrow> object_map (sp_commits p)) = map Object cs0"
      "map snd (case p of None \<Rightarrow> [] | Some p \<Rightarrow> object_map (sp_members p)) = map Object ms0"
      "\<forall>c\<in>set cs0. validate_parse_generation_commit c = None \<and> \<not> commit_outside ws g c \<and>
        set (pc_member_ids c) \<subseteq> pm_member_id ` set ms0"
      "\<forall>m\<in>set ms0. \<not> member_outside ws g m"
  shows "\<exists>ms1. generation_readable ws (pg_generation_id g) row g (cs0 @ [c]) ms1 \<and>
     set ms1 = set ms0 \<union> set ms"
proof -
  let ?q = "committed_payload p g c ms"
  from w obtain ms1 where ms1: "map snd (object_map (sp_members ?q)) = map Object ms1"
    "\<forall>m\<in>set ms1. validate_parse_generation_member m = None"
    "validate_generation_member_ancestry ms1 Map.empty = None"
    by (auto simp: validate_written_members_def map_res_model_validate committed_payload_def
        object_map_id split: sum.splits option.splits)
  have "Object ` set ms1 = Object ` set ms0 \<union> Object ` set ms"
    using arg_cong [OF ms1(1), of set] arg_cong [OF old(2), of set] put_members_extends [OF d compat]
    by (simp add: image_Un image_image)
  then have s: "set ms1 = set ms0 \<union> set ms" by (metis field.inject image_Un inj_image_eq_iff inj_on_def)
  have "map snd (object_map (sp_commits ?q)) = map Object (cs0 @ [c])"
    using old(1) by (simp add: alist_update_fresh [OF fresh])
  moreover have "\<forall>c'\<in>set (cs0 @ [c]). set (pc_member_ids c') \<subseteq> pm_member_id ` set ms1"
    using old(3) validated_batch(4) [OF b] by (auto simp: s image_Un)
  ultimately have "generation_readable ws (pg_generation_id g) row g (cs0 @ [c]) ms1"
    unfolding generation_readable_def using validated_batch [OF b] ms1 old c row s
    by (intro exI [of _ ?q]) auto
  with s show ?thesis by blast
qed

definition reads_back ::
    "('s, payload) projection_ops \<Rightarrow> string \<Rightarrow> 's \<Rightarrow> parse_generation \<Rightarrow> parse_generation_commit \<Rightarrow>
     parse_generation_member list \<Rightarrow> int \<Rightarrow> generation_record option \<Rightarrow> bool" where
  "reads_back ops ws s' g c ms v prev \<longleftrightarrow>
     (\<exists>h cs members. generation_get ops ws s' (pg_generation_id g) = Inr (Some (h, cs, members, v)) \<and>
       h\<lparr>pg_status := pg_status g\<rparr> = g \<and> c \<in> set cs \<and> set ms \<subseteq> set members \<and>
       (\<forall>h0 cs0 ms0 v0. prev = Some (h0, cs0, ms0, v0) \<longrightarrow> set cs0 \<subseteq> set cs \<and> set ms0 \<subseteq> set members))"

lemma reads_back_fresh:
  assumes e: "commit_effect ops ws s s' g c ms v" and b: "validate_batch ws g c ms = None"
    and c: "validate_parse_generation_commit c = None" and d: "distinct (map pm_member_id ms)"
    and row: "get_named_projection ops s (state_namespace ws) (generation_key (pg_generation_id g)) = None"
  shows "reads_back ops ws s' g c ms v None"
proof -
  let ?k = "generation_key (pg_generation_id g)"
  let ?row = "new_row ?k (Mapping (committed_payload None g c ms)) v v"
  have p: "stored_payload_of ops ws s (pg_generation_id g) = None"
    using row by (simp add: stored_payload_of_def)
  have "validate_written_members (committed_payload None g c ms) = None"
    "get_named_projection ops s' (state_namespace ws) ?k = Some ?row"
    using e row p by (auto simp: commit_effect_def Let_def)
  moreover from this(1) obtain ms1 where
    "generation_readable ws (pg_generation_id g) ?row g [c] ms1" "set ms1 = set ms"
    using committed_payload_readable [OF b d c, of None ?row "[]" "[]"]
    by (auto simp: members_compatible_def)
  ultimately show ?thesis
    unfolding reads_back_def
    by (intro exI [of _ g] exI [of _ "[c]"] exI [of _ ms1])
      (simp add: generation_get_def decode_generation_Inr)
qed

lemma reads_back_extend:
  assumes e: "commit_effect ops ws s s' g c ms v" and b: "validate_batch ws g c ms = None"
    and c: "validate_parse_generation_commit c = None" and d: "distinct (map pm_member_id ms)"
    and row: "get_named_projection ops s (state_namespace ws) (generation_key (pg_generation_id g)) = Some r"
    and rd: "generation_readable ws (pg_generation_id g) r h0 cs0 ms0"
    and p: "row_payload r = Mapping p" and new: "map_of (object_map (sp_commits p)) (pc_commit_id c) = None"
  shows "reads_back ops ws s' g c ms v (Some (h0, cs0, ms0, v0))"
proof -
  let ?k = "generation_key (pg_generation_id g)"
  let ?row = "new_row ?k (Mapping (committed_payload (Some p) g c ms)) v v"
  have sp: "stored_payload_of ops ws s (pg_generation_id g) = Some p" using row p by (rule stored_of_row(1))
  have w: "validate_written_members (committed_payload (Some p) g c ms) = None"
    and n: "get_named_projection ops s' (state_namespace ws) ?k = Some ?row"
    and k: "check_stored_header (sp_generation p) g = None"
      "members_compatible (map_of (object_map (sp_members p))) ms"
    using e row p sp new by (auto simp: commit_effect_def Let_def)
  have hdr: "check_stored_header (Object h0) g = None"
    using rd p k(1) by (auto simp: generation_readable_def)
  obtain ms1 where "generation_readable ws (pg_generation_id g) ?row g (cs0 @ [c]) ms1"
    "set ms1 = set ms0 \<union> set ms"
    using committed_payload_readable [OF b d c w, of ?row cs0 ms0] new k(2) rd p
      stored_header_identity(1,2) [OF hdr, of ws]
    by (fastforce simp: generation_readable_def)
  with n show ?thesis
    unfolding reads_back_def
    by (intro exI [of _ g] exI [of _ "cs0 @ [c]"] exI [of _ ms1])
      (auto simp: generation_get_def decode_generation_Inr)
qed

lemma reads_back_replay:
  assumes e: "commit_effect ops ws s s' g c ms v"
    and row: "get_named_projection ops s (state_namespace ws) (generation_key (pg_generation_id g)) = Some r"
    and rd: "generation_readable ws (pg_generation_id g) r h0 cs0 ms0"
    and p: "row_payload r = Mapping p" and old: "map_of (object_map (sp_commits p)) (pc_commit_id c) \<noteq> None"
  shows "reads_back ops ws s' g c ms v (Some (h0, cs0, ms0, v0))"
proof -
  have sp: "stored_payload_of ops ws s (pg_generation_id g) = Some p" using row p by (rule stored_of_row(1))
  have r: "s' = s" "map_of (object_map (sp_commits p)) (pc_commit_id c) = Some (Object c)"
    "v = sequence_value (row_authoritative_seq r) 0" "check_stored_header (sp_generation p) g = None"
    "\<forall>m\<in>set ms. map_of (object_map (sp_members p)) (pm_member_id m) = Some (Object m)"
    using e row p sp old by (auto simp: commit_effect_def Let_def)
  have q: "sp_generation p = Object h0" "map snd (object_map (sp_commits p)) = map Object cs0"
    "map snd (object_map (sp_members p)) = map Object ms0"
    using rd p by (auto simp: generation_readable_def)
  have "Object c \<in> set (map Object cs0)" "\<forall>m\<in>set ms. Object m \<in> set (map Object ms0)"
    using r q(2,3) [symmetric] by (force dest: map_of_SomeD)+
  moreover have "h0\<lparr>pg_status := pg_status g\<rparr> = g" using stored_header_identity(4) r(4) q(1) by simp
  ultimately show ?thesis
    using row rd r by (auto simp: reads_back_def generation_get_def decode_generation_Inr)
qed

text \<open>the store stays readable: after a commit on a generation that could be read (or was not
  stored yet), reading it succeeds, returns the version the commit returned, the committed header up
  to its status, the commit event and the whole batch, and every commit and member read before.\<close>

theorem generation_commit_read_back:
  assumes "parse_store ops invar" "invar s" "version_respecting ops invar env"
    and "generation_get ops ws s (pg_generation_id g) = Inr prev"
    and "generation_commit ops env ws s g c ms = (s', Inr v)"
    and "validate_parse_generation_commit c = None" and "distinct (map pm_member_id ms)"
  shows "\<exists>h cs members. generation_get ops ws s' (pg_generation_id g) = Inr (Some (h, cs, members, v)) \<and>
     h\<lparr>pg_status := pg_status g\<rparr> = g \<and> c \<in> set cs \<and> set ms \<subseteq> set members \<and>
     (\<forall>h0 cs0 ms0 v0. prev = Some (h0, cs0, ms0, v0) \<longrightarrow> set cs0 \<subseteq> set cs \<and> set ms0 \<subseteq> set members)"
proof -
  from parse_store.commit_success_effect [OF assms(1-3,5)]
  have e: "commit_effect ops ws s s' g c ms v" and b: "validate_batch ws g c ms = None" by auto
  have "reads_back ops ws s' g c ms v prev"
  proof (cases "get_named_projection ops s (state_namespace ws) (generation_key (pg_generation_id g))")
    case None
    then show ?thesis
      using reads_back_fresh [OF e b assms(6,7)] assms(4) by (auto simp: generation_get_def)
  next
    case (Some r)
    then obtain h0 cs0 ms0 v0 where "prev = Some (h0, cs0, ms0, v0)"
      and rd: "generation_readable ws (pg_generation_id g) r h0 cs0 ms0"
      using assms(4) by (auto simp: generation_get_def decode_generation_Inr)
    moreover obtain p where "row_payload r = Mapping p" using rd by (auto simp: generation_readable_def)
    ultimately show ?thesis
      using reads_back_extend [OF e b assms(6,7) Some rd] reads_back_replay [OF e Some rd] by blast
  qed
  then show ?thesis by (simp add: reads_back_def)
qed

theorem generation_commit_read_back_witness:
  "\<exists>h cs members. generation_get mem_ops ''w'' example_store ''g'' = Inr (Some (h, cs, members, 1)) \<and>
     example_commit ''c1'' [''a''] \<in> set cs"
proof -
  have g: "pg_generation_id (example_generation GenSeeded) = ''g''" by (simp add: example_generation_def)
  have "generation_get mem_ops ''w'' [] (pg_generation_id (example_generation GenSeeded)) = Inr None"
    by (simp add: generation_get_def mem_get_def)
  from generation_commit_read_back [OF parse_mem.parse_store_axioms mem_invar_Nil version_respecting_id
      this example_commit_ok]
  show ?thesis unfolding g
    by (auto simp: validate_parse_generation_commit_def example_commit_def)
qed

end
