(* ===== verification/Parse_Sessions.thy ===== *)
theory Parse_Sessions
  imports Projection_Store
begin

text \<open>
  The session store (parsing/parse\_session\_store.py): restartable parser sessions with their
  frontier, saved under a compare-and-swap, and the pointer that selects the active session of a
  source. Every point at which another worker can act between two accesses of one operation is an
  explicit state transformer.
\<close>

section \<open>Definitions\<close>

type_synonym session_record = "parse_session_state \<times> parse_frontier_item list \<times> int"

definition parse_session_scope_id :: "source_region option \<Rightarrow> string" where
  "parse_session_scope_id region = (case region of None \<Rightarrow> ''full''
     | Some r \<Rightarrow> ''region:'' @ int_str (rg_start_char r) @ '':'' @ int_str (rg_end_char r))"

definition session_key :: "string \<Rightarrow> string" where
  "session_key sid = ''parse_session:'' @ sid"

definition active_key :: "string \<Rightarrow> string \<Rightarrow> string" where
  "active_key doc scope = ''active_parse_session:'' @ doc @ '':'' @ scope"

definition active_session_id ::
    "('s, payload) projection_ops \<Rightarrow> string \<Rightarrow> 's \<Rightarrow> string \<Rightarrow> string \<Rightarrow> string option result" where
  "active_session_id ops ws s doc scope =
     (case get_named_projection ops s (state_namespace ws) (active_key doc scope) of
        None \<Rightarrow> Inr None
      | Some row \<Rightarrow> (case row_payload row of
          NotMapping \<Rightarrow> Inl (TypeError ''active parse session projection payload must be an object'')
        | Mapping p \<Rightarrow>
            if str_or_empty (jget (sp_active p) ''workspace_id'') \<noteq> ws \<or>
               str_or_empty (jget (sp_active p) ''source_document_id'') \<noteq> doc
            then Inl (ValueError ''active parse session projection identity mismatch'')
            else let sid = py_strip (str_or_empty (jget (sp_active p) ''active_session_id''))
                 in Inr (if sid = [] then None else Some sid)))"

definition frontier_item_foreign :: "parse_session_state \<Rightarrow> parse_frontier_item \<Rightarrow> bool" where
  "frontier_item_foreign ss f \<longleftrightarrow> fi_session_id f \<noteq> ss_session_id ss \<or>
     fi_workspace_id f \<noteq> ss_workspace_id ss \<or>
     fi_source_document_id f \<noteq> ss_source_document_id ss \<or>
     fi_source_revision_id f \<noteq> ss_source_revision_id ss \<or>
     fi_revision_document_id f \<noteq> ss_revision_document_id ss \<or>
     fi_generation_id f \<noteq> ss_generation_id ss \<or>
     rg_source_document_id (fi_region f) \<noteq> ss_revision_document_id ss \<or>
     fi_depth f > ss_max_depth ss"

definition validate_frontier :: "parse_session_state \<Rightarrow> parse_frontier_item list \<Rightarrow> check" where
  "validate_frontier ss frontier = checks
     [raise_if (\<not> distinct (map fi_frontier_id frontier))
        (ValueError ''parse frontier contains duplicate item IDs''),
      raise_if (map fi_frontier_id frontier \<noteq> ss_frontier_ids ss)
        (ValueError ''parse session frontier pointer does not match persisted frontier''),
      first_error (\<lambda>f. raise_if (frontier_item_foreign ss f)
        (ValueError ''parse frontier item does not belong to its session'')) frontier]"

definition validate_session_identity :: "parse_session_state \<Rightarrow> check" where
  "validate_session_identity ss = raise_if
     (ss_session_id ss = [] \<or> ss_source_document_id ss = [] \<or> ss_source_revision_id ss = [] \<or>
      ss_source_digest ss = [] \<or> ss_revision_document_id ss = [] \<or> ss_generation_id ss = [])
     (ValueError ''parse session is missing a stable source identity'')"

definition changed_identity_fields :: "parse_session_state \<Rightarrow> parse_session_state \<Rightarrow> string list" where
  "changed_identity_fields cur new = map fst (filter snd
     [(''session_id'', ss_session_id cur \<noteq> ss_session_id new),
      (''workspace_id'', ss_workspace_id cur \<noteq> ss_workspace_id new),
      (''source_document_id'', ss_source_document_id cur \<noteq> ss_source_document_id new),
      (''source_revision_id'', ss_source_revision_id cur \<noteq> ss_source_revision_id new),
      (''source_digest'', ss_source_digest cur \<noteq> ss_source_digest new),
      (''revision_document_id'', ss_revision_document_id cur \<noteq> ss_revision_document_id new),
      (''generation_id'', ss_generation_id cur \<noteq> ss_generation_id new),
      (''parser_state'', ss_parser_state cur \<noteq> ss_parser_state new),
      (''max_depth'', ss_max_depth cur \<noteq> ss_max_depth new),
      (''max_frontier_items'', ss_max_frontier_items cur \<noteq> ss_max_frontier_items new),
      (''max_parser_calls'', ss_max_parser_calls cur \<noteq> ss_max_parser_calls new),
      (''max_region_chars'', ss_max_region_chars cur \<noteq> ss_max_region_chars new),
      (''token_budget'', ss_token_budget cur \<noteq> ss_token_budget new),
      (''wall_time_seconds'', ss_wall_time_seconds cur \<noteq> ss_wall_time_seconds new)])"

definition validate_transition :: "parse_session_state \<Rightarrow> parse_session_state \<Rightarrow> check" where
  "validate_transition cur new = checks
     [raise_if (changed_identity_fields cur new \<noteq> [])
        (ValueError (''parse session transition changed immutable identity fields: '' @
           join_str '', '' (changed_identity_fields cur new))),
      raise_if (ss_parser_calls new < ss_parser_calls cur)
        (ValueError ''parse session parser call count cannot decrease''),
      raise_if (\<not> set (ss_consumed_frontier_ids cur) \<subseteq> set (ss_consumed_frontier_ids new))
        (ValueError ''parse session consumed frontier history cannot be removed'')]"

text \<open>The part of \<^verbatim>\<open>get\<close> and \<^verbatim>\<open>list_for_source\<close> that decodes the frontier of a session.\<close>

definition decode_frontier :: "parse_session_state \<Rightarrow> stored_payload \<Rightarrow> parse_frontier_item list result" where
  "decode_frontier ss p =
     check_then (validate_session_identity ss)
     (res_bind (map_res (model_validate validate_parse_frontier_item) (objects (sp_frontier p)))
        (\<lambda>frontier. check_then (validate_frontier ss frontier) (Inr frontier)))"

definition session_get ::
    "('s, payload) projection_ops \<Rightarrow> string \<Rightarrow> 's \<Rightarrow> string \<Rightarrow> session_record option result" where
  "session_get ops ws s sid =
     (case get_named_projection ops s (state_namespace ws) (session_key sid) of
        None \<Rightarrow> Inr None
      | Some row \<Rightarrow> (case row_payload row of
          NotMapping \<Rightarrow> Inl (TypeError ''parse session projection payload must be an object'')
        | Mapping p \<Rightarrow>
            res_bind (model_validate validate_parse_session_state (sp_session p)) (\<lambda>ss.
            check_then (checks
              [raise_if (ss_workspace_id ss \<noteq> ws)
                 (ValueError ''parse session workspace does not match store workspace''),
               raise_if (ss_session_id ss \<noteq> sid)
                 (ValueError ''stored parse session identity does not match projection key'')])
            (res_bind (decode_frontier ss p) (\<lambda>frontier.
               Inr (Some (ss, frontier, sequence_value (row_authoritative_seq row) 0)))))))"

definition session_of_row :: "string \<Rightarrow> string \<Rightarrow> payload projection_row \<Rightarrow> session_record list result" where
  "session_of_row ws doc row =
     (if \<not> py_startswith (row_key row) ''parse_session:'' then Inr []
      else case row_payload row of
        NotMapping \<Rightarrow> Inr []
      | Mapping p \<Rightarrow>
          res_bind (model_validate validate_parse_session_state (sp_session p)) (\<lambda>ss.
          if ss_workspace_id ss \<noteq> ws \<or> ss_source_document_id ss \<noteq> doc then Inr []
          else res_bind (decode_frontier ss p) (\<lambda>frontier.
            Inr [(ss, frontier, sequence_value (row_authoritative_seq row) 0)])))"

definition session_list_for_source ::
    "('s, payload) projection_ops \<Rightarrow> string \<Rightarrow> 's \<Rightarrow> string \<Rightarrow> session_record list result" where
  "session_list_for_source ops ws s doc =
     res_bind (map_res (session_of_row ws doc) (list_named_projections ops s (state_namespace ws)))
       (\<lambda>found. Inr (rev (sort_key (\<lambda>r. (ss_last_progress_at (fst r), ss_session_id (fst r)))
          (rev (concat found)))))"

text \<open>\<^verbatim>\<open>save\<close> reads the session, checks the expected version, reads the row a second time for the
  expected sequences and then swaps: \<open>env1\<close> acts between the reads, \<open>env2\<close> before the swap.\<close>

definition swap_session ::
    "('s, payload) projection_ops \<Rightarrow> string \<Rightarrow> 's \<Rightarrow> parse_session_state \<Rightarrow> parse_frontier_item list \<Rightarrow>
     int option \<Rightarrow> int option \<Rightarrow> int \<Rightarrow> 's \<times> int result" where
  "swap_session ops ws s ss frontier ea em v =
     (case cas_named_projection ops s (state_namespace ws) (session_key (ss_session_id ss))
        (Mapping (empty_payload\<lparr>sp_session := Object ss, sp_frontier := map Object frontier\<rparr>)) ea em v v of
        (s', True) \<Rightarrow> (s', Inr v)
      | (s', False) \<Rightarrow> (s', Inl (ParseSessionStoreConflict ''parse session CAS lost a race'')))"

definition session_save ::
    "('s, payload) projection_ops \<Rightarrow> ('s \<Rightarrow> 's) \<Rightarrow> ('s \<Rightarrow> 's) \<Rightarrow> string \<Rightarrow> 's \<Rightarrow>
     parse_session_state \<Rightarrow> parse_frontier_item list \<Rightarrow> int option \<Rightarrow> 's \<times> int result" where
  "session_save ops env1 env2 ws s ss frontier expected =
     (case checks [raise_if (ss_workspace_id ss \<noteq> ws)
                     (ValueError ''parse session workspace does not match store workspace''),
                   validate_frontier ss frontier] of
        Some e \<Rightarrow> (s, Inl e)
      | None \<Rightarrow>
        (case session_get ops ws s (ss_session_id ss) of
           Inl e \<Rightarrow> (s, Inl e)
         | Inr current \<Rightarrow>
           (case expected of
              None \<Rightarrow> swap_session ops ws (env2 (env1 s)) ss frontier None None 1
            | Some ev \<Rightarrow>
              (case current of
                 None \<Rightarrow> (s, Inl (ParseSessionStoreConflict ''parse session changed before commit''))
               | Some (cur, _, cv) \<Rightarrow>
                 if cv \<noteq> ev
                 then (s, Inl (ParseSessionStoreConflict ''parse session changed before commit''))
                 else (case validate_transition cur ss of
                     Some e \<Rightarrow> (s, Inl e)
                   | None \<Rightarrow>
                     let row = get_named_projection ops (env1 s) (state_namespace ws)
                                 (session_key (ss_session_id ss));
                         ea = (case row of None \<Rightarrow> -1 | Some r \<Rightarrow> sequence_value (row_authoritative_seq r) (-1));
                         em = (case row of None \<Rightarrow> -1 | Some r \<Rightarrow> sequence_value (row_materialized_seq r) (-1))
                     in swap_session ops ws (env2 (env1 s)) ss frontier (Some ea) (Some em) (ev + 1))))))"

text \<open>The retry loop of \<^verbatim>\<open>activate\<close>, and \<^verbatim>\<open>activate\<close>: in round \<open>i\<close> other workers act as \<open>env (3 * i)\<close>
  before the row is read, \<open>env (3 * i + 1)\<close> before the pointer is decoded and \<open>env (3 * i + 2)\<close>
  before the swap.\<close>

definition active_payload :: "string \<Rightarrow> parse_session_state \<Rightarrow> payload" where
  "active_payload ws ss = Mapping (empty_payload\<lparr>sp_active :=
     [(''workspace_id'', JStr ws), (''source_document_id'', JStr (ss_source_document_id ss)),
      (''active_session_id'', JStr (ss_session_id ss))]\<rparr>)"

fun activate_rounds ::
    "('s, payload) projection_ops \<Rightarrow> (nat \<Rightarrow> 's \<Rightarrow> 's) \<Rightarrow> string \<Rightarrow> parse_session_state \<Rightarrow> string \<Rightarrow>
     nat \<Rightarrow> nat \<Rightarrow> 's \<Rightarrow> 's \<times> unit result" where
  "activate_rounds ops env ws ss scope i 0 s =
     (s, Inl (ParseSessionStoreConflict ''active parse session CAS repeatedly lost a race''))"
| "activate_rounds ops env ws ss scope i (Suc left) s =
     (let ns = state_namespace ws; k = active_key (ss_source_document_id ss) scope;
          s1 = env (3 * i) s; row = get_named_projection ops s1 ns k; s2 = env (3 * i + 1) s1;
          swap = (\<lambda>ea em v. case cas_named_projection ops (env (3 * i + 2) s2) ns k
                     (active_payload ws ss) ea em v v of
                   (s', True) \<Rightarrow> (s', Inr ())
                 | (s', False) \<Rightarrow> activate_rounds ops env ws ss scope (Suc i) left s')
      in case row of
           None \<Rightarrow> swap None None 1
         | Some r \<Rightarrow>
             (case active_session_id ops ws s2 (ss_source_document_id ss) scope of
                Inl e \<Rightarrow> (s2, Inl e)
              | Inr active \<Rightarrow>
                  if active = Some (ss_session_id ss) then (s2, Inr ())
                  else swap (Some (sequence_value (row_authoritative_seq r) 0))
                         (Some (sequence_value (row_materialized_seq r) 0))
                         (sequence_value (row_authoritative_seq r) 0 + 1)))"

definition session_activate ::
    "('s, payload) projection_ops \<Rightarrow> (nat \<Rightarrow> 's \<Rightarrow> 's) \<Rightarrow> string \<Rightarrow> 's \<Rightarrow> parse_session_state \<Rightarrow>
     string \<Rightarrow> 's \<times> unit result" where
  "session_activate ops env ws s ss scope =
     (case checks
        [raise_if (ss_workspace_id ss \<noteq> ws)
           (ValueError ''parse session workspace does not match store workspace''),
         raise_if (ss_source_document_id ss = [] \<or> ss_session_id ss = [])
           (ValueError ''active parse session requires stable source and session IDs''),
         (case session_get ops ws s (ss_session_id ss) of
            Inl e \<Rightarrow> Some e
          | Inr None \<Rightarrow> Some (ValueError ''cannot activate a parse session that is not persisted'')
          | Inr (Some (stored, _)) \<Rightarrow>
              raise_if (ss_source_document_id stored \<noteq> ss_source_document_id ss)
                (ValueError ''active parse session source does not match persisted session'')),
         raise_if (scope = [] \<or> length scope > 256)
           (ValueError ''parse session scope must be a non-empty string of at most 256 characters'')] of
        Some e \<Rightarrow> (s, Inl e)
      | None \<Rightarrow> activate_rounds ops env ws ss scope 0 8 s)"


section \<open>Saving\<close>

context parse_store
begin

lemma swap_session_Inr:
  assumes "invar s" "swap_session ops ws s ss frontier ea em w = (s', Inr v)"
  shows "v = w" "cas_expects (get_named_projection ops s (state_namespace ws) (session_key (ss_session_id ss))) ea em"
    "get_named_projection ops s' (state_namespace ws) (session_key (ss_session_id ss)) =
       Some (new_row (session_key (ss_session_id ss))
         (Mapping (empty_payload\<lparr>sp_session := Object ss, sp_frontier := map Object frontier\<rparr>)) v v)"
    "invar s'"
  using assms cas_swapped [OF assms(1), of "state_namespace ws" "session_key (ss_session_id ss)" _ ea em w w s']
  by (auto simp: swap_session_def split: prod.splits bool.splits)

lemma session_save_swapped:
  assumes "session_save ops env1 env2 ws s ss frontier expected = (s', Inr v)"
  shows "\<exists>ea em w. swap_session ops ws (env2 (env1 s)) ss frontier ea em w = (s', Inr v) \<and>
    validate_frontier ss frontier = None \<and> ss_workspace_id ss = ws"
  using assms
  by (auto simp: session_save_def Let_def split: option.splits sum.splits prod.splits if_splits)

end

lemma objects_Object [simp]: "objects (map Object xs) = map Object xs"
  by (simp add: objects_def filter_map comp_def)

text \<open>what a successful save wrote is what a read returns: the session, its frontier in order, and
  the version the save returned, whatever other workers did before the swap.\<close>

theorem session_save_read_back:
  assumes "parse_store ops invar" "invar (env2 (env1 s))"
    and "session_save ops env1 env2 ws s ss frontier expected = (s', Inr v)"
    and "validate_parse_session_state ss = None" "validate_session_identity ss = None"
    and "\<forall>f\<in>set frontier. validate_parse_frontier_item f = None"
  shows "session_get ops ws s' (ss_session_id ss) = Inr (Some (ss, frontier, v))"
proof -
  obtain ea em w where sw: "swap_session ops ws (env2 (env1 s)) ss frontier ea em w = (s', Inr v)"
    and f: "validate_frontier ss frontier = None" "ss_workspace_id ss = ws"
    using parse_store.session_save_swapped [OF assms(1,3)] by blast
  have "map_res (model_validate validate_parse_frontier_item) (map Object frontier) = Inr frontier"
    using assms(6) by (simp add: map_res_model_validate)
  with parse_store.swap_session_Inr(3) [OF assms(1,2) sw] assms f show ?thesis
    by (simp add: session_get_def decode_frontier_def)
qed

definition example_session :: "int \<Rightarrow> parse_session_state" where
  "example_session calls = \<lparr>ss_session_id = ''s'', ss_workspace_id = ''w'', ss_source_document_id = ''d'',
     ss_source_revision_id = ''r'', ss_source_digest = ''h'', ss_revision_document_id = ''rd'',
     ss_generation_id = ''g'', ss_phase = PhaseExpanding, ss_frontier_ids = [],
     ss_consumed_frontier_ids = [], ss_max_depth = 3, ss_max_frontier_items = 1,
     ss_max_parser_calls = 1000, ss_max_region_chars = 16384, ss_parser_calls = calls,
     ss_token_budget = None, ss_wall_time_seconds = None, ss_last_progress_at = 0,
     ss_failure_reason = None, ss_parser_state = [], ss_pending_view = None,
     ss_dependents_enqueued_view_version = None\<rparr>"

definition example_sessions :: "payload mem_store" where
  "example_sessions = fst (session_save mem_ops (\<lambda>s. s) (\<lambda>s. s) ''w'' [] (example_session 0) [] None)"

lemma example_save_ok:
  "session_save mem_ops (\<lambda>s. s) (\<lambda>s. s) ''w'' [] (example_session 0) [] None = (example_sessions, Inr 1)"
proof -
  have "snd (session_save mem_ops (\<lambda>s. s) (\<lambda>s. s) ''w'' [] (example_session 0) [] None) = Inr 1"
    by code_simp
  then show ?thesis by (simp add: example_sessions_def prod_eq_iff)
qed

lemma example_session_valid:
  "validate_parse_session_state (example_session c) = (if c < 0 then Some (ValueError ''parser_calls'') else None)"
  "validate_session_identity (example_session c) = None" "ss_session_id (example_session c) = ''s''"
  by (simp_all add: validate_parse_session_state_def validate_session_identity_def example_session_def raise_if_def)

theorem session_save_read_back_witness:
  "session_get mem_ops ''w'' example_sessions ''s'' = Inr (Some (example_session 0, [], 1))"
  using session_save_read_back [OF parse_mem.parse_store_axioms _ example_save_ok]
  by (simp add: example_session_valid)

lemma example_sessions_invar: "mem_invar example_sessions"
proof -
  obtain ea em w where "swap_session mem_ops ''w'' [] (example_session 0) [] ea em w = (example_sessions, Inr 1)"
    using parse_mem.session_save_swapped [OF example_save_ok] by blast
  from parse_mem.swap_session_Inr(4) [OF mem_invar_Nil this] show ?thesis .
qed



definition example_second_save :: "payload mem_store \<Rightarrow> payload mem_store" where
  "example_second_save s =
     fst (session_save mem_ops (\<lambda>s. s) (\<lambda>s. s) ''w'' s (example_session 5) [] (Some 1))"



text \<open>the fence does not hold without that condition. Both workers loaded version 1; the first one
  saves five parser calls, as version 2, between the two reads of the second. The second save, made
  against version 1, is accepted as version 2 as well and overwrites the first: the parser calls go
  back to one.\<close>

theorem session_save_lost_update:
  "snd (session_save mem_ops (\<lambda>s. s) (\<lambda>s. s) ''w'' example_sessions (example_session 5) [] (Some 1)) = Inr 2 \<and>
   (case session_save mem_ops example_second_save (\<lambda>s. s) ''w'' example_sessions (example_session 1) [] (Some 1) of
      (s', r) \<Rightarrow> r = Inr 2 \<and> session_get mem_ops ''w'' s' ''s'' = Inr (Some (example_session 1, [], 2)))"
  by code_simp

section \<open>Activation\<close>

lemma active_session_id_row:
  assumes "get_named_projection ops s (state_namespace ws) (active_key (ss_source_document_id ss) scope) =
      Some (new_row k (active_payload ws ss) v v)"
    and "py_strip (ss_session_id ss) = ss_session_id ss" "ss_session_id ss \<noteq> []"
  shows "active_session_id ops ws s (ss_source_document_id ss) scope = Inr (Some (ss_session_id ss))"
  using assms by (simp add: active_session_id_def active_payload_def Let_def)

context parse_store
begin

lemma activate_rounds_pointer:
  assumes "\<forall>i s. invar s \<longrightarrow> invar (env i s)"
    and "py_strip (ss_session_id ss) = ss_session_id ss" "ss_session_id ss \<noteq> []"
  shows "invar s \<Longrightarrow> activate_rounds ops env ws ss scope i left s = (s', Inr ()) \<Longrightarrow>
    active_session_id ops ws s' (ss_source_document_id ss) scope = Inr (Some (ss_session_id ss))"
proof (induction left arbitrary: i s)
  case 0
  then show ?case by simp
next
  case (Suc left)
  let ?s2 = "env (3 * i + 1) (env (3 * i) s)" and ?k = "active_key (ss_source_document_id ss) scope"
  have inv: "invar (env (3 * i + 2) ?s2)" using Suc.prems(1) assms(1) by blast
  have swapped: "active_session_id ops ws s' (ss_source_document_id ss) scope = Inr (Some (ss_session_id ss))"
    if "(case cas_named_projection ops (env (3 * i + 2) ?s2) (state_namespace ws) ?k (active_payload ws ss) ea em v v of
          (s', True) \<Rightarrow> (s', Inr ()) | (s', False) \<Rightarrow> activate_rounds ops env ws ss scope (Suc i) left s') = (s', Inr ())"
    for ea em v
  proof (cases "cas_named_projection ops (env (3 * i + 2) ?s2) (state_namespace ws) ?k (active_payload ws ss) ea em v v")
    case (Pair t b)
    then show ?thesis
      using that Suc.IH [of t "Suc i"] cas_swapped(2) [OF inv, of "state_namespace ws" ?k _ ea em v v t]
        cas_refused(2) [OF inv, of "state_namespace ws" ?k _ ea em v v t] inv assms(2,3)
      by (cases b) (auto intro: active_session_id_row)
  qed
  from Suc.prems(2) show ?case
    by (auto simp: Let_def intro: swapped split: option.splits sum.splits if_splits)
qed

lemma activate_rounds_quiet:
  assumes "invar s" "active_session_id ops ws s (ss_source_document_id ss) scope = Inr a"
  shows "\<exists>s'. activate_rounds ops (\<lambda>_ s. s) ws ss scope i (Suc left) s = (s', Inr ())"
proof -
  let ?k = "active_key (ss_source_document_id ss) scope" and ?ns = "state_namespace ws"
  have won: "\<exists>s'. cas_named_projection ops s ?ns ?k p ea em v v = (s', True)"
    if "cas_expects (get_named_projection ops s ?ns ?k) ea em" for p ea em v
    using that cas_decides [OF assms(1), of ?ns ?k p ea em v v] by (metis (full_types) prod.collapse)
  show ?thesis
  proof (cases "get_named_projection ops s ?ns ?k")
    case None
    then show ?thesis using won [of None None "active_payload ws ss" 1]
      by (auto simp: Let_def cas_expects_def)
  next
    case (Some r)
    obtain x y where "row_authoritative_seq r = JInt x" "row_materialized_seq r = JInt y"
      using row_seqs [OF assms(1) Some] by blast
    then show ?thesis
      using won [of "Some x" "Some y" "active_payload ws ss" "x + 1"] Some assms(2)
      by (auto simp: Let_def cas_expects_def)
  qed
qed

end

text \<open>Whenever activating a session returns, in whatever round and whatever other workers did, the
  active pointer of that source and scope names this session.\<close>

theorem session_activate_sets_pointer:
  assumes "parse_store ops invar" "invar s" "\<forall>i s. invar s \<longrightarrow> invar (env i s)"
    and "py_strip (ss_session_id ss) = ss_session_id ss"
    and "session_activate ops env ws s ss scope = (s', Inr ())"
  shows "active_session_id ops ws s' (ss_source_document_id ss) scope = Inr (Some (ss_session_id ss))"
proof -
  from assms(5) have "activate_rounds ops env ws ss scope 0 8 s = (s', Inr ())" "ss_session_id ss \<noteq> []"
    unfolding session_activate_def by (auto split: option.splits)
  with parse_store.activate_rounds_pointer [OF assms(1,3,4)] assms(2) show ?thesis by blast
qed

text \<open>activation of a stored session succeeds when no other worker interferes: in the first round
  it finds the pointer set or wins the swap.\<close>

theorem session_activate_succeeds:
  assumes "parse_store ops invar" "invar s"
    and "session_get ops ws s (ss_session_id ss) = Inr (Some (stored, fr, v))"
    and "ss_source_document_id stored = ss_source_document_id ss" "ss_workspace_id ss = ws"
    and "ss_source_document_id ss \<noteq> []" "ss_session_id ss \<noteq> []" "scope \<noteq> []" "length scope \<le> 256"
    and "active_session_id ops ws s (ss_source_document_id ss) scope = Inr a"
  shows "\<exists>s'. session_activate ops (\<lambda>_ s. s) ws s ss scope = (s', Inr ())"
proof -
  have "\<exists>s'. activate_rounds ops (\<lambda>_ s. s) ws ss scope 0 (Suc 7) s = (s', Inr ())"
    using parse_store.activate_rounds_quiet [OF assms(1,2,10)] by blast
  then have r: "\<exists>s'. activate_rounds ops (\<lambda>_ s. s) ws ss scope 0 8 s = (s', Inr ())"
    by (simp only: eval_nat_numeral) (simp add: numeral_3_eq_3)
  show ?thesis
    using r assms(3-9) by (simp add: session_activate_def del: activate_rounds.simps)
qed

lemma example_active:
  "active_session_id mem_ops ''w'' example_sessions ''d'' ''full'' = Inr None"
  by code_simp

theorem session_activate_succeeds_witness:
  "\<exists>s'. session_activate mem_ops (\<lambda>_ s. s) ''w'' example_sessions (example_session 0) ''full'' = (s', Inr ())"
proof (rule session_activate_succeeds [OF parse_mem.parse_store_axioms example_sessions_invar])
  show "session_get mem_ops ''w'' example_sessions (ss_session_id (example_session 0)) =
      Inr (Some (example_session 0, [], 1))" by code_simp
  show "active_session_id mem_ops ''w'' example_sessions (ss_source_document_id (example_session 0)) ''full'' =
      Inr None" using example_active by (simp add: example_session_def)
qed (simp_all add: example_session_def)

theorem session_activate_sets_pointer_witness:
  "active_session_id mem_ops ''w'' (fst (session_activate mem_ops (\<lambda>_ s. s) ''w'' example_sessions
      (example_session 0) ''full'')) ''d'' ''full'' = Inr (Some ''s'')"
proof -
  have "snd (session_activate mem_ops (\<lambda>_ s. s) ''w'' example_sessions (example_session 0) ''full'') = Inr ()"
    by code_simp
  then have ok: "session_activate mem_ops (\<lambda>_ s. s) ''w'' example_sessions (example_session 0) ''full'' =
      (fst (session_activate mem_ops (\<lambda>_ s. s) ''w'' example_sessions (example_session 0) ''full''), Inr ())"
    by (simp add: prod_eq_iff)
  have "py_strip (ss_session_id (example_session 0)) = ss_session_id (example_session 0)" by code_simp
  from session_activate_sets_pointer [OF parse_mem.parse_store_axioms example_sessions_invar _ this ok]
  show ?thesis by (simp add: example_session_def)
qed

end
