(* ===== verification/Parse_Views.thy ===== *)
theory Parse_Views
  imports Parse_Generations
begin

text \<open>
  The active view of a source and its resolver (parsing/parse\_views.py, second half): a view may
  be activated, and is read, only if every selection is committed evidence of a stable generation;
  the resolver decides which graph artifacts belong to the active interpretation.
\<close>

section \<open>Definitions\<close>

definition view_key :: "string \<Rightarrow> string" where
  "view_key doc = ''parse_view:'' @ doc"

definition generation_outside_view ::
    "string \<Rightarrow> parse_view \<Rightarrow> parse_view_selection \<Rightarrow> parse_generation \<Rightarrow> bool" where
  "generation_outside_view ws v sel g \<longleftrightarrow> pg_workspace_id g \<noteq> ws \<or>
     pg_generation_id g \<noteq> sel_generation_id sel \<or>
     pg_source_document_id g \<noteq> pv_source_document_id v \<or>
     pg_source_revision_id g \<noteq> pv_source_revision_id v \<or>
     pg_revision_document_id g \<noteq> pv_revision_document_id v \<or> pg_status g \<noteq> GenStable"

definition member_ungrounded ::
    "string \<Rightarrow> parse_view \<Rightarrow> parse_view_selection \<Rightarrow> parse_generation_member \<Rightarrow> bool" where
  "member_ungrounded ws v sel m \<longleftrightarrow> pm_workspace_id m \<noteq> ws \<or>
     pm_generation_id m \<noteq> sel_generation_id sel \<or> pm_member_id m \<noteq> sel_member_id sel \<or>
     pm_source_document_id m \<noteq> pv_source_document_id v \<or>
     pm_source_revision_id m \<noteq> pv_source_revision_id v \<or>
     pm_revision_document_id m \<noteq> pv_revision_document_id v \<or> pm_region m \<noteq> sel_region sel"

text \<open>The members a stored commit contributes to the committed set, or the error its entry raises.\<close>

definition committed_ids ::
    "string \<Rightarrow> parse_generation \<Rightarrow> parse_generation_commit field \<Rightarrow> string list result" where
  "committed_ids ws g f = (case f of
       NotObject \<Rightarrow> Inl (TypeError ''ParseView selection references malformed generation commit'')
     | _ \<Rightarrow> res_bind (model_validate validate_parse_generation_commit f) (\<lambda>c.
         check_then (raise_if (commit_outside ws g c)
           (ValueError ''ParseView selection references a foreign generation commit''))
         (Inr (pc_member_ids c))))"

definition check_selection_member ::
    "string \<Rightarrow> parse_view \<Rightarrow> parse_view_selection \<Rightarrow> (string \<times> parse_generation_member field) list \<Rightarrow>
     string list list \<Rightarrow> check" where
  "check_selection_member ws v sel members ids =
     (case map_of members (sel_member_id sel) of
        None \<Rightarrow> Some (TypeError ''ParseView selection references an unknown generation member'')
      | Some NotObject \<Rightarrow> Some (TypeError ''ParseView selection references an unknown generation member'')
      | Some f \<Rightarrow>
        (case model_validate validate_parse_generation_member f of
           Inl e \<Rightarrow> Some e
         | Inr m \<Rightarrow> checks
             [raise_if (member_ungrounded ws v sel m)
                (ValueError ''ParseView selection is not grounded in its generation member''),
              raise_if (sel_member_id sel \<notin> set (concat ids))
                (ValueError ''ParseView selection references an uncommitted generation member'')]))"

definition check_selection_evidence ::
    "('s, payload) projection_ops \<Rightarrow> string \<Rightarrow> 's \<Rightarrow> parse_view \<Rightarrow> parse_view_selection \<Rightarrow> check" where
  "check_selection_evidence ops ws s v sel =
     (case get_named_projection ops s (state_namespace ws)
             (''parse_generation:'' @ sel_generation_id sel) of
        None \<Rightarrow> Some (ValueError ''ParseView selection references an unknown generation'')
      | Some row \<Rightarrow> (case row_payload row of
          NotMapping \<Rightarrow> Some (ValueError ''ParseView selection references an unknown generation'')
        | Mapping p \<Rightarrow>
          (case sp_members p of
             None \<Rightarrow> Some (TypeError ''ParseView selection references malformed generation evidence'')
           | Some members \<Rightarrow>
             if sp_generation p = NotObject
             then Some (TypeError ''ParseView selection references malformed generation evidence'')
             else (case model_validate (\<lambda>_. None) (sp_generation p) of
               Inl e \<Rightarrow> Some e
             | Inr g \<Rightarrow>
               if generation_outside_view ws v sel g
               then Some (ValueError ''ParseView selection is outside the active source generation'')
               else (case sp_commits p of
                 None \<Rightarrow> Some (TypeError ''ParseView selection references missing generation commits'')
               | Some commits \<Rightarrow>
                 (case map_res (\<lambda>kv. committed_ids ws g (snd kv)) commits of
                    Inl e \<Rightarrow> Some e
                  | Inr ids \<Rightarrow>
                    (case map_res (model_validate validate_parse_generation_member)
                            (map snd (object_map (Some members))) of
                       Inl e \<Rightarrow> Some e
                     | Inr parsed \<Rightarrow> checks
                         [validate_generation_member_ancestry parsed Map.empty,
                          check_selection_member ws v sel members ids])))))))"

definition validate_view_evidence ::
    "('s, payload) projection_ops \<Rightarrow> string \<Rightarrow> 's \<Rightarrow> parse_view \<Rightarrow> check" where
  "validate_view_evidence ops ws s v = first_error (check_selection_evidence ops ws s v) (pv_selections v)"

definition read_view :: "payload \<Rightarrow> parse_view result" where
  "read_view p = (case p of NotMapping \<Rightarrow> Inl (ValueError ''validation error'')
     | Mapping q \<Rightarrow> model_validate validate_parse_view (sp_view q))"

definition view_get ::
    "('s, payload) projection_ops \<Rightarrow> string \<Rightarrow> 's \<Rightarrow> string \<Rightarrow> parse_view option result" where
  "view_get ops ws s doc =
     (case get_named_projection ops s (state_namespace ws) (view_key doc) of
        None \<Rightarrow> Inr None
      | Some row \<Rightarrow>
        if row_payload row = NotMapping
        then Inl (TypeError ''parse view projection payload must be an object'')
        else res_bind (read_view (row_payload row)) (\<lambda>v.
          check_then (checks
            [raise_if (pv_workspace_id v \<noteq> ws)
               (ValueError ''stored ParseView workspace does not match store workspace''),
             raise_if (pv_source_document_id v \<noteq> doc)
               (ValueError ''stored ParseView source does not match projection key''),
             validate_view_evidence ops ws s v])
          (Inr (Some v))))"

text \<open>The sequences \<^verbatim>\<open>activate\<close> expects: none for a first view, those of the row it read
  otherwise.\<close>

definition expected_view_sequences ::
    "('s, payload) projection_ops \<Rightarrow> string \<Rightarrow> 's \<Rightarrow> parse_view \<Rightarrow> int option \<Rightarrow>
     (int option \<times> int option) result" where
  "expected_view_sequences ops ws s v expected =
     (case get_named_projection ops s (state_namespace ws) (view_key (pv_source_document_id v)) of
        None \<Rightarrow> (case expected of None \<Rightarrow> Inr (None, None)
          | Some _ \<Rightarrow> Inl (ParseViewConflict ''expected an existing ParseView''))
      | Some row \<Rightarrow>
        (case expected of None \<Rightarrow> Inl (ParseViewConflict ''expected no existing ParseView'')
          | Some ev \<Rightarrow> res_bind (read_view (row_payload row)) (\<lambda>cur.
              check_then (checks
                [validate_view_evidence ops ws s cur,
                 raise_if (pv_source_document_id cur \<noteq> pv_source_document_id v)
                   (ValueError ''stored ParseView source does not match replacement source''),
                 raise_if (pv_view_version cur \<noteq> ev)
                   (ParseViewConflict ''ParseView version changed before activation''),
                 raise_if (pv_view_version v \<le> pv_view_version cur)
                   (ValueError ''ParseView version must increase when replacing an active view'')])
              (Inr (Some (payload_int (row_authoritative_seq row) (-1)),
                    Some (payload_int (row_materialized_seq row) (-1)))))))"

definition view_activate ::
    "('s, payload) projection_ops \<Rightarrow> ('s \<Rightarrow> 's) \<Rightarrow> string \<Rightarrow> 's \<Rightarrow> parse_view \<Rightarrow> int option \<Rightarrow>
     's \<times> bool result" where
  "view_activate ops env ws s v expected =
     (case checks
        [raise_if (pv_workspace_id v \<noteq> ws) (ValueError ''ParseView workspace does not match store workspace''),
         raise_if (pv_view_version v < 1) (ValueError ''ParseView version must be positive''),
         validate_view_evidence ops ws s v] of
        Some e \<Rightarrow> (s, Inl e)
      | None \<Rightarrow>
        (case expected_view_sequences ops ws s v expected of
           Inl e \<Rightarrow> (s, Inl e)
         | Inr (ea, em) \<Rightarrow>
           (case cas_named_projection ops (env s) (state_namespace ws) (view_key (pv_source_document_id v))
                   (Mapping (empty_payload\<lparr>sp_view := Object v\<rparr>)) ea em
                   (pv_view_version v) (pv_view_version v) of
              (s', True) \<Rightarrow> (s', Inr True)
            | (s', False) \<Rightarrow>
                (s', Inl (ParseViewConflict ''ParseView activation lost a compare-and-swap race'')))))"

record parse_view_resolution =
  pr_source_document_id :: string
  pr_revision_document_id :: string
  pr_view_id :: "string option"
  pr_view_version :: "int option"
  pr_generation_ids :: "string list"
  pr_member_ids :: "string list"
  pr_is_legacy :: bool

definition resolve_view ::
    "stable_id_fn \<Rightarrow> ('s, payload) projection_ops \<Rightarrow> string \<Rightarrow> 's \<Rightarrow> string \<Rightarrow> string option \<Rightarrow>
     parse_view_resolution result" where
  "resolve_view stable_id ops ws s doc fallback = res_bind (view_get ops ws s doc) (\<lambda>found.
     Inr (case found of
       Some v \<Rightarrow> \<lparr>pr_source_document_id = doc, pr_revision_document_id = pv_revision_document_id v,
         pr_view_id = Some (pv_view_id v), pr_view_version = Some (pv_view_version v),
         pr_generation_ids = sorted_list_of_set (set (map sel_generation_id (pv_selections v))),
         pr_member_ids = map sel_member_id (pv_selections v), pr_is_legacy = False\<rparr>
     | None \<Rightarrow> \<lparr>pr_source_document_id = doc, pr_revision_document_id = opt_str fallback,
         pr_view_id = None, pr_view_version = None,
         pr_generation_ids = [legacy_generation_id stable_id ws doc],
         pr_member_ids = [], pr_is_legacy = True\<rparr>))"

definition is_active_revision ::
    "stable_id_fn \<Rightarrow> ('s, payload) projection_ops \<Rightarrow> string \<Rightarrow> 's \<Rightarrow> string \<Rightarrow> string \<Rightarrow>
     string option \<Rightarrow> bool result" where
  "is_active_revision stable_id ops ws s doc rev_doc fallback =
     res_bind (resolve_view stable_id ops ws s doc fallback) (\<lambda>r.
       Inr (pr_revision_document_id r \<noteq> [] \<and> pr_revision_document_id r = rev_doc))"

definition artifact_revision :: "json_object \<Rightarrow> string" where
  "artifact_revision md = py_strip (str_or_empty
     (json_or (jget md ''source_revision_document_id'') (jget md ''revision_document_id'')))"

definition artifact_member :: "json_object \<Rightarrow> string" where
  "artifact_member md = py_strip (str_or_empty (json_or (jget md ''parse_generation_member_id'')
     (json_or (jget md ''generation_member_id'') (jget md ''member_id''))))"

definition is_active_metadata ::
    "stable_id_fn \<Rightarrow> ('s, payload) projection_ops \<Rightarrow> string \<Rightarrow> 's \<Rightarrow> string \<Rightarrow> json_object \<Rightarrow>
     string option \<Rightarrow> bool result" where
  "is_active_metadata stable_id ops ws s doc md fallback =
     res_bind (resolve_view stable_id ops ws s doc fallback) (\<lambda>r.
       Inr (if artifact_revision md \<noteq> [] \<and> pr_revision_document_id r \<noteq> [] \<and>
               artifact_revision md \<noteq> pr_revision_document_id r then False
            else if pr_member_ids r \<noteq> []
            then artifact_member md \<noteq> [] \<and> artifact_member md \<in> set (pr_member_ids r)
            else artifact_member md = []))"

definition validate_parse_view_selections :: "parse_view_selection list \<Rightarrow> string \<Rightarrow> check" where
  "validate_parse_view_selections sels rev_doc = validate_parse_view
     \<lparr>pv_view_id = ''validation'', pv_view_version = 1, pv_workspace_id = ''validation'',
      pv_source_document_id = ''validation'', pv_source_revision_id = ''validation'',
      pv_revision_document_id = rev_doc, pv_selections = sels, pv_predecessor_view_id = None,
      pv_status = ViewActive, pv_activated_at = 0\<rparr>"

section \<open>Every selection is committed evidence\<close>

definition grounded_selection ::
    "('s, payload) projection_ops \<Rightarrow> string \<Rightarrow> 's \<Rightarrow> parse_view \<Rightarrow> parse_view_selection \<Rightarrow> bool" where
  "grounded_selection ops ws s v sel \<longleftrightarrow> (\<exists>p g m c.
     stored_payload_of ops ws s (sel_generation_id sel) = Some p \<and>
     sp_generation p = Object g \<and> pg_status g = GenStable \<and>
     \<not> generation_outside_view ws v sel g \<and>
     map_of (object_map (sp_members p)) (sel_member_id sel) = Some (Object m) \<and>
     pm_region m = sel_region sel \<and> \<not> member_ungrounded ws v sel m \<and>
     Object c \<in> set (map snd (object_map (sp_commits p))) \<and> \<not> commit_outside ws g c \<and>
     sel_member_id sel \<in> set (pc_member_ids c))"

lemma committed_ids_Inr:
  "committed_ids ws g f = Inr ids \<longleftrightarrow> (\<exists>c. f = Object c \<and> validate_parse_generation_commit c = None \<and>
     \<not> commit_outside ws g c \<and> ids = pc_member_ids c)"
  by (cases f) (auto simp: committed_ids_def)

lemma map_of_object_map:
  "map_of kvs k = Some f \<Longrightarrow> f \<noteq> NotObject \<Longrightarrow> map_of (object_map (Some kvs)) k = Some f"
  by (induction kvs) (auto simp: object_map_def split: if_splits)

lemma check_selection_member_None:
  assumes "check_selection_member ws v sel members ids = None"
  shows "\<exists>m. map_of (object_map (Some members)) (sel_member_id sel) = Some (Object m) \<and>
    pm_region m = sel_region sel \<and> \<not> member_ungrounded ws v sel m \<and>
    sel_member_id sel \<in> set (concat ids)"
  using assms
  by (auto simp: check_selection_member_def map_of_object_map member_ungrounded_def
      split: option.splits field.splits sum.splits)

lemma check_selection_evidence_grounded:
  assumes "check_selection_evidence ops ws s v sel = None"
  shows "grounded_selection ops ws s v sel"
proof -
  from assms obtain row p members g commits ids where
    row: "get_named_projection ops s (state_namespace ws) (generation_key (sel_generation_id sel)) = Some row"
      "row_payload row = Mapping p" "sp_members p = Some members" "sp_generation p = Object g"
      "\<not> generation_outside_view ws v sel g" "sp_commits p = Some commits"
    and ids: "map_res (\<lambda>kv. committed_ids ws g (snd kv)) commits = Inr ids"
    and m: "check_selection_member ws v sel members ids = None"
    by (auto simp: check_selection_evidence_def generation_key_def
        split: option.splits payload.splits sum.splits if_splits)
  obtain c where c: "Object c \<in> set (map snd commits)" "\<not> commit_outside ws g c"
    "sel_member_id sel \<in> set (pc_member_ids c)"
    using check_selection_member_None [OF m] map_res_Inr_set [OF ids] by (force simp: committed_ids_Inr)
  from c(1) have "Object c \<in> set (map snd (object_map (sp_commits p)))"
    by (auto simp: row(6) object_map_def)
  with row c check_selection_member_None [OF m] stored_of_row(1) [OF row(1,2)] show ?thesis
    unfolding grounded_selection_def generation_outside_view_def by auto
qed

text \<open>C8: whatever view a reader obtains for a source is a valid view of that workspace and source, its
  selections do not overlap, and each of them is a member, with the selected region, of a stable
  generation of the same source revision, named by a stored commit of that generation.\<close>

theorem view_get_grounded:
  assumes "view_get ops ws s doc = Inr (Some v)"
  shows "validate_parse_view v = None \<and> pv_workspace_id v = ws \<and> pv_source_document_id v = doc \<and>
    (\<forall>sel\<in>set (pv_selections v). grounded_selection ops ws s v sel)"
proof -
  from assms have "validate_parse_view v = None" "pv_workspace_id v = ws" "pv_source_document_id v = doc"
    "validate_view_evidence ops ws s v = None"
    by (auto simp: view_get_def read_view_def split: option.splits payload.splits if_splits)
  then show ?thesis
    by (auto simp: validate_view_evidence_def intro: check_selection_evidence_grounded)
qed

definition example_stable_store :: "payload mem_store" where
  "example_stable_store = fst (generation_commit mem_ops (\<lambda>s. s) ''w'' [] (example_generation GenStable)
     (example_commit ''c1'' [''a'']) [example_member ''a'' None 0 9])"

definition example_active_view :: "int \<Rightarrow> parse_view" where
  "example_active_view n = \<lparr>pv_view_id = ''v'', pv_view_version = n, pv_workspace_id = ''w'',
     pv_source_document_id = ''d'', pv_source_revision_id = ''r'', pv_revision_document_id = ''rd'',
     pv_selections = [\<lparr>sel_member_id = ''a'', sel_generation_id = ''g'',
       sel_region = pm_region (example_member ''a'' None 0 9)\<rparr>],
     pv_predecessor_view_id = None, pv_status = ViewActive, pv_activated_at = 0\<rparr>"

definition example_views :: "payload mem_store" where
  "example_views = fst (view_activate mem_ops (\<lambda>s. s) ''w'' example_stable_store (example_active_view 1) None)"

lemma example_view_read: "view_get mem_ops ''w'' example_views ''d'' = Inr (Some (example_active_view 1))"
  by code_simp

theorem view_get_grounded_witness:
  "grounded_selection mem_ops ''w'' example_views (example_active_view 1) (hd (pv_selections (example_active_view 1)))"
  using view_get_grounded [OF example_view_read] by (simp add: example_active_view_def)

section \<open>Activation\<close>

lemma key_prefixes [simp]: "view_key doc \<noteq> generation_key gid" "generation_key gid \<noteq> view_key doc"
  by (simp_all add: view_key_def generation_key_def)

lemma check_selection_evidence_cong:
  assumes "\<And>gid. get_named_projection ops s' (state_namespace ws) (generation_key gid) =
      get_named_projection ops s (state_namespace ws) (generation_key gid)"
  shows "validate_view_evidence ops ws s' v = validate_view_evidence ops ws s v"
proof -
  have "check_selection_evidence ops ws s' v = check_selection_evidence ops ws s v"
    using assms by (simp add: check_selection_evidence_def fun_eq_iff generation_key_def)
  then show ?thesis by (simp add: validate_view_evidence_def)
qed

definition replaces_version :: "payload projection_row option \<Rightarrow> int option \<Rightarrow> int \<Rightarrow> bool" where
  "replaces_version row expected n \<longleftrightarrow> (case row of None \<Rightarrow> expected = None
     | Some r \<Rightarrow> (\<exists>cur. read_view (row_payload r) = Inr cur \<and> expected = Some (pv_view_version cur) \<and>
         pv_view_version cur < n))"

context parse_store
begin

lemma view_activate_swapped:
  assumes "invar s" "version_respecting ops invar env" "view_activate ops env ws s v expected = (s', Inr b)"
  shows "b" "validate_view_evidence ops ws s v = None" "pv_workspace_id v = ws" "invar s'"
    "replaces_version (get_named_projection ops s (state_namespace ws) (view_key (pv_source_document_id v)))
       expected (pv_view_version v)"
    "get_named_projection ops (env s) (state_namespace ws) (view_key (pv_source_document_id v)) =
     get_named_projection ops s (state_namespace ws) (view_key (pv_source_document_id v))"
    "get_named_projection ops s' ns k = (if ns = state_namespace ws \<and> k = view_key (pv_source_document_id v)
       then Some (new_row k (Mapping (empty_payload\<lparr>sp_view := Object v\<rparr>)) (pv_view_version v) (pv_view_version v))
       else get_named_projection ops (env s) ns k)"
proof -
  let ?ns = "state_namespace ws" and ?k = "view_key (pv_source_document_id v)"
  from assms(3) obtain ea em where e: "expected_view_sequences ops ws s v expected = Inr (ea, em)"
    and v: "validate_view_evidence ops ws s v = None" "pv_workspace_id v = ws" "b"
    and c: "cas_named_projection ops (env s) ?ns ?k (Mapping (empty_payload\<lparr>sp_view := Object v\<rparr>)) ea em
      (pv_view_version v) (pv_view_version v) = (s', True)"
    by (auto simp: view_activate_def split: option.splits sum.splits prod.splits bool.splits)
  show "b" "validate_view_evidence ops ws s v = None" "pv_workspace_id v = ws" by (fact v)+
  have i: "invar (env s)" using assms(1,2) version_respecting_invar by metis
  note sw = cas_swapped [OF i c]
  show "invar s'" by (rule sw(4))
  show "get_named_projection ops s' ns k = (if ns = ?ns \<and> k = ?k
       then Some (new_row k (Mapping (empty_payload\<lparr>sp_view := Object v\<rparr>)) (pv_view_version v) (pv_view_version v))
       else get_named_projection ops (env s) ns k)"
    using sw(2) sw(3) [of ns k] by auto
  show "replaces_version (get_named_projection ops s ?ns ?k) expected (pv_view_version v)"
    using e by (auto simp: expected_view_sequences_def replaces_version_def split: option.splits)
  show "get_named_projection ops (env s) ?ns ?k = get_named_projection ops s ?ns ?k"
  proof (cases "get_named_projection ops s ?ns ?k")
    case None
    with e sw(1) show ?thesis
      by (auto simp: expected_view_sequences_def cas_expects_def split: option.splits)
  next
    case (Some r)
    obtain x y where "row_authoritative_seq r = JInt x" "row_materialized_seq r = JInt y"
      using row_seqs [OF assms(1) Some] by blast
    with Some e sw(1) cas_found_same_row [OF assms(1,2) Some, of 0 0] show ?thesis
      by (auto simp: expected_view_sequences_def split: option.splits)
  qed
qed

end

text \<open>C31: a successful activation found, at the moment of the swap, the very row it had validated
  against: no view when none was expected, otherwise a view of exactly the expected version, which the
  new version exceeds. Every selection was grounded, and the activation changed nothing but the pointer
  of that source.\<close>

theorem view_activate_fenced:
  assumes "parse_store ops invar" "invar s" "version_respecting ops invar env"
    and "view_activate ops env ws s v expected = (s', Inr b)"
  shows "replaces_version (get_named_projection ops (env s) (state_namespace ws)
        (view_key (pv_source_document_id v))) expected (pv_view_version v) \<and>
    (\<forall>sel\<in>set (pv_selections v). grounded_selection ops ws s v sel) \<and>
    (\<forall>ns k. (ns, k) \<noteq> (state_namespace ws, view_key (pv_source_document_id v)) \<longrightarrow>
       get_named_projection ops s' ns k = get_named_projection ops (env s) ns k)"
  using parse_store.view_activate_swapped [OF assms]
  by (auto simp: validate_view_evidence_def intro: check_selection_evidence_grounded)

lemma example_activation:
  "view_activate mem_ops (\<lambda>s. s) ''w'' example_stable_store (example_active_view 1) None = (example_views, Inr True)"
proof -
  have "snd (view_activate mem_ops (\<lambda>s. s) ''w'' example_stable_store (example_active_view 1) None) = Inr True"
    by code_simp
  then show ?thesis by (simp add: example_views_def prod_eq_iff)
qed

lemma example_stable_store_invar: "mem_invar example_stable_store"
proof -
  have "snd (generation_commit mem_ops (\<lambda>s. s) ''w'' [] (example_generation GenStable)
     (example_commit ''c1'' [''a'']) [example_member ''a'' None 0 9]) = Inr 1" by code_simp
  then have "generation_commit mem_ops (\<lambda>s. s) ''w'' [] (example_generation GenStable)
     (example_commit ''c1'' [''a'']) [example_member ''a'' None 0 9] = (example_stable_store, Inr 1)"
    by (simp add: example_stable_store_def prod_eq_iff)
  from parse_mem.commit_outcome [OF mem_invar_Nil version_respecting_id this] show ?thesis by simp
qed

theorem view_activate_fenced_witness:
  "replaces_version (get_named_projection mem_ops example_stable_store (state_namespace ''w'')
      (view_key (pv_source_document_id (example_active_view 1)))) None (pv_view_version (example_active_view 1))"
  using view_activate_fenced [OF parse_mem.parse_store_axioms example_stable_store_invar
      version_respecting_id example_activation] by simp

text \<open>an activated view is the one readers get, provided its evidence still stands when the swap
  happens.\<close>

theorem view_activate_read_back:
  assumes "parse_store ops invar" "invar s" "version_respecting ops invar env"
    and "view_activate ops env ws s v expected = (s', Inr b)"
    and "validate_parse_view v = None" "validate_view_evidence ops ws (env s) v = None"
  shows "view_get ops ws s' (pv_source_document_id v) = Inr (Some v)"
proof -
  note w = parse_store.view_activate_swapped [OF assms(1-4)]
  have "validate_view_evidence ops ws s' v = validate_view_evidence ops ws (env s) v"
    by (rule check_selection_evidence_cong) (simp add: w(7))
  with assms(5,6) w show ?thesis
    by (simp add: view_get_def read_view_def model_validate_def)
qed

theorem view_activate_read_back_witness:
  "view_get mem_ops ''w'' example_views ''d'' = Inr (Some (example_active_view 1))"
proof -
  have "validate_parse_view (example_active_view 1) = None"
    "validate_view_evidence mem_ops ''w'' example_stable_store (example_active_view 1) = None" by code_simp+
  from view_activate_read_back [OF parse_mem.parse_store_axioms example_stable_store_invar
      version_respecting_id example_activation this]
  show ?thesis by (simp add: example_view_def example_active_view_def)
qed

section \<open>Visibility\<close>

text \<open>C5: an artifact written for a generation member is visible only through an active view: if the
  resolver accepts an artifact that names a member, the source has an active view that selects this
  member, the member is committed evidence of a stable generation, and the revision the artifact
  carries, if it carries one, is the revision of the view. Derivations of an unfinished or replaced
  parse are never visible.\<close>

theorem visible_member_committed:
  assumes "is_active_metadata stable_id ops ws s doc md fallback = Inr True" "artifact_member md \<noteq> []"
  shows "\<exists>v sel. view_get ops ws s doc = Inr (Some v) \<and> sel \<in> set (pv_selections v) \<and>
    sel_member_id sel = artifact_member md \<and> grounded_selection ops ws s v sel \<and>
    (artifact_revision md = [] \<or> pv_revision_document_id v = [] \<or>
     artifact_revision md = pv_revision_document_id v)"
proof -
  from assms obtain v sel where v: "view_get ops ws s doc = Inr (Some v)" "sel \<in> set (pv_selections v)"
    "sel_member_id sel = artifact_member md"
    "artifact_revision md = [] \<or> pv_revision_document_id v = [] \<or> artifact_revision md = pv_revision_document_id v"
    by (auto simp: is_active_metadata_def resolve_view_def split: option.splits if_splits)
  from v(1) have "validate_view_evidence ops ws s v = None"
    by (auto simp: view_get_def split: option.splits if_splits)
  with v(2) have "grounded_selection ops ws s v sel"
    by (auto simp: validate_view_evidence_def intro: check_selection_evidence_grounded)
  with v show ?thesis by blast
qed

theorem visible_member_committed_witness:
  "\<exists>v sel. view_get mem_ops ''w'' example_views ''d'' = Inr (Some v) \<and> sel \<in> set (pv_selections v) \<and>
     sel_member_id sel = ''a''"
proof -
  let ?md = "[(''member_id'', JStr ''a''), (''source_revision_document_id'', JStr ''rd'')]"
  have v: "is_active_metadata concat mem_ops ''w'' example_views ''d'' ?md None = Inr True" by code_simp
  have a: "artifact_member ?md = ''a''" by code_simp
  then have "artifact_member ?md \<noteq> []" by simp
  from visible_member_committed [OF v this] a show ?thesis by auto
qed

end
