(* ===== verification/Patch_Model.thy ===== *)
theory Patch_Model
  imports Wiki_Prelude
begin

text \<open>
  Maintenance patches and their validation (maintenance/maintenance\_patches.py and
  maintenance/maintenance\_status.py). A patch is a list of graph operations with an intent and a
  scope; \<open>validate_maintenance_patch\<close> collects every issue of every operation in the order of the
  source. The two pointer functions of Kogwistar that the validation calls are the fields of
  \<open>pointer_utils\<close>: whether a pointer carries a character span, and the validated span or the
  message of \<^verbatim>\<open>SourcePointerValidationError\<close>.
\<close>

section \<open>Definitions\<close>

datatype maintenance_intent =
    SEED_DOCUMENT | SPLIT_NODE | MERGE_NODES | CORRECT_FACT | DERIVE_SUMMARY | DERIVE_ENTITY
  | DERIVE_CROSSLINK_CANDIDATE | ADD_CROSSLINK | RETRACT_CROSSLINK | REFRESH_SUMMARY
  | PROMOTE_CANDIDATE | RETRACT_PROMOTION | DISTILL_TO_WISDOM | INTENT_REQUEST_REVIEW

fun intent_value :: "maintenance_intent \<Rightarrow> string" where
  "intent_value SEED_DOCUMENT = ''seed_document''"
| "intent_value SPLIT_NODE = ''split_node''"
| "intent_value MERGE_NODES = ''merge_nodes''"
| "intent_value CORRECT_FACT = ''correct_fact''"
| "intent_value DERIVE_SUMMARY = ''derive_summary''"
| "intent_value DERIVE_ENTITY = ''derive_entity''"
| "intent_value DERIVE_CROSSLINK_CANDIDATE = ''derive_crosslink_candidate''"
| "intent_value ADD_CROSSLINK = ''add_crosslink''"
| "intent_value RETRACT_CROSSLINK = ''retract_crosslink''"
| "intent_value REFRESH_SUMMARY = ''refresh_summary''"
| "intent_value PROMOTE_CANDIDATE = ''promote_candidate''"
| "intent_value RETRACT_PROMOTION = ''retract_promotion''"
| "intent_value DISTILL_TO_WISDOM = ''distill_to_wisdom''"
| "intent_value INTENT_REQUEST_REVIEW = ''request_review''"

datatype operation_kind =
    ADD_NODE | ADD_EDGE | TOMBSTONE_NODE | TOMBSTONE_EDGE | REQUEST_REVIEW | NOOP

fun kind_value :: "operation_kind \<Rightarrow> string" where
  "kind_value ADD_NODE = ''ADD_NODE''"
| "kind_value ADD_EDGE = ''ADD_EDGE''"
| "kind_value TOMBSTONE_NODE = ''TOMBSTONE_NODE''"
| "kind_value TOMBSTONE_EDGE = ''TOMBSTONE_EDGE''"
| "kind_value REQUEST_REVIEW = ''REQUEST_REVIEW''"
| "kind_value NOOP = ''NOOP''"

datatype patch_status =
    PROPOSED | VALIDATED | PARTIALLY_ACCEPTED | APPLIED | REJECTED | NEEDS_REVIEW | RETRACTED

fun status_value :: "patch_status \<Rightarrow> string" where
  "status_value PROPOSED = ''proposed''"
| "status_value VALIDATED = ''validated''"
| "status_value PARTIALLY_ACCEPTED = ''partially_accepted''"
| "status_value APPLIED = ''applied''"
| "status_value REJECTED = ''rejected''"
| "status_value NEEDS_REVIEW = ''needs_review''"
| "status_value RETRACTED = ''retracted''"

datatype scope_kind = ScopeWorkspace | ScopeConversation | ScopeThread

fun scope_kind_value :: "scope_kind \<Rightarrow> string" where
  "scope_kind_value ScopeWorkspace = ''workspace''"
| "scope_kind_value ScopeConversation = ''conversation''"
| "scope_kind_value ScopeThread = ''thread''"

text \<open>Truth, \<^verbatim>\<open>or\<close> and \<^verbatim>\<open>str\<close> on an optional string.\<close>

definition opt_truthy :: "string option \<Rightarrow> bool" where
  "opt_truthy v \<longleftrightarrow> v \<noteq> None \<and> v \<noteq> Some []"

definition opt_or :: "string option \<Rightarrow> string option \<Rightarrow> string option" where
  "opt_or a b = (if opt_truthy a then a else b)"

definition py_str_opt :: "string option \<Rightarrow> string" where
  "py_str_opt v = (case v of None \<Rightarrow> ''None'' | Some s \<Rightarrow> s)"

record maintenance_scope =
  sc_workspace_id :: string
  sc_scope_kind :: scope_kind
  sc_conversation_id :: "string option"
  sc_thread_id :: "string option"

definition validate_scope :: "maintenance_scope \<Rightarrow> check" where
  "validate_scope sc = checks
     [raise_if (sc_scope_kind sc = ScopeConversation \<and> \<not> opt_truthy (sc_conversation_id sc))
        (ValueError ''conversation scope requires conversation_id''),
      raise_if (sc_scope_kind sc = ScopeThread \<and> \<not> opt_truthy (sc_thread_id sc))
        (ValueError ''thread scope requires thread_id'')]"

record maintenance_provenance =
  mp_source_document_id :: "string option"
  mp_source_span_ids :: "string list"
  mp_source_pointers :: "json_object list"
  mp_maintenance_run_id :: string
  mp_confidence :: pyfloat

definition validate_provenance :: "maintenance_provenance \<Rightarrow> check" where
  "validate_provenance p = checks
     [raise_if (fl_val (mp_confidence p) < 0 \<or> 1 < fl_val (mp_confidence p)) (ValueError ''confidence''),
      raise_if (\<not> opt_truthy (mp_source_document_id p) \<and> mp_source_span_ids p = [] \<and>
          mp_source_pointers p = [])
        (ValueError ''provenance requires source_document_id, source_span_ids, or source_pointers'')]"

record patch_operation =
  op_operation_id :: string
  op_kind :: operation_kind
  op_target_id :: "string option"
  op_node_id :: "string option"
  op_edge_id :: "string option"
  op_from_node_id :: "string option"
  op_to_node_id :: "string option"
  op_relation :: "string option"
  op_label :: "string option"
  op_node_type :: "string option"
  op_properties :: json_object
  op_supersedes_ids :: "string list"
  op_provenance :: "maintenance_provenance option"
  op_reason :: "string option"

definition shape_matches_kind :: "patch_operation \<Rightarrow> check" where
  "shape_matches_kind op = (case op_kind op of
       ADD_NODE \<Rightarrow> raise_if (\<not> opt_truthy (op_node_id op)) (ValueError ''ADD_NODE requires node_id'')
     | ADD_EDGE \<Rightarrow> raise_if (\<not> opt_truthy (op_edge_id op) \<or> \<not> opt_truthy (op_from_node_id op) \<or>
           \<not> opt_truthy (op_to_node_id op) \<or> \<not> opt_truthy (op_relation op))
         (ValueError ''ADD_EDGE requires edge_id, from_node_id, to_node_id, and relation'')
     | TOMBSTONE_NODE \<Rightarrow> raise_if (\<not> opt_truthy (opt_or (op_target_id op) (op_node_id op)))
         (ValueError ''TOMBSTONE_NODE requires target_id or node_id'')
     | TOMBSTONE_EDGE \<Rightarrow> raise_if (\<not> opt_truthy (opt_or (op_target_id op) (op_edge_id op)))
         (ValueError ''TOMBSTONE_EDGE requires target_id or edge_id'')
     | REQUEST_REVIEW \<Rightarrow> raise_if (\<not> opt_truthy (op_reason op)) (ValueError ''REQUEST_REVIEW requires reason'')
     | NOOP \<Rightarrow> None)"

definition validate_operation :: "patch_operation \<Rightarrow> check" where
  "validate_operation op = checks
     [case op_provenance op of None \<Rightarrow> None | Some p \<Rightarrow> validate_provenance p, shape_matches_kind op]"

definition created_node_id :: "patch_operation \<Rightarrow> string option" where
  "created_node_id op = (if op_kind op = ADD_NODE then op_node_id op else None)"

definition created_edge_id :: "patch_operation \<Rightarrow> string option" where
  "created_edge_id op = (if op_kind op = ADD_EDGE then op_edge_id op else None)"

definition tombstone_target_id :: "patch_operation \<Rightarrow> string option" where
  "tombstone_target_id op = (case op_kind op of
       TOMBSTONE_NODE \<Rightarrow> opt_or (op_target_id op) (op_node_id op)
     | TOMBSTONE_EDGE \<Rightarrow> opt_or (op_target_id op) (op_edge_id op)
     | _ \<Rightarrow> None)"

record maintenance_patch =
  mp_patch_id :: string
  mp_intent :: maintenance_intent
  mp_scope :: maintenance_scope
  mp_operations :: "patch_operation list"
  mp_status :: patch_status
  mp_rationale :: "string option"
  mp_requires_atomic_group :: bool

definition validate_patch_model :: "maintenance_patch \<Rightarrow> check" where
  "validate_patch_model p = checks
     [validate_scope (mp_scope p), first_error validate_operation (mp_operations p),
      raise_if (mp_operations p = []) (ValueError ''MaintenancePatch requires at least one operation'')]"

definition requires_atomic_replacement :: "maintenance_patch \<Rightarrow> bool" where
  "requires_atomic_replacement p \<longleftrightarrow>
     mp_requires_atomic_group p \<or> (\<exists>op\<in>set (mp_operations p). op_supersedes_ids op \<noteq> [])"

record validation_issue =
  vi_operation_id :: "string option"
  vi_code :: string
  vi_message :: string

record validation_report =
  vr_valid :: bool
  vr_issues :: "validation_issue list"

record validated_pointer =
  vp_start_char :: int
  vp_end_char :: int
  vp_text :: "string option"

record pointer_utils =
  has_character_span :: "json_object \<Rightarrow> bool"
  validate_pointer :: "json_object \<Rightarrow> string + validated_pointer"

definition pointer_document :: "json_object \<Rightarrow> string list" where
  "pointer_document ptr = (case json_or (jget ptr ''doc_id'') (jget ptr ''source_document_id'') of
       JStr d \<Rightarrow> (if py_strip d \<noteq> [] then [py_strip d] else [])
     | _ \<Rightarrow> [])"

definition side_document :: "patch_operation \<Rightarrow> string \<Rightarrow> string list" where
  "side_document op key = (case jget (op_properties op) key of
       JStr d \<Rightarrow> (if py_strip d \<noteq> [] then [py_strip d] else []) | _ \<Rightarrow> [])"

definition evidence_document_ids :: "patch_operation \<Rightarrow> string set" where
  "evidence_document_ids op = (case op_provenance op of None \<Rightarrow> {}
     | Some p \<Rightarrow> set ((if opt_truthy (mp_source_document_id p) then [opt_str (mp_source_document_id p)] else [])
         @ concat (map pointer_document (mp_source_pointers p))
         @ concat (map (side_document op) [''left_source_document_id'', ''right_source_document_id''])))"

definition is_crosslink_intent :: "maintenance_intent \<Rightarrow> bool" where
  "is_crosslink_intent i \<longleftrightarrow> i \<in> {DERIVE_CROSSLINK_CANDIDATE, ADD_CROSSLINK, RETRACT_CROSSLINK}"

subsection \<open>Validation\<close>

definition issue :: "patch_operation \<Rightarrow> string \<Rightarrow> string \<Rightarrow> validation_issue" where
  "issue op code msg = \<lparr>vi_operation_id = Some (op_operation_id op), vi_code = code, vi_message = msg\<rparr>"

definition issue_if :: "bool \<Rightarrow> patch_operation \<Rightarrow> string \<Rightarrow> string \<Rightarrow> validation_issue list" where
  "issue_if b op code msg = (if b then [issue op code msg] else [])"

definition pointer_label :: "nat \<Rightarrow> string" where
  "pointer_label n = ''source_pointers['' @ nat_str n @ '']''"

definition pointer_issue ::
    "pointer_utils \<Rightarrow> maintenance_intent \<Rightarrow> patch_operation \<Rightarrow> nat \<times> json_object \<Rightarrow> validation_issue list" where
  "pointer_issue pu intent op ip = (case ip of (n, ptr) \<Rightarrow>
     if \<not> has_character_span pu ptr
     then issue_if (is_crosslink_intent intent) op ''missing_crosslink_character_span''
            (pointer_label n @ '' cross-link evidence requires a character span'')
     else (case validate_pointer pu ptr of
       Inl msg \<Rightarrow> [issue op ''invalid_source_pointer'' (pointer_label n @ '' '' @ msg)]
     | Inr _ \<Rightarrow> []))"

definition pointer_issues ::
    "pointer_utils \<Rightarrow> maintenance_intent \<Rightarrow> patch_operation \<Rightarrow> validation_issue list" where
  "pointer_issues pu intent op = (case op_provenance op of None \<Rightarrow> []
     | Some p \<Rightarrow> concat (map (pointer_issue pu intent op) (enumerate 0 (mp_source_pointers p))))"

definition created_id :: "patch_operation \<Rightarrow> string option" where
  "created_id op = opt_or (created_node_id op) (created_edge_id op)"

definition created_issues ::
    "string option \<Rightarrow> string list \<Rightarrow> patch_operation \<Rightarrow> validation_issue list" where
  "created_issues prefix seen op = (case created_id op of None \<Rightarrow> []
     | Some i \<Rightarrow> if i = [] then [] else
         issue_if (i \<in> set seen) op ''duplicate_created_id''
           ''created node or edge ids must be unique within a patch''
         @ issue_if (opt_truthy prefix \<and> \<not> py_startswith i (opt_str prefix)) op ''namespace_scope_violation''
           (''created id must start with namespace prefix '' @ repr_string (opt_str prefix)))"

definition graph_changing :: "operation_kind \<Rightarrow> bool" where
  "graph_changing k \<longleftrightarrow> k \<in> {ADD_NODE, ADD_EDGE, TOMBSTONE_NODE, TOMBSTONE_EDGE}"

text \<open>The literals 0.5 and 0.8 of the source: the second is the nearest double.\<close>

definition expected_crosslink_status :: "maintenance_intent \<Rightarrow> string" where
  "expected_crosslink_status i = (if i = DERIVE_CROSSLINK_CANDIDATE then ''candidate'' else ''accepted'')"

definition min_confidence :: "maintenance_intent \<Rightarrow> rat" where
  "min_confidence i = (if i = DERIVE_CROSSLINK_CANDIDATE then 1 / 2
     else 3602879701896397 / 4503599627370496)"

definition min_confidence_text :: "maintenance_intent \<Rightarrow> string" where
  "min_confidence_text i = (if i = DERIVE_CROSSLINK_CANDIDATE then ''0.5'' else ''0.8'')"

definition operation_confidence :: "patch_operation \<Rightarrow> rat" where
  "operation_confidence op = (case op_provenance op of None \<Rightarrow> 0 | Some p \<Rightarrow> fl_val (mp_confidence p))"

definition crosslink_edge_issues :: "maintenance_intent \<Rightarrow> patch_operation \<Rightarrow> validation_issue list" where
  "crosslink_edge_issues intent op =
     issue_if (jget (op_properties op) ''crosslink_status'' \<noteq> JStr (expected_crosslink_status intent)) op
       ''invalid_crosslink_status''
       (''cross-link ADD_EDGE must declare crosslink_status='' @ repr_string (expected_crosslink_status intent))
     @ issue_if (card (evidence_document_ids op) < 2) op ''missing_crosslink_two_sided_evidence''
       ''cross-link ADD_EDGE requires source evidence from both linked documents''
     @ issue_if (operation_confidence op < min_confidence intent) op ''crosslink_confidence_below_threshold''
       (''cross-link confidence must be at least '' @ min_confidence_text intent)"

definition edge_issues ::
    "maintenance_intent \<Rightarrow> string set \<Rightarrow> patch_operation \<Rightarrow> validation_issue list" where
  "edge_issues intent known_nodes op = (if op_kind op \<noteq> ADD_EDGE then [] else
     issue_if (py_str_opt (op_from_node_id op) \<notin> known_nodes) op ''missing_edge_endpoint''
       ''ADD_EDGE from_node_id must reference an active or same-patch node''
     @ issue_if (py_str_opt (op_to_node_id op) \<notin> known_nodes) op ''missing_edge_endpoint''
       ''ADD_EDGE to_node_id must reference an active or same-patch node''
     @ (if is_crosslink_intent intent then crosslink_edge_issues intent op else []))"

definition in_ids :: "string option \<Rightarrow> string set \<Rightarrow> bool" where
  "in_ids v ids = (case v of None \<Rightarrow> False | Some i \<Rightarrow> i \<in> ids)"

definition tombstone_issues ::
    "maintenance_intent \<Rightarrow> string set \<Rightarrow> string set \<Rightarrow> patch_operation \<Rightarrow> validation_issue list" where
  "tombstone_issues intent nodes edges op =
     issue_if (intent = RETRACT_CROSSLINK \<and> op_kind op = TOMBSTONE_EDGE \<and> py_strip (opt_str (op_reason op)) = [])
       op ''missing_retraction_reason'' ''cross-link retractions must record why the edge is stale or incorrect''
     @ issue_if (op_kind op = TOMBSTONE_NODE \<and> \<not> in_ids (tombstone_target_id op) nodes) op
       ''missing_tombstone_target'' ''TOMBSTONE_NODE target must reference an active node''
     @ issue_if (op_kind op = TOMBSTONE_EDGE \<and> \<not> in_ids (tombstone_target_id op) edges) op
       ''missing_tombstone_target'' ''TOMBSTONE_EDGE target must reference an active edge''"

definition supersession_issues ::
    "string set \<Rightarrow> string set \<Rightarrow> patch_operation \<Rightarrow> validation_issue list" where
  "supersession_issues known tombstoned op =
     issue_if (op_supersedes_ids op \<noteq> [] \<and> op_kind op \<noteq> ADD_NODE \<and> op_kind op \<noteq> ADD_EDGE) op
       ''invalid_supersession'' ''supersedes_ids must be declared on replacement ADD_NODE or ADD_EDGE operations''
     @ concat (map (\<lambda>i.
         issue_if (i \<notin> known) op ''missing_supersession_target''
           ''supersedes_ids must reference an active or same-patch graph object''
         @ issue_if (i \<notin> tombstoned) op ''unpaired_supersession''
           ''replacement operations must be paired with a tombstone for each superseded id'')
       (op_supersedes_ids op))"

text \<open>The identifiers a patch creates and tombstones, as the sets the validator builds first.\<close>

definition truthy_ids :: "string option list \<Rightarrow> string set" where
  "truthy_ids xs = set (map opt_str (filter opt_truthy xs))"

definition created_nodes :: "maintenance_patch \<Rightarrow> string set" where
  "created_nodes p = truthy_ids (map created_node_id (mp_operations p))"

definition created_edges :: "maintenance_patch \<Rightarrow> string set" where
  "created_edges p = truthy_ids (map created_edge_id (mp_operations p))"

definition tombstoned_ids :: "maintenance_patch \<Rightarrow> string set" where
  "tombstoned_ids p = truthy_ids (map tombstone_target_id (mp_operations p))"

record validation_context =
  vc_nodes :: "string set"
  vc_edges :: "string set"
  vc_prefix :: "string option"

definition operation_issues ::
    "pointer_utils \<Rightarrow> maintenance_patch \<Rightarrow> validation_context \<Rightarrow> string list \<Rightarrow> string list \<Rightarrow>
     patch_operation \<Rightarrow> validation_issue list" where
  "operation_issues pu p vc seen_ops seen_created op =
     issue_if (op_operation_id op \<in> set seen_ops) op ''duplicate_operation_id''
       ''operation_id must be unique within a patch''
     @ pointer_issues pu (mp_intent p) op
     @ created_issues (vc_prefix vc) seen_created op
     @ issue_if (graph_changing (op_kind op) \<and> op_provenance op = None) op ''missing_provenance''
       ''graph-changing operations require provenance''
     @ edge_issues (mp_intent p) (vc_nodes vc \<union> created_nodes p) op
     @ tombstone_issues (mp_intent p) (vc_nodes vc) (vc_edges vc) op
     @ supersession_issues (vc_nodes vc \<union> vc_edges vc \<union> created_nodes p \<union> created_edges p) (tombstoned_ids p) op"

fun issues_loop ::
    "pointer_utils \<Rightarrow> maintenance_patch \<Rightarrow> validation_context \<Rightarrow> string list \<Rightarrow> string list \<Rightarrow>
     patch_operation list \<Rightarrow> validation_issue list" where
  "issues_loop pu p vc seen_ops seen_created [] = []"
| "issues_loop pu p vc seen_ops seen_created (op # ops) =
     operation_issues pu p vc seen_ops seen_created op
     @ issues_loop pu p vc (op_operation_id op # seen_ops)
         (if opt_truthy (created_id op) then opt_str (created_id op) # seen_created else seen_created) ops"

definition validate_maintenance_patch ::
    "pointer_utils \<Rightarrow> maintenance_patch \<Rightarrow> validation_context \<Rightarrow> validation_report" where
  "validate_maintenance_patch pu p vc = (let issues = issues_loop pu p vc [] [] (mp_operations p)
     in \<lparr>vr_valid = (issues = []), vr_issues = issues\<rparr>)"

definition validate_maintenance_patch_payload ::
    "pointer_utils \<Rightarrow> maintenance_patch \<Rightarrow> validation_context \<Rightarrow> validation_report result" where
  "validate_maintenance_patch_payload pu p vc =
     check_then (validate_patch_model p) (Inr (validate_maintenance_patch pu p vc))"

subsection \<open>Graph status\<close>

datatype document_graph_status = GsSeeded | GsExpanding | GsNeedsReview | GsStable | GsStale | GsSuperseded

fun graph_status_value :: "document_graph_status \<Rightarrow> string" where
  "graph_status_value GsSeeded = ''seeded''"
| "graph_status_value GsExpanding = ''expanding''"
| "graph_status_value GsNeedsReview = ''needs_review''"
| "graph_status_value GsStable = ''stable''"
| "graph_status_value GsStale = ''stale''"
| "graph_status_value GsSuperseded = ''superseded''"

definition graph_status_for_patch :: "patch_status \<Rightarrow> maintenance_intent \<Rightarrow> document_graph_status" where
  "graph_status_for_patch st intent =
     (if st \<in> {REJECTED, NEEDS_REVIEW} then GsNeedsReview
      else if st = RETRACTED then GsStale
      else if intent \<in> {MERGE_NODES, CORRECT_FACT, REFRESH_SUMMARY} then GsSuperseded
      else if intent \<in> {SPLIT_NODE, DERIVE_ENTITY, DERIVE_SUMMARY, DERIVE_CROSSLINK_CANDIDATE} then GsExpanding
      else if intent = SEED_DOCUMENT then GsSeeded
      else GsStable)"

section \<open>What a valid report guarantees\<close>

definition pointer_well_formed :: "pointer_utils \<Rightarrow> maintenance_intent \<Rightarrow> json_object \<Rightarrow> bool" where
  "pointer_well_formed pu intent ptr \<longleftrightarrow>
     (if has_character_span pu ptr then (\<exists>v. validate_pointer pu ptr = Inr v) else \<not> is_crosslink_intent intent)"

definition crosslink_well_formed :: "maintenance_intent \<Rightarrow> patch_operation \<Rightarrow> bool" where
  "crosslink_well_formed intent op \<longleftrightarrow>
     jget (op_properties op) ''crosslink_status'' = JStr (expected_crosslink_status intent) \<and>
     2 \<le> card (evidence_document_ids op) \<and> min_confidence intent \<le> operation_confidence op"

text \<open>The specification of one operation: what it refers to exists, what it changes is grounded, what
  it replaces is tombstoned by the same patch.\<close>

definition well_formed_operation ::
    "pointer_utils \<Rightarrow> maintenance_patch \<Rightarrow> validation_context \<Rightarrow> patch_operation \<Rightarrow> bool" where
  "well_formed_operation pu p vc op \<longleftrightarrow>
     (\<forall>pr. op_provenance op = Some pr \<longrightarrow>
        (\<forall>ptr\<in>set (mp_source_pointers pr). pointer_well_formed pu (mp_intent p) ptr)) \<and>
     (\<forall>i. created_id op = Some i \<longrightarrow> i \<noteq> [] \<longrightarrow> opt_truthy (vc_prefix vc) \<longrightarrow>
        py_startswith i (opt_str (vc_prefix vc))) \<and>
     (graph_changing (op_kind op) \<longrightarrow> op_provenance op \<noteq> None) \<and>
     (op_kind op = ADD_EDGE \<longrightarrow>
        {py_str_opt (op_from_node_id op), py_str_opt (op_to_node_id op)} \<subseteq> vc_nodes vc \<union> created_nodes p \<and>
        (is_crosslink_intent (mp_intent p) \<longrightarrow> crosslink_well_formed (mp_intent p) op)) \<and>
     (op_kind op = TOMBSTONE_NODE \<longrightarrow> in_ids (tombstone_target_id op) (vc_nodes vc)) \<and>
     (op_kind op = TOMBSTONE_EDGE \<longrightarrow> in_ids (tombstone_target_id op) (vc_edges vc) \<and>
        (mp_intent p = RETRACT_CROSSLINK \<longrightarrow> py_strip (opt_str (op_reason op)) \<noteq> [])) \<and>
     (op_supersedes_ids op \<noteq> [] \<longrightarrow> op_kind op = ADD_NODE \<or> op_kind op = ADD_EDGE) \<and>
     set (op_supersedes_ids op) \<subseteq>
       (vc_nodes vc \<union> vc_edges vc \<union> created_nodes p \<union> created_edges p) \<inter> tombstoned_ids p"

definition created_ids :: "patch_operation list \<Rightarrow> string list" where
  "created_ids ops = map opt_str (filter opt_truthy (map created_id ops))"

lemma issue_if_Nil [simp]: "issue_if b op c m = [] \<longleftrightarrow> \<not> b"
  by (simp add: issue_if_def)

lemma pointer_issues_Nil:
  "pointer_issues pu intent op = [] \<longleftrightarrow> (\<forall>pr. op_provenance op = Some pr \<longrightarrow>
     (\<forall>ptr\<in>set (mp_source_pointers pr). pointer_well_formed pu intent ptr))"
proof -
  have e: "(\<forall>ip\<in>set (enumerate n xs). P (snd ip)) \<longleftrightarrow> (\<forall>x\<in>set xs. P x)" for n P and xs :: "'a list"
    by (induction xs arbitrary: n) auto
  have "pointer_issue pu intent op ip = [] \<longleftrightarrow> pointer_well_formed pu intent (snd ip)" for ip
    by (simp add: pointer_issue_def pointer_well_formed_def split: prod.split sum.split)
  then show ?thesis
    by (simp add: pointer_issues_def e split: option.split)
qed

lemma created_issues_Nil:
  "created_issues prefix seen op = [] \<longleftrightarrow>
     (opt_truthy (created_id op) \<longrightarrow> opt_str (created_id op) \<notin> set seen) \<and>
     (\<forall>i. created_id op = Some i \<longrightarrow> i \<noteq> [] \<longrightarrow> opt_truthy prefix \<longrightarrow> py_startswith i (opt_str prefix))"
  by (cases "created_id op") (auto simp: created_issues_def opt_truthy_def opt_str_def)

lemma tombstone_issues_Nil:
  "tombstone_issues intent nodes edges op = [] \<longleftrightarrow>
     (op_kind op = TOMBSTONE_NODE \<longrightarrow> in_ids (tombstone_target_id op) nodes) \<and>
     (op_kind op = TOMBSTONE_EDGE \<longrightarrow> in_ids (tombstone_target_id op) edges \<and>
        (intent = RETRACT_CROSSLINK \<longrightarrow> py_strip (opt_str (op_reason op)) \<noteq> []))"
  by (auto simp: tombstone_issues_def)

lemma edge_issues_Nil:
  "edge_issues intent known op = [] \<longleftrightarrow> (op_kind op = ADD_EDGE \<longrightarrow>
     {py_str_opt (op_from_node_id op), py_str_opt (op_to_node_id op)} \<subseteq> known \<and>
     (is_crosslink_intent intent \<longrightarrow> crosslink_well_formed intent op))"
  by (auto simp: edge_issues_def crosslink_edge_issues_def crosslink_well_formed_def not_less)

lemma supersession_issues_Nil:
  "supersession_issues known tombstoned op = [] \<longleftrightarrow>
     (op_supersedes_ids op \<noteq> [] \<longrightarrow> op_kind op = ADD_NODE \<or> op_kind op = ADD_EDGE) \<and>
     set (op_supersedes_ids op) \<subseteq> known \<inter> tombstoned"
  by (auto simp: supersession_issues_def)

lemma operation_issues_Nil:
  "operation_issues pu p vc so sc op = [] \<longleftrightarrow> well_formed_operation pu p vc op \<and>
     op_operation_id op \<notin> set so \<and> (opt_truthy (created_id op) \<longrightarrow> opt_str (created_id op) \<notin> set sc)"
proof -
  have n: "\<not> (graph_changing k \<and> v = None) \<longleftrightarrow> (graph_changing k \<longrightarrow> v \<noteq> None)" for k v by simp
  show ?thesis
    unfolding operation_issues_def well_formed_operation_def append_is_Nil_conv issue_if_Nil n
      pointer_issues_Nil created_issues_Nil edge_issues_Nil tombstone_issues_Nil supersession_issues_Nil
    by (simp only: conj_ac)
qed

lemma issues_loop_Nil:
  "issues_loop pu p vc so sc ops = [] \<longleftrightarrow> (\<forall>op\<in>set ops. well_formed_operation pu p vc op) \<and>
     distinct (map op_operation_id ops) \<and> op_operation_id ` set ops \<inter> set so = {} \<and>
     distinct (created_ids ops) \<and> set (created_ids ops) \<inter> set sc = {}"
proof (induction ops arbitrary: so sc)
  case Nil
  then show ?case by (simp add: created_ids_def)
next
  case (Cons op ops)
  have s: "created_ids (op # ops) =
      (if opt_truthy (created_id op) then opt_str (created_id op) # created_ids ops else created_ids ops)"
    by (simp add: created_ids_def)
  show ?case
    by (cases "opt_truthy (created_id op)")
      (auto simp: s Cons.IH operation_issues_Nil)
qed

lemma validate_maintenance_patch_valid:
  "vr_valid (validate_maintenance_patch pu p vc) \<longleftrightarrow>
     (\<forall>op\<in>set (mp_operations p). well_formed_operation pu p vc op) \<and>
     distinct (map op_operation_id (mp_operations p)) \<and> distinct (created_ids (mp_operations p))"
  by (simp add: validate_maintenance_patch_def issues_loop_Nil)

text \<open>C7: a patch validates exactly when its operation ids and its created ids are unique and every
  operation is well formed: grounded, within the namespace prefix, with existing endpoints and active
  tombstone targets, with every superseded id known and tombstoned by the same patch, and, for a
  cross-link, with the right status, evidence from two documents and enough confidence.\<close>

theorem patch_valid_iff:
  "vr_valid (validate_maintenance_patch pu p vc) = (vr_issues (validate_maintenance_patch pu p vc) = []) \<and>
   vr_valid (validate_maintenance_patch pu p vc) =
     ((\<forall>op\<in>set (mp_operations p). well_formed_operation pu p vc op) \<and>
      distinct (map op_operation_id (mp_operations p)) \<and> distinct (created_ids (mp_operations p)))"
  by (simp add: validate_maintenance_patch_valid) (simp add: validate_maintenance_patch_def Let_def issues_loop_Nil)

text \<open>The order in which a patch lists its operations does not decide whether it is valid: an edge
  may come before the node it needs, a replacement before the tombstone it is paired with.\<close>

theorem patch_validity_order_independent:
  assumes "mset ops = mset (mp_operations p)"
  shows "vr_valid (validate_maintenance_patch pu (p\<lparr>mp_operations := ops\<rparr>) vc) =
    vr_valid (validate_maintenance_patch pu p vc)"
proof -
  let ?q = "p\<lparr>mp_operations := ops\<rparr>"
  have s: "set ops = set (mp_operations p)" using assms by (metis set_mset_mset)
  have ids: "created_nodes ?q = created_nodes p" "created_edges ?q = created_edges p"
    "tombstoned_ids ?q = tombstoned_ids p"
    by (simp_all add: created_nodes_def created_edges_def tombstoned_ids_def truthy_ids_def s)
  have wf: "well_formed_operation pu ?q vc op = well_formed_operation pu p vc op" for op
    by (simp add: well_formed_operation_def ids)
  have "mset (created_ids ops) = mset (created_ids (mp_operations p))"
    using assms by (simp add: created_ids_def mset_filter [symmetric] flip: mset_map) (simp add: mset_filter)
  then have d: "distinct (created_ids ops) = distinct (created_ids (mp_operations p))"
    by (rule mset_eq_imp_distinct_iff)
  have "distinct (map op_operation_id ops) = distinct (map op_operation_id (mp_operations p))"
    using assms by (intro mset_eq_imp_distinct_iff) (simp add: mset_map)
  then show ?thesis by (simp add: validate_maintenance_patch_valid wf s d)
qed

definition no_pointers :: pointer_utils where
  "no_pointers = \<lparr>has_character_span = (\<lambda>_. False), validate_pointer = (\<lambda>_. Inl [])\<rparr>"

definition example_op :: "string \<Rightarrow> operation_kind \<Rightarrow> string option \<Rightarrow> string option \<Rightarrow> patch_operation" where
  "example_op i k node edge = \<lparr>op_operation_id = i, op_kind = k, op_target_id = None, op_node_id = node,
     op_edge_id = edge, op_from_node_id = Some ''n'', op_to_node_id = Some ''m'', op_relation = Some ''r'',
     op_label = None, op_node_type = None, op_properties = [], op_supersedes_ids = [],
     op_provenance = Some \<lparr>mp_source_document_id = Some ''d'', mp_source_span_ids = [], mp_source_pointers = [],
       mp_maintenance_run_id = ''run'', mp_confidence = PyFloat 1 ''1.0''\<rparr>, op_reason = None\<rparr>"

definition example_patch :: "patch_operation list \<Rightarrow> maintenance_patch" where
  "example_patch ops = \<lparr>mp_patch_id = ''p'', mp_intent = DERIVE_ENTITY,
     mp_scope = \<lparr>sc_workspace_id = ''w'', sc_scope_kind = ScopeWorkspace, sc_conversation_id = None,
       sc_thread_id = None\<rparr>,
     mp_operations = ops, mp_status = PROPOSED, mp_rationale = None, mp_requires_atomic_group = False\<rparr>"

theorem patch_validity_order_independent_witness:
  "vr_valid (validate_maintenance_patch no_pointers
     (example_patch [example_op ''2'' ADD_EDGE None (Some ''e''), example_op ''1'' ADD_NODE (Some ''n'') None])
     \<lparr>vc_nodes = {''m''}, vc_edges = {}, vc_prefix = None\<rparr>)"
proof -
  let ?a = "example_op ''1'' ADD_NODE (Some ''n'') None" and ?b = "example_op ''2'' ADD_EDGE None (Some ''e'')"
  have "vr_valid (validate_maintenance_patch no_pointers (example_patch [?a, ?b])
     \<lparr>vc_nodes = {''m''}, vc_edges = {}, vc_prefix = None\<rparr>)" by code_simp
  moreover have "mset [?b, ?a] = mset (mp_operations (example_patch [?a, ?b]))"
    by (simp add: example_patch_def)
  ultimately show ?thesis
    using patch_validity_order_independent [of "[?b, ?a]" "example_patch [?a, ?b]" no_pointers]
    by (simp add: example_patch_def)
qed

theorem patch_valid_iff_witness:
  "well_formed_operation no_pointers (example_patch [example_op ''1'' ADD_NODE (Some ''n'') None])
     \<lparr>vc_nodes = {}, vc_edges = {}, vc_prefix = Some ''n''\<rparr> (example_op ''1'' ADD_NODE (Some ''n'') None)"
proof -
  let ?op = "example_op ''1'' ADD_NODE (Some ''n'') None" and ?vc = "\<lparr>vc_nodes = {}, vc_edges = {}, vc_prefix = Some ''n''\<rparr>"
  have "vr_valid (validate_maintenance_patch no_pointers (example_patch [?op]) ?vc)" by code_simp
  moreover have "?op \<in> set (mp_operations (example_patch [?op]))" by (simp add: example_patch_def)
  ultimately show ?thesis using patch_valid_iff [of no_pointers "example_patch [?op]" ?vc] by metis
qed

end
