(* ===== verification/Graph_Engine.thy ===== *)
theory Graph_Engine
  imports Patch_Model
begin

text \<open>
  The graph engine of Kogwistar as the maintenance code uses it, and the values written to it
  (maintenance/maintenance\_patch\_apply.py, the reading helpers and the constructors). The engine is
  the record \<open>engine_ops\<close>, an argument of every definition that uses it. An attribute the code
  probes with \<^verbatim>\<open>getattr\<close> is an optional field. A getter takes the identifiers asked for, if
  any, and the resolve mode, if it is passed; the code retries without the mode on
  \<^verbatim>\<open>TypeError\<close>. The locale \<open>graph_engine\<close> states what the theorems rely on.
\<close>

section \<open>Interface\<close>

datatype ent_kind = KNode | KEdge

record entity =
  ent_id :: string
  ent_metadata :: json_object

record span =
  gs_collection_page_url :: string
  gs_document_page_url :: string
  gs_doc_id :: string
  gs_insertion_method :: string
  gs_page_number :: int
  gs_start_char :: int
  gs_end_char :: int
  gs_excerpt :: string
  gs_context_before :: string
  gs_context_after :: string
  gs_is_verified :: bool
  gs_score :: pyfloat
  gs_notes :: string

record graph_node =
  gn_id :: string
  gn_label :: string
  gn_summary :: string
  gn_doc_id :: string
  gn_properties :: "json_object option"
  gn_span :: span
  gn_metadata :: json_object

record graph_edge = graph_node +
  ge_source_ids :: "string list"
  ge_target_ids :: "string list"
  ge_relation :: string

type_synonym 's getter = "'s \<Rightarrow> string list option \<Rightarrow> string option \<Rightarrow> entity list result"

record create_outcome =
  co_status :: string
  co_message :: "string option"

text \<open>A unit of work: what leaving it normally and leaving it by an exception do, given the state at
  its entry and the current one.\<close>

record 's unit_of_work =
  uow_commit :: "'s \<Rightarrow> 's \<Rightarrow> 's \<times> check"
  uow_abort :: "'s \<Rightarrow> 's \<Rightarrow> 's"

record atomic_capability =
  cap_supports_atomic_mutation :: bool
  cap_mode :: string
  cap_reason :: string

record 's engine_ops =
  eng_getter :: "ent_kind \<Rightarrow> 's getter option"
  eng_raw_getter :: "ent_kind \<Rightarrow> 's getter option"
  eng_add_node :: "'s \<Rightarrow> graph_node \<Rightarrow> 's \<times> check"
  eng_add_edge :: "'s \<Rightarrow> graph_edge \<Rightarrow> 's \<times> check"
  eng_create_node_if_absent :: "('s \<Rightarrow> graph_node \<Rightarrow> 's \<times> create_outcome result) option"
  eng_tombstone :: "ent_kind \<Rightarrow> 's \<Rightarrow> string \<Rightarrow> string \<Rightarrow> string option \<Rightarrow> 's \<times> bool result"
  eng_uow :: "'s unit_of_work option"
  eng_lock :: "('s \<Rightarrow> string \<Rightarrow> string \<Rightarrow> string \<Rightarrow> 's \<times> check) option"
  eng_namespace :: string
  eng_capability :: atomic_capability
  eng_can_access :: "'s \<Rightarrow> string \<Rightarrow> bool"

section \<open>Reading helpers\<close>

definition call_getter :: "'s getter \<Rightarrow> 's \<Rightarrow> string list option \<Rightarrow> string \<Rightarrow> entity list result" where
  "call_getter g s ids mode = (case g s ids (Some mode) of Inl (TypeError m) \<Rightarrow> g s ids None | r \<Rightarrow> r)"

definition nonempty_ids :: "entity list \<Rightarrow> string set" where
  "nonempty_ids items = set (filter (\<lambda>i. i \<noteq> []) (map ent_id items))"

definition read_active_ids :: "'s engine_ops \<Rightarrow> 's \<Rightarrow> ent_kind \<Rightarrow> string set result" where
  "read_active_ids ops s k = (case eng_getter ops k of None \<Rightarrow> Inr {}
     | Some g \<Rightarrow> res_bind (call_getter g s None ''active_only'') (\<lambda>items. Inr (nonempty_ids items)))"

definition read_entities_by_ids :: "'s engine_ops \<Rightarrow> 's \<Rightarrow> ent_kind \<Rightarrow> string set \<Rightarrow> entity list result" where
  "read_entities_by_ids ops s k ids = (if ids = {} then Inr [] else
     (case eng_getter ops k of None \<Rightarrow> Inr []
      | Some g \<Rightarrow> call_getter g s (Some (sorted_list_of_set ids)) ''include_tombstones''))"

definition raw_existing_entity_ids ::
    "'s engine_ops \<Rightarrow> 's \<Rightarrow> ent_kind \<Rightarrow> string set \<Rightarrow> string set option result" where
  "raw_existing_entity_ids ops s k ids = (if ids = {} then Inr (Some {}) else
     (case eng_raw_getter ops k of None \<Rightarrow> Inr None
      | Some g \<Rightarrow> res_bind (call_getter g s (Some (sorted_list_of_set ids)) ''include_tombstones'')
          (\<lambda>items. Inr (Some (nonempty_ids items)))))"

definition exists_entity :: "'s engine_ops \<Rightarrow> 's \<Rightarrow> ent_kind \<Rightarrow> string \<Rightarrow> bool \<Rightarrow> bool result" where
  "exists_entity ops s k i include_tombstones = (case eng_getter ops k of None \<Rightarrow> Inr False
     | Some g \<Rightarrow> res_bind
         (call_getter g s (Some [i]) (if include_tombstones then ''include_tombstones'' else ''active_only''))
         (\<lambda>items. Inr (list_ex (\<lambda>e. ent_id e = i) items)))"

definition entity_tombstoned :: "entity \<Rightarrow> bool" where
  "entity_tombstoned e \<longleftrightarrow>
     py_str (json_or (jget (ent_metadata e) ''lifecycle_status'') (JStr ''active'')) = ''tombstoned''"

definition is_tombstoned :: "'s engine_ops \<Rightarrow> 's \<Rightarrow> ent_kind \<Rightarrow> string \<Rightarrow> bool result" where
  "is_tombstoned ops s k i = (case eng_getter ops k of None \<Rightarrow> Inr False
     | Some g \<Rightarrow> res_bind (call_getter g s (Some [i]) ''include_tombstones'')
         (\<lambda>items. Inr (case find (\<lambda>e. ent_id e = i) items of None \<Rightarrow> False | Some e \<Rightarrow> entity_tombstoned e)))"

definition immutable_raw_artifact_kinds :: "string list" where
  "immutable_raw_artifact_kinds =
     [''source_document'', ''source_revision'', ''source_readiness'', ''source_map_seed'', ''lane_message'']"

definition lower_text :: "json_object \<Rightarrow> string \<Rightarrow> string" where
  "lower_text md key = py_lower (py_strip (str_or_empty (jget md key)))"

definition is_immutable_raw_fact :: "entity \<Rightarrow> bool" where
  "is_immutable_raw_fact e \<longleftrightarrow>
     lower_text (ent_metadata e) ''artifact_kind'' \<in> set immutable_raw_artifact_kinds \<or>
     py_startswith (lower_text (ent_metadata e) ''artifact_kind'') ''source_'' \<or>
     lower_text (ent_metadata e) ''graph_space'' = ''source'' \<or>
     jget (ent_metadata e) ''raw_fact'' = JBool True"

text \<open>A dictionary built from pairs: a repeated key keeps its place and takes the last value.\<close>

definition dict_of :: "(string \<times> 'a) list \<Rightarrow> (string \<times> 'a) list" where
  "dict_of kvs = fold (\<lambda>kv d. AList.update (fst kv) (snd kv) d) kvs []"

definition entities_by_id :: "entity list \<Rightarrow> (string \<times> entity) list" where
  "entities_by_id es = dict_of (map (\<lambda>e. (ent_id e, e)) es)"

definition revision_from_entity :: "entity \<Rightarrow> json" where
  "revision_from_entity e = (case filter
       (\<lambda>v. case v of JStr s \<Rightarrow> s \<noteq> [] | JInt _ \<Rightarrow> True | JBool _ \<Rightarrow> True | _ \<Rightarrow> False)
       (map (jget (ent_metadata e)) [''entity_revision'', ''revision_id'', ''revision'']) of
     [] \<Rightarrow> JNull | v # _ \<Rightarrow> v)"

definition entity_revisions :: "'s getter \<Rightarrow> 's \<Rightarrow> string list \<Rightarrow> (string \<times> json) list result" where
  "entity_revisions g s ids = res_bind (call_getter g s (Some ids) ''active_only'') (\<lambda>items.
     Inr (map (\<lambda>e. (ent_id e, revision_from_entity e)) (filter (\<lambda>e. ent_id e \<noteq> []) items)))"

section \<open>What is written\<close>

record kogwistar_fns =
  kf_pointers :: pointer_utils
  kf_stable_id :: stable_id_fn
  kf_dummy_span :: "string \<Rightarrow> span"

definition py_int :: "json \<Rightarrow> int result" where
  "py_int v = (case v of
       JBool b \<Rightarrow> Inr (if b then 1 else 0)
     | JInt i \<Rightarrow> Inr i
     | JFloat f \<Rightarrow> Inr (trunc_rat (fl_val f))
     | JStr s \<Rightarrow> (case int_of_string s of Some i \<Rightarrow> Inr i
         | None \<Rightarrow> Inl (ValueError (''invalid literal for int() with base 10: '' @ repr_string s)))
     | _ \<Rightarrow> Inl (TypeError ''int() argument must be a string, a bytes-like object or a real number''))"

definition source_document_id :: "patch_operation \<Rightarrow> string" where
  "source_document_id op = (case op_provenance op of None \<Rightarrow> ''maintenance''
     | Some p \<Rightarrow> if opt_truthy (mp_source_document_id p) then opt_str (mp_source_document_id p) else ''maintenance'')"

definition span_pointer :: "pointer_utils \<Rightarrow> patch_operation \<Rightarrow> json_object" where
  "span_pointer pu op = (case op_provenance op of None \<Rightarrow> []
     | Some p \<Rightarrow> (case find (has_character_span pu) (mp_source_pointers p) of
         Some ptr \<Rightarrow> ptr
       | None \<Rightarrow> (case mp_source_pointers p of [] \<Rightarrow> [] | ptr # _ \<Rightarrow> ptr)))"

definition span_from_operation :: "pointer_utils \<Rightarrow> patch_operation \<Rightarrow> span result" where
  "span_from_operation pu op = (let ptr = span_pointer pu op;
       doc_id = py_str (json_or (jget ptr ''doc_id'') (JStr (source_document_id op)));
       url = (\<lambda>key. py_str (json_or (jget ptr key) (JStr (''maintenance/'' @ doc_id))))
     in res_bind
       (if has_character_span pu ptr
        then (case validate_pointer pu ptr of Inl msg \<Rightarrow> Inl (SourcePointerValidationError msg)
              | Inr v \<Rightarrow> Inr (vp_start_char v, vp_end_char v, opt_str (vp_text v), True))
        else Inr (0, 1, [], False))
       (\<lambda>(start, end_char, excerpt, verified).
         res_bind (py_int (json_or (jget ptr ''page_number'') (JInt 1))) (\<lambda>page.
           Inr \<lparr>gs_collection_page_url = url ''collection_page_url'', gs_document_page_url = url ''document_page_url'',
             gs_doc_id = doc_id, gs_insertion_method = ''maintenance_patch'', gs_page_number = page,
             gs_start_char = start, gs_end_char = end_char, gs_excerpt = excerpt,
             gs_context_before = str_or_empty (jget ptr ''context_before''),
             gs_context_after = str_or_empty (jget ptr ''context_after''),
             gs_is_verified = verified,
             gs_score = (case op_provenance op of Some p \<Rightarrow> if verified then mp_confidence p else PyFloat 0 ''0.0''
               | None \<Rightarrow> PyFloat 0 ''0.0''),
             gs_notes = (if verified then ''maintenance patch character span''
               else ''maintenance patch document-level provenance'')\<rparr>)))"

definition opt_json :: "string option \<Rightarrow> json" where
  "opt_json v = (case v of None \<Rightarrow> JNull | Some s \<Rightarrow> JStr s)"

definition drop_blank :: "json_object \<Rightarrow> json_object" where
  "drop_blank md = filter (\<lambda>kv. snd kv \<noteq> JNull \<and> snd kv \<noteq> JStr []) md"

definition is_scalar :: "json \<Rightarrow> bool" where
  "is_scalar v = (case v of JArr _ \<Rightarrow> False | JObj _ \<Rightarrow> False | _ \<Rightarrow> True)"

definition operation_metadata :: "maintenance_patch \<Rightarrow> patch_operation \<Rightarrow> json_object" where
  "operation_metadata p op = drop_blank (
     [(''artifact_kind'', JStr ''maintenance_patch_operation''),
      (''workspace_id'', JStr (sc_workspace_id (mp_scope p))),
      (''scope_kind'', JStr (scope_kind_value (sc_scope_kind (mp_scope p)))),
      (''conversation_id'', opt_json (sc_conversation_id (mp_scope p))),
      (''thread_id'', opt_json (sc_thread_id (mp_scope p))),
      (''maintenance_intent'', JStr (intent_value (mp_intent p))),
      (''patch_id'', JStr (mp_patch_id p)),
      (''operation_id'', JStr (op_operation_id op)),
      (''operation_kind'', JStr (kind_value (op_kind op))),
      (''node_type'', opt_json (op_node_type op)),
      (''maintenance_run_id'', (case op_provenance op of None \<Rightarrow> JNull | Some q \<Rightarrow> JStr (mp_maintenance_run_id q))),
      (''confidence'', (case op_provenance op of None \<Rightarrow> JNull | Some q \<Rightarrow> JFloat (mp_confidence q))),
      (''supersedes_ids'', JStr (join_str '','' (op_supersedes_ids op)))]
     @ filter (\<lambda>kv. is_scalar (snd kv)) (map (\<lambda>key. (key, jget (op_properties op) key))
         [''crosslink_status'', ''review_status'', ''left_source_document_id'', ''right_source_document_id'',
          ''promotion_target_scope'', ''promoted_from_scope'', ''source_conversation_id'', ''source_thread_id'']))"

definition opt_properties :: "patch_operation \<Rightarrow> json_object option" where
  "opt_properties op = (if op_properties op = [] then None else Some (op_properties op))"

definition node_from_operation :: "pointer_utils \<Rightarrow> maintenance_patch \<Rightarrow> patch_operation \<Rightarrow> graph_node result" where
  "node_from_operation pu p op = res_bind (span_from_operation pu op) (\<lambda>sp. Inr
     \<lparr>gn_id = opt_str (op_node_id op),
      gn_label = py_str_opt (opt_or (op_label op) (op_node_id op)),
      gn_summary = py_str_opt (opt_or (op_reason op) (opt_or (op_label op) (op_node_id op))),
      gn_doc_id = source_document_id op, gn_properties = opt_properties op, gn_span = sp,
      gn_metadata = operation_metadata p op\<rparr>)"

definition edge_from_operation :: "pointer_utils \<Rightarrow> maintenance_patch \<Rightarrow> patch_operation \<Rightarrow> graph_edge result" where
  "edge_from_operation pu p op = res_bind (span_from_operation pu op) (\<lambda>sp. Inr
     \<lparr>gn_id = opt_str (op_edge_id op),
      gn_label = py_str_opt (opt_or (op_label op) (opt_or (op_relation op) (op_edge_id op))),
      gn_summary = py_str_opt (opt_or (op_reason op) (opt_or (op_label op) (opt_or (op_relation op) (op_edge_id op)))),
      gn_doc_id = source_document_id op, gn_properties = opt_properties op, gn_span = sp,
      gn_metadata = operation_metadata p op,
      ge_source_ids = [py_str_opt (op_from_node_id op)], ge_target_ids = [py_str_opt (op_to_node_id op)],
      ge_relation = py_str_opt (op_relation op)\<rparr>)"

section \<open>Dictionaries\<close>

lemma map_of_dict_of: "map_of (dict_of kvs) = map_of (rev kvs)"
proof -
  have "map_of (fold (\<lambda>kv d. AList.update (fst kv) (snd kv) d) kvs d) = map_of (rev kvs @ d)" for d
    by (induction kvs arbitrary: d) (auto simp: update_conv' map_add_def fun_eq_iff split: option.splits)
  then show ?thesis by (simp add: dict_of_def)
qed

lemma distinct_dict_of: "distinct (map fst (dict_of kvs))"
proof -
  have "distinct (map fst d) \<Longrightarrow> distinct (map fst (fold (\<lambda>kv d. AList.update (fst kv) (snd kv) d) kvs d))" for d
    by (induction kvs arbitrary: d) (auto simp: distinct_update)
  then show ?thesis by (simp add: dict_of_def)
qed

lemma keys_dict_of [simp]: "set (map fst (dict_of kvs)) = fst ` set kvs"
  by (metis map_of_dict_of dom_map_of_conv_image_fst list.set_map set_rev)

lemma mem_dict_of: "(k, v) \<in> set (dict_of kvs) \<longleftrightarrow> map_of (rev kvs) k = Some v"
  by (metis distinct_dict_of map_of_dict_of map_of_eq_Some_iff)

text \<open>When equal identifiers mean equal entities, indexing by identifier loses nothing.\<close>

lemma entities_by_id_snd:
  assumes "inj_on ent_id (set es)"
  shows "set (map snd (entities_by_id es)) = set es"
proof -
  have "map_of (rev (map (\<lambda>e. (ent_id e, e)) es)) (ent_id e) = Some e" if "e \<in> set es" for e
  proof -
    have "(ent_id e, e) \<in> set (rev (map (\<lambda>e. (ent_id e, e)) es))" using that by simp
    then obtain e' where e': "map_of (rev (map (\<lambda>e. (ent_id e, e)) es)) (ent_id e) = Some e'"
      by (metis weak_map_of_SomeI)
    then have "e' \<in> set es" "ent_id e' = ent_id e" by (auto dest!: map_of_SomeD)
    with e' that assms show ?thesis by (auto simp: inj_on_def)
  qed
  moreover have "map_of (rev (map (\<lambda>e. (ent_id e, e)) es)) i = Some e \<Longrightarrow> e \<in> set es" for i e
    by (auto dest!: map_of_SomeD)
  ultimately have "e \<in> set es \<longleftrightarrow> (\<exists>i. (i, e) \<in> set (entities_by_id es))" for e
    unfolding entities_by_id_def mem_dict_of by blast
  moreover have "set (map snd xs) = {e. \<exists>i. (i, e) \<in> set xs}" for xs :: "(string \<times> entity) list"
    by force
  ultimately show ?thesis by blast
qed

lemma entities_by_id_keys [simp]: "set (map fst (entities_by_id es)) = ent_id ` set es"
  by (simp add: entities_by_id_def image_image del: set_map) (simp add: image_image)

section \<open>What the theorems rely on\<close>

text \<open>\<open>cell\<close> observes the store: the entity under an identifier, if there is one, and whether the
  current principal may read it. Reads by identifier return the visible entities, raw reads all of
  them; a write touches one identifier; \<^verbatim>\<open>create_node_if_absent\<close> leaves an existing node alone;
  locks change nothing; leaving a unit of work normally keeps the state and a failed one of a backend
  that supports atomic mutation restores the state of its entry.\<close>

locale graph_engine =
  fixes ops :: "'s engine_ops"
    and cell :: "'s \<Rightarrow> ent_kind \<Rightarrow> string \<Rightarrow> (entity \<times> bool) option"
  assumes getters: "eng_getter ops k \<noteq> None"
    and getter_modes: "eng_getter ops k = Some g \<Longrightarrow> g s asked (Some m) \<noteq> Inl (TypeError t)"
    and raw_getter_modes: "eng_raw_getter ops k = Some g \<Longrightarrow> g s asked (Some m) \<noteq> Inl (TypeError t)"
    and reads: "eng_getter ops k = Some g \<Longrightarrow> g s (Some ids) (Some ''include_tombstones'') = Inr es \<Longrightarrow>
      set es = {e. \<exists>i\<in>set ids. cell s k i = Some (e, True)}"
    and reads_active: "eng_getter ops k = Some g \<Longrightarrow> g s (Some ids) (Some ''active_only'') = Inr es \<Longrightarrow>
      set es = {e. \<exists>i\<in>set ids. cell s k i = Some (e, True) \<and> \<not> entity_tombstoned e}"
    and raw_reads: "eng_raw_getter ops k = Some g \<Longrightarrow> g s (Some ids) (Some ''include_tombstones'') = Inr es \<Longrightarrow>
      set es = {e. \<exists>i\<in>set ids. \<exists>b. cell s k i = Some (e, b)}"
    and cell_id: "cell s k i = Some (e, b) \<Longrightarrow> ent_id e = i \<and> i \<noteq> []"
    and add_node_frame: "eng_add_node ops s n = (s', c) \<Longrightarrow> (k, i) \<noteq> (KNode, gn_id n) \<Longrightarrow> cell s' k i = cell s k i"
    and add_edge_frame: "eng_add_edge ops s ed = (s', c) \<Longrightarrow> (k, i) \<noteq> (KEdge, gn_id ed) \<Longrightarrow> cell s' k i = cell s k i"
    and create_frame: "eng_create_node_if_absent ops = Some f \<Longrightarrow> f s n = (s', r) \<Longrightarrow>
      (k, i) \<noteq> (KNode, gn_id n) \<or> cell s k i \<noteq> None \<Longrightarrow> cell s' k i = cell s k i"
    and tombstone_frame: "eng_tombstone ops k' s j reason by' = (s', tr) \<Longrightarrow> (k, i) \<noteq> (k', j) \<Longrightarrow>
      cell s' k i = cell s k i"
    and lock_frame: "eng_lock ops = Some lock \<Longrightarrow> lock s ns kind i = (s', c) \<Longrightarrow>
      cell s' = cell s \<and> eng_can_access ops s' = eng_can_access ops s"
    and commit_keeps: "eng_uow ops = Some u \<Longrightarrow> uow_commit u entry s = (s', None) \<Longrightarrow> cell s' = cell s"
    and commit_fails: "eng_uow ops = Some u \<Longrightarrow> uow_commit u entry s = (s', Some err) \<Longrightarrow>
      cell s' k i = cell entry k i \<or> cell s' k i = cell s k i"
    and abort_mixes: "eng_uow ops = Some u \<Longrightarrow>
      cell (uow_abort u entry s) k i = cell entry k i \<or> cell (uow_abort u entry s) k i = cell s k i"
    and abort_restores: "cap_supports_atomic_mutation (eng_capability ops) \<Longrightarrow>
      \<exists>u. eng_uow ops = Some u \<and> cell (uow_abort u entry s) = cell entry"
    and commit_restores: "cap_supports_atomic_mutation (eng_capability ops) \<Longrightarrow> eng_uow ops = Some u \<Longrightarrow>
      uow_commit u entry s = (s', Some err) \<Longrightarrow> cell s' = cell entry"
begin

lemma read_by_ids:
  assumes "read_entities_by_ids ops s k ids = Inr es" "finite ids"
  shows "set es = {e. \<exists>i\<in>ids. cell s k i = Some (e, True)}"
proof -
  obtain g where g: "eng_getter ops k = Some g" using getters by blast
  have "call_getter g s (Some (sorted_list_of_set ids)) ''include_tombstones'' =
      g s (Some (sorted_list_of_set ids)) (Some ''include_tombstones'')"
    using getter_modes [OF g] by (simp add: call_getter_def split: sum.split py_error.split)
  with assms g reads [OF g, of s "sorted_list_of_set ids" es] show ?thesis
    by (auto simp: read_entities_by_ids_def split: if_splits)
qed

lemma raw_existing_ids:
  assumes "raw_existing_entity_ids ops s k ids = Inr (Some found)" "finite ids"
  shows "found = {i \<in> ids. cell s k i \<noteq> None}"
proof (cases "ids = {}")
  case True
  with assms show ?thesis by (simp add: raw_existing_entity_ids_def)
next
  case False
  with assms obtain g es where g: "eng_raw_getter ops k = Some g"
    and es: "call_getter g s (Some (sorted_list_of_set ids)) ''include_tombstones'' = Inr es"
    and f: "found = nonempty_ids es"
    by (auto simp: raw_existing_entity_ids_def split: option.splits)
  have "call_getter g s (Some (sorted_list_of_set ids)) ''include_tombstones'' =
      g s (Some (sorted_list_of_set ids)) (Some ''include_tombstones'')"
    using raw_getter_modes [OF g] by (simp add: call_getter_def split: sum.split py_error.split)
  with es raw_reads [OF g, of s "sorted_list_of_set ids" es] assms(2)
  have "set es = {e. \<exists>i\<in>ids. \<exists>b. cell s k i = Some (e, b)}" by simp
  then show ?thesis
    unfolding f nonempty_ids_def using cell_id by (force simp: image_iff)
qed

lemma exists_visible:
  assumes "exists_entity ops s k i True = Inr b"
  shows "b \<longleftrightarrow> (\<exists>e. cell s k i = Some (e, True))"
proof -
  obtain g where g: "eng_getter ops k = Some g" using getters by blast
  have "call_getter g s (Some [i]) ''include_tombstones'' = g s (Some [i]) (Some ''include_tombstones'')"
    using getter_modes [OF g] by (simp add: call_getter_def split: sum.split py_error.split)
  with assms g reads [OF g, of s "[i]"] cell_id show ?thesis
    by (fastforce simp: exists_entity_def list_ex_iff)
qed

lemma active_revisions:
  assumes "eng_getter ops k = Some g" "entity_revisions g s ids = Inr rs"
  shows "set rs = {(i, revision_from_entity e) | i e. i \<in> set ids \<and> cell s k i = Some (e, True) \<and>
    \<not> entity_tombstoned e}"
proof -
  have "call_getter g s (Some ids) ''active_only'' = g s (Some ids) (Some ''active_only'')"
    using getter_modes [OF assms(1)] by (simp add: call_getter_def split: sum.split py_error.split)
  with assms reads_active [OF assms(1), of s ids] cell_id show ?thesis
    by (fastforce simp: entity_revisions_def image_iff)
qed

end

section \<open>The association-list engine\<close>

text \<open>An engine over an association list, whose writes are upserts, with or without
  \<^verbatim>\<open>create_node_if_absent\<close> and with or without transactions. Each entry carries whether the
  principal may see it.\<close>

type_synonym mem_graph = "((ent_kind \<times> string) \<times> (entity \<times> bool)) list"

definition mem_cell :: "mem_graph \<Rightarrow> ent_kind \<Rightarrow> string \<Rightarrow> (entity \<times> bool) option" where
  "mem_cell s k i = (if i = [] then None
     else map_option (\<lambda>eb. ((fst eb)\<lparr>ent_id := i\<rparr>, snd eb)) (map_of s (k, i)))"

definition mem_read :: "bool \<Rightarrow> ent_kind \<Rightarrow> mem_graph getter" where
  "mem_read raw k s ids mode = Inr (map fst (filter (\<lambda>eb. (raw \<or> snd eb) \<and>
       (mode = Some ''active_only'' \<longrightarrow> \<not> entity_tombstoned (fst eb)))
     (List.map_filter (mem_cell s k) (case ids of Some is \<Rightarrow> is
        | None \<Rightarrow> remdups (map (snd \<circ> fst) s)))))"

definition mem_put :: "ent_kind \<Rightarrow> mem_graph \<Rightarrow> string \<Rightarrow> json_object \<Rightarrow> mem_graph" where
  "mem_put k s i md = AList.update (k, i) (\<lparr>ent_id = i, ent_metadata = md\<rparr>, True) s"

definition mem_create :: "mem_graph \<Rightarrow> graph_node \<Rightarrow> mem_graph \<times> create_outcome result" where
  "mem_create s n = (case mem_cell s KNode (gn_id n) of
       None \<Rightarrow> (mem_put KNode s (gn_id n) (gn_metadata n), Inr \<lparr>co_status = ''created'', co_message = None\<rparr>)
     | Some (e, _) \<Rightarrow> (s, Inr \<lparr>co_status = (if ent_metadata e = gn_metadata n then ''already_exists'' else ''conflict''),
         co_message = None\<rparr>))"

definition mem_tombstone ::
    "ent_kind \<Rightarrow> mem_graph \<Rightarrow> string \<Rightarrow> string \<Rightarrow> string option \<Rightarrow> mem_graph \<times> bool result" where
  "mem_tombstone k s i reason by' = (case mem_cell s k i of
       None \<Rightarrow> (s, Inr False)
     | Some (e, b) \<Rightarrow> (AList.update (k, i)
         (e\<lparr>ent_metadata := (''lifecycle_status'', JStr ''tombstoned'') # ent_metadata e\<rparr>, b) s, Inr True))"

definition mem_engine :: "bool \<Rightarrow> bool \<Rightarrow> mem_graph engine_ops" where
  "mem_engine creates atomic = \<lparr>
     eng_getter = (\<lambda>k. Some (mem_read False k)), eng_raw_getter = (\<lambda>k. Some (mem_read True k)),
     eng_add_node = (\<lambda>s n. (mem_put KNode s (gn_id n) (gn_metadata n), None)),
     eng_add_edge = (\<lambda>s e. (mem_put KEdge s (gn_id e) (gn_metadata e), None)),
     eng_create_node_if_absent = (if creates then Some mem_create else None),
     eng_tombstone = mem_tombstone,
     eng_uow = Some \<lparr>uow_commit = (\<lambda>entry s. (s, None)), uow_abort = (\<lambda>entry s. if atomic then entry else s)\<rparr>,
     eng_lock = None, eng_namespace = ''default'',
     eng_capability = \<lparr>cap_supports_atomic_mutation = atomic, cap_mode = ''memory'', cap_reason = ''test''\<rparr>,
     eng_can_access = (\<lambda>s scope. scope = ''public'')\<rparr>"

lemma set_mem_read:
  assumes "mem_read raw k s (Some ids) mode = Inr es"
  shows "set es = {e. \<exists>i\<in>set ids. \<exists>b. mem_cell s k i = Some (e, b) \<and> (raw \<or> b) \<and>
    (mode = Some ''active_only'' \<longrightarrow> \<not> entity_tombstoned e)}"
proof -
  have "set es = fst ` {eb. (\<exists>i\<in>set ids. mem_cell s k i = Some eb) \<and> (raw \<or> snd eb) \<and>
      (mode = Some ''active_only'' \<longrightarrow> \<not> entity_tombstoned (fst eb))}"
    using assms by (clarsimp simp: mem_read_def set_map_filter)
  then show ?thesis by (simp add: set_eq_iff image_iff split_paired_Ex) blast
qed

lemma mem_cell_update:
  "(k, i) \<noteq> (k', j) \<Longrightarrow> mem_cell (AList.update (k', j) x s) k i = mem_cell s k i"
  by (auto simp: mem_cell_def update_conv')

interpretation mem_engine: graph_engine "mem_engine creates atomic" mem_cell
proof unfold_locales
  fix k :: ent_kind and g :: "mem_graph getter" and s ids es
  assume g: "eng_getter (mem_engine creates atomic) k = Some g"
  { assume "g s (Some ids) (Some ''include_tombstones'') = Inr es"
    with g set_mem_read [of False k s ids _ es]
    show "set es = {e. \<exists>i\<in>set ids. mem_cell s k i = Some (e, True)}" by (auto simp: mem_engine_def) }
  { assume "g s (Some ids) (Some ''active_only'') = Inr es"
    with g set_mem_read [of False k s ids _ es]
    show "set es = {e. \<exists>i\<in>set ids. mem_cell s k i = Some (e, True) \<and> \<not> entity_tombstoned e}"
      by (auto simp: mem_engine_def) }
next
  fix k :: ent_kind and g :: "mem_graph getter" and s ids es
  assume g: "eng_raw_getter (mem_engine creates atomic) k = Some g"
    and "g s (Some ids) (Some ''include_tombstones'') = Inr es"
  with set_mem_read [of True k s ids _ es]
  show "set es = {e. \<exists>i\<in>set ids. \<exists>b. mem_cell s k i = Some (e, b)}" by (auto simp: mem_engine_def)
next
  fix s k i e b
  assume "mem_cell s k i = Some (e, b)"
  then show "ent_id e = i \<and> i \<noteq> []" by (auto simp: mem_cell_def split: if_splits)
qed (auto simp: mem_engine_def mem_read_def mem_put_def mem_create_def mem_tombstone_def mem_cell_update
    split: if_splits option.splits)

end
