(* ===== verification/Patch_Apply.thy ===== *)
theory Patch_Apply
  imports Graph_Engine
begin

text \<open>
  Applying a maintenance patch (maintenance/maintenance\_patch\_apply.py): the checks made before
  the unit of work, those repeated inside it, the operations one by one, the outcome of each kind of
  failure, and the artifact that records the outcome. What other workers do between the first checks
  and the entry of the unit of work is the argument \<open>env\<close>.
\<close>

section \<open>Definitions\<close>

definition plain_issue :: "string \<Rightarrow> string \<Rightarrow> validation_issue" where
  "plain_issue code msg = \<lparr>vi_operation_id = None, vi_code = code, vi_message = msg\<rparr>"

definition tombstone_targets :: "operation_kind \<Rightarrow> maintenance_patch \<Rightarrow> string set" where
  "tombstone_targets k p = truthy_ids (map tombstone_target_id (filter (\<lambda>op. op_kind op = k) (mp_operations p)))"

definition raw_fact_ids :: "entity list \<Rightarrow> string set" where
  "raw_fact_ids es = set (map ent_id (filter is_immutable_raw_fact es))"

definition raw_fact_issue :: "string set \<Rightarrow> string set \<Rightarrow> patch_operation \<Rightarrow> validation_issue list" where
  "raw_fact_issue nodes edges op =
     (if op_kind op = TOMBSTONE_NODE \<and> in_ids (tombstone_target_id op) nodes
      then [issue op ''raw_fact_mutation_forbidden''
        (''maintenance cannot tombstone a raw source or conversation fact; '' @
         ''add a grounded interpretation node and support edge instead'')]
      else if op_kind op = TOMBSTONE_EDGE \<and> in_ids (tombstone_target_id op) edges
      then [issue op ''raw_fact_mutation_forbidden''
        (''maintenance cannot tombstone an edge belonging to a raw source or '' @ ''conversation fact'')]
      else [])"

definition immutable_raw_fact_issues ::
    "'s engine_ops \<Rightarrow> 's \<Rightarrow> maintenance_patch \<Rightarrow> string set \<Rightarrow> string set \<Rightarrow> validation_issue list result" where
  "immutable_raw_fact_issues ops s p protected_nodes protected_edges =
     res_bind (read_entities_by_ids ops s KNode (tombstone_targets TOMBSTONE_NODE p)) (\<lambda>ns.
     res_bind (read_entities_by_ids ops s KEdge (tombstone_targets TOMBSTONE_EDGE p)) (\<lambda>es.
       Inr (concat (map (raw_fact_issue (protected_nodes \<union> raw_fact_ids ns) (protected_edges \<union> raw_fact_ids es))
         (mp_operations p)))))"

text \<open>The existing nodes and edges a patch refers to.\<close>

definition operation_node_refs :: "patch_operation \<Rightarrow> string option list" where
  "operation_node_refs op = (case op_kind op of
       ADD_EDGE \<Rightarrow> [op_from_node_id op, op_to_node_id op]
     | TOMBSTONE_NODE \<Rightarrow> [tombstone_target_id op]
     | _ \<Rightarrow> [])"

definition referenced_nodes :: "maintenance_patch \<Rightarrow> string set" where
  "referenced_nodes p = truthy_ids (concat (map operation_node_refs (mp_operations p)))"

definition security_scope :: "entity \<Rightarrow> string" where
  "security_scope e = py_strip (str_or_empty
     (json_or (jget (ent_metadata e) ''acl_scope'') (jget (ent_metadata e) ''security_scope'')))"

definition unavailable_issue :: validation_issue where
  "unavailable_issue = plain_issue ''acl_target_unavailable''
     ''maintenance target is not available to the current principal''"

definition scope_denied_issues :: "(string \<Rightarrow> bool) \<Rightarrow> entity \<Rightarrow> validation_issue list" where
  "scope_denied_issues can_access e = (if security_scope e \<noteq> [] \<and> \<not> can_access (security_scope e)
     then [plain_issue ''acl_scope_denied'' (''maintenance target '' @ repr_string (ent_id e) @
       '' is outside the current security scope'')] else [])"

definition acl_issues_for_patch :: "'s engine_ops \<Rightarrow> 's \<Rightarrow> maintenance_patch \<Rightarrow> validation_issue list result" where
  "acl_issues_for_patch ops s p = (let created = created_nodes p; edge_ids = tombstone_targets TOMBSTONE_EDGE p in
     res_bind (raw_existing_entity_ids ops s KNode created) (\<lambda>raw.
     let existing = (referenced_nodes p - created) \<union> (case raw of None \<Rightarrow> {} | Some ids \<Rightarrow> ids) in
     res_bind (read_entities_by_ids ops s KNode existing) (\<lambda>ns.
     res_bind (read_entities_by_ids ops s KEdge edge_ids) (\<lambda>es.
       let visible_nodes = entities_by_id ns; visible_edges = entities_by_id es in
       Inr ((if raw = None \<and> created \<noteq> {} then [plain_issue ''acl_new_target_unverifiable''
               ''cannot prove maintenance ADD_NODE targets are new''] else [])
         @ map (\<lambda>_. unavailable_issue) (sorted_list_of_set (existing - set (map fst visible_nodes)))
         @ map (\<lambda>_. unavailable_issue) (sorted_list_of_set (edge_ids - set (map fst visible_edges)))
         @ concat (map (scope_denied_issues (eng_can_access ops s)) (map snd visible_nodes @ map snd visible_edges)))))))"

definition lock_identities_of :: "patch_operation \<Rightarrow> (string \<times> string option) list" where
  "lock_identities_of op = (case op_kind op of
       ADD_NODE \<Rightarrow> [(''node'', op_node_id op)]
     | ADD_EDGE \<Rightarrow> (if opt_truthy (op_edge_id op)
         then [(''edge'', op_edge_id op), (''node'', op_from_node_id op), (''node'', op_to_node_id op)] else [])
     | TOMBSTONE_NODE \<Rightarrow> [(''node'', tombstone_target_id op)]
     | TOMBSTONE_EDGE \<Rightarrow> [(''edge'', tombstone_target_id op)]
     | _ \<Rightarrow> [])"

definition lock_identities :: "maintenance_patch \<Rightarrow> (string \<times> string) list" where
  "lock_identities p = sorted_list_of_set (set (map (\<lambda>kv. (fst kv, opt_str (snd kv)))
     (filter (\<lambda>kv. opt_truthy (snd kv)) (concat (map lock_identities_of (mp_operations p))))))"

fun lock_all :: "('s \<Rightarrow> string \<Rightarrow> string \<Rightarrow> 's \<times> check) \<Rightarrow> (string \<times> string) list \<Rightarrow> 's \<Rightarrow> 's \<times> check" where
  "lock_all lock [] s = (s, None)"
| "lock_all lock ((k, i) # rest) s = (case lock s k i of
     (s', Some e) \<Rightarrow> (s', Some e) | (s', None) \<Rightarrow> lock_all lock rest s')"

definition lock_maintenance_identities :: "'s engine_ops \<Rightarrow> maintenance_patch \<Rightarrow> 's \<Rightarrow> 's \<times> check" where
  "lock_maintenance_identities ops p s = (case eng_lock ops of None \<Rightarrow> (s, None)
     | Some lock \<Rightarrow> lock_all (\<lambda>s. lock s (eng_namespace ops)) (lock_identities p) s)"

definition derived_crosslink :: "entity \<Rightarrow> bool" where
  "derived_crosslink e \<longleftrightarrow>
     \<not> truthy (jget (ent_metadata e) ''source_native'') \<and>
     lower_text (ent_metadata e) ''edge_kind'' \<notin> {''source_native'', ''has_child'', ''source_map''} \<and>
     lower_text (ent_metadata e) ''crosslink_status'' \<in> {''candidate'', ''accepted'', ''stale'', ''needs_revalidation''}"

definition retraction_issue :: "(string \<times> entity) list \<Rightarrow> string \<Rightarrow> validation_issue list" where
  "retraction_issue by_id i =
     (if (case map_of by_id i of None \<Rightarrow> False | Some e \<Rightarrow> derived_crosslink e) then []
      else [plain_issue ''derived_crosslink_required''
        (''crosslink retraction may target only a derived crosslink edge; '' @ repr_string i @
         '' is source-native, unknown, or lacks crosslink status'')])"

definition derived_crosslink_retraction_issues ::
    "'s engine_ops \<Rightarrow> 's \<Rightarrow> maintenance_patch \<Rightarrow> validation_issue list" where
  "derived_crosslink_retraction_issues ops s p = (if mp_intent p \<noteq> RETRACT_CROSSLINK then [] else
     (let targets = tombstone_targets TOMBSTONE_EDGE p;
          edges = (case read_entities_by_ids ops s KEdge targets of Inl _ \<Rightarrow> [] | Inr es \<Rightarrow> es)
      in concat (map (retraction_issue (entities_by_id edges)) (sorted_list_of_set targets))))"

text \<open>Equality of scalars as Python has it: a boolean equals the integer it stands for.\<close>

definition scalar_number :: "json \<Rightarrow> rat option" where
  "scalar_number v = (case v of JBool b \<Rightarrow> Some (if b then 1 else 0) | JInt i \<Rightarrow> Some (of_int i)
     | JFloat f \<Rightarrow> Some (fl_val f) | _ \<Rightarrow> None)"

definition scalar_eq :: "json \<Rightarrow> json \<Rightarrow> bool" where
  "scalar_eq a b = (case (scalar_number a, scalar_number b) of
       (Some x, Some y) \<Rightarrow> x = y | (None, None) \<Rightarrow> a = b | _ \<Rightarrow> False)"

definition current_revisions ::
    "'s engine_ops \<Rightarrow> 's \<Rightarrow> string list \<Rightarrow> (string \<times> json) list result" where
  "current_revisions ops s ids =
     res_bind (case eng_getter ops KNode of None \<Rightarrow> Inr [] | Some g \<Rightarrow> entity_revisions g s ids) (\<lambda>ns.
     res_bind (case eng_getter ops KEdge of None \<Rightarrow> Inr [] | Some g \<Rightarrow> entity_revisions g s ids) (\<lambda>es.
       Inr (dict_of (ns @ es))))"

definition stale_issue :: "(string \<times> json) list \<Rightarrow> string \<times> json \<Rightarrow> validation_issue list" where
  "stale_issue current ie = (case ie of (i, expected) \<Rightarrow>
     if expected = JNull
     then [plain_issue ''missing_entity_revision''
       (''target '' @ repr_string i @ '' has no revision suitable for safe confirmation'')]
     else (case map_of current i of
       Some r \<Rightarrow> if scalar_eq r expected then [] else [plain_issue ''stale_entity_revision''
         (''target '' @ repr_string i @ '' changed since the proposal was created'')]
     | None \<Rightarrow> [plain_issue ''stale_entity_revision''
         (''target '' @ repr_string i @ '' changed since the proposal was created'')]))"

definition stale_revision_issues ::
    "'s engine_ops \<Rightarrow> 's \<Rightarrow> (string \<times> json) list \<Rightarrow> validation_issue list result" where
  "stale_revision_issues ops s expected = (if expected = [] then Inr [] else
     res_bind (current_revisions ops s (map fst expected)) (\<lambda>current.
       Inr (concat (map (stale_issue current) expected))))"

subsection \<open>Operations\<close>

record operation_result =
  or_operation_id :: string
  or_kind :: operation_kind
  or_status :: string
  or_entity_id :: "string option"
  or_message :: "string option"

record apply_result =
  ar_patch_id :: string
  ar_status :: patch_status
  ar_validation :: validation_report
  ar_operation_results :: "operation_result list"
  ar_artifact_id :: "string option"

definition op_result :: "patch_operation \<Rightarrow> string \<Rightarrow> string option \<Rightarrow> string option \<Rightarrow> operation_result" where
  "op_result op st ent msg = \<lparr>or_operation_id = op_operation_id op, or_kind = op_kind op, or_status = st,
     or_entity_id = ent, or_message = msg\<rparr>"

definition state_bind :: "'s \<Rightarrow> 'a result \<Rightarrow> ('a \<Rightarrow> 's \<times> 'b result) \<Rightarrow> 's \<times> 'b result" where
  "state_bind s r f = (case r of Inl e \<Rightarrow> (s, Inl e) | Inr a \<Rightarrow> f a)"

definition apply_add_node ::
    "'s engine_ops \<Rightarrow> pointer_utils \<Rightarrow> maintenance_patch \<Rightarrow> patch_operation \<Rightarrow> 's \<Rightarrow> 's \<times> operation_result result" where
  "apply_add_node ops pu p op s = (let i = Some (py_str_opt (op_node_id op)) in
     (case eng_create_node_if_absent ops of
        Some create \<Rightarrow> state_bind s (node_from_operation pu p op) (\<lambda>n.
          (case create s n of
             (s', Inl e) \<Rightarrow> (s', Inl e)
           | (s', Inr out) \<Rightarrow> (s', Inr (
               if co_status out = ''created'' then op_result op ''applied'' i None
               else if co_status out = ''already_exists''
               then op_result op ''skipped'' i (Some ''canonical node already exists with the same payload'')
               else op_result op ''failed'' i
                 (Some (py_str_opt (opt_or (co_message out) (Some ''canonical node identity conflict''))))))))
      | None \<Rightarrow> state_bind s (exists_entity ops s KNode (py_str_opt (op_node_id op)) True) (\<lambda>present.
          if present then (s, Inr (op_result op ''skipped'' i None))
          else state_bind s (node_from_operation pu p op) (\<lambda>n.
            (case eng_add_node ops s n of
               (s', Some e) \<Rightarrow> (s', Inl e)
             | (s', None) \<Rightarrow> (s', Inr (op_result op ''applied'' i None)))))))"

definition apply_add_edge ::
    "'s engine_ops \<Rightarrow> pointer_utils \<Rightarrow> maintenance_patch \<Rightarrow> patch_operation \<Rightarrow> 's \<Rightarrow> 's \<times> operation_result result" where
  "apply_add_edge ops pu p op s = (let i = py_str_opt (op_edge_id op) in
     state_bind s (exists_entity ops s KEdge i True) (\<lambda>present.
       if present then (s, Inr (op_result op ''skipped'' (Some i) None))
       else state_bind s (edge_from_operation pu p op) (\<lambda>e.
         (case eng_add_edge ops s e of
            (s', Some err) \<Rightarrow> (s', Inl err)
          | (s', None) \<Rightarrow> (s', Inr (op_result op ''applied'' (Some i) None))))))"

definition apply_tombstone ::
    "'s engine_ops \<Rightarrow> maintenance_patch \<Rightarrow> patch_operation \<Rightarrow> ent_kind \<Rightarrow> 's \<Rightarrow> 's \<times> operation_result result" where
  "apply_tombstone ops p op k s = (let i = py_str_opt (tombstone_target_id op) in
     state_bind s (is_tombstoned ops s k i) (\<lambda>dead.
       if dead then (s, Inr (op_result op ''skipped'' (Some i) None))
       else (case eng_tombstone ops k s i
               (opt_str (opt_or (op_reason op) (opt_or (mp_rationale p) (Some (intent_value (mp_intent p))))))
               (map_option mp_maintenance_run_id (op_provenance op)) of
          (s', Inl e) \<Rightarrow> (s', Inl e)
        | (s', Inr ok) \<Rightarrow> (s', Inr (op_result op (if ok then ''applied'' else ''failed'') (Some i) None)))))"

definition apply_operation ::
    "'s engine_ops \<Rightarrow> pointer_utils \<Rightarrow> maintenance_patch \<Rightarrow> patch_operation \<Rightarrow> 's \<Rightarrow> 's \<times> operation_result result" where
  "apply_operation ops pu p op s = (case op_kind op of
       NOOP \<Rightarrow> (s, Inr (op_result op ''skipped'' None None))
     | REQUEST_REVIEW \<Rightarrow> (s, Inr (op_result op ''skipped'' None (op_reason op)))
     | ADD_NODE \<Rightarrow> apply_add_node ops pu p op s
     | ADD_EDGE \<Rightarrow> apply_add_edge ops pu p op s
     | TOMBSTONE_NODE \<Rightarrow> apply_tombstone ops p op KNode s
     | TOMBSTONE_EDGE \<Rightarrow> apply_tombstone ops p op KEdge s)"

subsection \<open>The unit of work\<close>

text \<open>How the body of the unit of work ends: normally, or by one of the exceptions the caller tells
  apart, with the results collected so far.\<close>

datatype body_outcome =
    BodyDone "operation_result list" patch_status
  | BodyAuthorizationChanged "validation_issue list"
  | BodyStale "validation_issue list"
  | BodyAtomicFailed "operation_result list" operation_result
  | BodyRaised "operation_result list" py_error

fun apply_loop ::
    "'s engine_ops \<Rightarrow> pointer_utils \<Rightarrow> maintenance_patch \<Rightarrow> operation_result list \<Rightarrow> patch_status \<Rightarrow>
     patch_operation list \<Rightarrow> 's \<Rightarrow> 's \<times> body_outcome" where
  "apply_loop ops pu p acc st [] s = (s, BodyDone acc st)"
| "apply_loop ops pu p acc st (op # rest) s = (case apply_operation ops pu p op s of
     (s', Inl e) \<Rightarrow> (s', BodyRaised acc e)
   | (s', Inr r) \<Rightarrow>
       if or_status r = ''failed''
       then (if requires_atomic_replacement p then (s', BodyAtomicFailed acc r)
             else apply_loop ops pu p (acc @ [r]) NEEDS_REVIEW rest s')
       else apply_loop ops pu p (acc @ [r]) st rest s')"

definition uow_body ::
    "'s engine_ops \<Rightarrow> pointer_utils \<Rightarrow> maintenance_patch \<Rightarrow> (string \<times> json) list \<Rightarrow> 's \<Rightarrow> 's \<times> body_outcome" where
  "uow_body ops pu p expected s = (case lock_maintenance_identities ops p s of
     (s1, Some e) \<Rightarrow> (s1, BodyRaised [] e)
   | (s1, None) \<Rightarrow>
     (case acl_issues_for_patch ops s1 p of
        Inl e \<Rightarrow> (s1, BodyRaised [] e)
      | Inr acl \<Rightarrow> if acl \<noteq> [] then (s1, BodyAuthorizationChanged acl) else
        (case stale_revision_issues ops s1 expected of
           Inl e \<Rightarrow> (s1, BodyRaised [] e)
         | Inr stale \<Rightarrow> if stale \<noteq> [] then (s1, BodyStale stale)
           else apply_loop ops pu p [] APPLIED (mp_operations p) s1)))"

definition run_uow :: "'s engine_ops \<Rightarrow> 's \<Rightarrow> 's \<times> body_outcome \<Rightarrow> 's \<times> body_outcome" where
  "run_uow ops entry body = (case eng_uow ops of None \<Rightarrow> body
     | Some u \<Rightarrow> (case body of
         (s, BodyDone results st) \<Rightarrow>
           (case uow_commit u entry s of
              (s', None) \<Rightarrow> (s', BodyDone results st)
            | (s', Some e) \<Rightarrow> (s', BodyRaised results e))
       | (s, out) \<Rightarrow> (uow_abort u entry s, out)))"

subsection \<open>The artifact and the whole call\<close>

definition count_status :: "string \<Rightarrow> operation_result list \<Rightarrow> json" where
  "count_status st rs = JInt (int (length (filter (\<lambda>r. or_status r = st) rs)))"

definition patch_artifact_id :: "stable_id_fn \<Rightarrow> maintenance_patch \<Rightarrow> patch_status \<Rightarrow> string" where
  "patch_artifact_id stable_id p st =
     ''maintenance_patch_artifact:'' @ stable_id [''maintenance_patch_artifact'', mp_patch_id p, status_value st]"

definition patch_artifact ::
    "kogwistar_fns \<Rightarrow> maintenance_patch \<Rightarrow> validation_report \<Rightarrow> operation_result list \<Rightarrow> patch_status \<Rightarrow> graph_node" where
  "patch_artifact kf p v rs st =
     \<lparr>gn_id = patch_artifact_id (kf_stable_id kf) p st,
      gn_label = ''Maintenance Patch '' @ status_value st @ '': '' @ mp_patch_id p,
      gn_summary = opt_str (opt_or (mp_rationale p)
        (Some (''Maintenance patch '' @ mp_patch_id p @ '' '' @ status_value st))),
      gn_doc_id = mp_patch_id p, gn_properties = Some [], gn_span = kf_dummy_span kf (mp_patch_id p),
      gn_metadata = drop_blank
        [(''artifact_kind'', JStr ''maintenance_patch_artifact''),
         (''workspace_id'', JStr (sc_workspace_id (mp_scope p))),
         (''scope_kind'', JStr (scope_kind_value (sc_scope_kind (mp_scope p)))),
         (''conversation_id'', opt_json (sc_conversation_id (mp_scope p))),
         (''thread_id'', opt_json (sc_thread_id (mp_scope p))),
         (''patch_id'', JStr (mp_patch_id p)),
         (''patch_status'', JStr (status_value st)),
         (''graph_status'', JStr (graph_status_value (graph_status_for_patch st (mp_intent p)))),
         (''maintenance_intent'', JStr (intent_value (mp_intent p))),
         (''operation_count'', JInt (int (length (mp_operations p)))),
         (''applied_count'', count_status ''applied'' rs),
         (''skipped_count'', count_status ''skipped'' rs),
         (''failed_count'', count_status ''failed'' rs),
         (''validation_issue_codes'', JStr (join_str '','' (map vi_code (vr_issues v))))]\<rparr>"

definition emit_patch_artifact ::
    "'s engine_ops \<Rightarrow> kogwistar_fns \<Rightarrow> maintenance_patch \<Rightarrow> validation_report \<Rightarrow> operation_result list \<Rightarrow>
     patch_status \<Rightarrow> 's \<Rightarrow> 's \<times> string result" where
  "emit_patch_artifact ops kf p v rs st s = (let i = patch_artifact_id (kf_stable_id kf) p st in
     state_bind s (exists_entity ops s KNode i True) (\<lambda>present.
       if present then (s, Inr i)
       else (case eng_add_node ops s (patch_artifact kf p v rs st) of
          (s', Some e) \<Rightarrow> (s', Inl e) | (s', None) \<Rightarrow> (s', Inr i))))"

definition finish ::
    "'s engine_ops \<Rightarrow> kogwistar_fns \<Rightarrow> bool \<Rightarrow> maintenance_patch \<Rightarrow> validation_report \<Rightarrow> operation_result list \<Rightarrow>
     patch_status \<Rightarrow> 's \<Rightarrow> 's \<times> apply_result result" where
  "finish ops kf emit p v rs st s = (if \<not> emit
     then (s, Inr \<lparr>ar_patch_id = mp_patch_id p, ar_status = st, ar_validation = v,
       ar_operation_results = rs, ar_artifact_id = None\<rparr>)
     else (case emit_patch_artifact ops kf p v rs st s of
        (s', Inl e) \<Rightarrow> (s', Inl e)
      | (s', Inr i) \<Rightarrow> (s', Inr \<lparr>ar_patch_id = mp_patch_id p, ar_status = st, ar_validation = v,
          ar_operation_results = rs, ar_artifact_id = Some i\<rparr>)))"

definition extend_report :: "validation_report \<Rightarrow> validation_issue list \<Rightarrow> validation_report" where
  "extend_report v issues = (if issues = [] then v
     else \<lparr>vr_valid = False, vr_issues = vr_issues v @ issues\<rparr>)"

fun error_text :: "py_error \<Rightarrow> string" where
  "error_text (ValueError m) = m"
| "error_text (TypeError m) = m"
| "error_text (KeyError m) = repr_string m"
| "error_text (PermissionError m) = m"
| "error_text (RuntimeError m) = m"
| "error_text (AttributeError m) = m"
| "error_text (OverflowError m) = m"
| "error_text (SourcePointerValidationError m) = m"
| "error_text (ParseViewConflict m) = m"
| "error_text (ParseSessionStoreConflict m) = m"
| "error_text (ParseGenerationStoreConflict m) = m"
| "error_text (NotificationOutboxUnavailableError m) = m"

definition patch_failure :: "py_error \<Rightarrow> operation_result" where
  "patch_failure e = \<lparr>or_operation_id = ''patch'', or_kind = REQUEST_REVIEW, or_status = ''failed'',
     or_entity_id = None, or_message = Some (error_text e)\<rparr>"

text \<open>The handlers of \<^verbatim>\<open>apply_maintenance_patch\<close>. The artifact of a normal end is written inside
  the \<^verbatim>\<open>try\<close>: its failure is handled like one of the body.\<close>

definition handle_outcome ::
    "'s engine_ops \<Rightarrow> kogwistar_fns \<Rightarrow> bool \<Rightarrow> maintenance_patch \<Rightarrow> validation_report \<Rightarrow> 's \<times> body_outcome \<Rightarrow>
     's \<times> apply_result result" where
  "handle_outcome ops kf emit p v so = (case so of (s, out) \<Rightarrow> (case out of
       BodyDone rs st \<Rightarrow> (case finish ops kf emit p v rs st s of
           (s', Inl e) \<Rightarrow> finish ops kf emit p v (rs @ [patch_failure e]) NEEDS_REVIEW s'
         | done_result \<Rightarrow> done_result)
     | BodyStale issues \<Rightarrow> finish ops kf emit p (extend_report v issues) [] REJECTED s
     | BodyAuthorizationChanged issues \<Rightarrow> finish ops kf emit p (extend_report v issues) [] REJECTED s
     | BodyAtomicFailed rs r \<Rightarrow>
         finish ops kf emit p v (map (\<lambda>x. x\<lparr>or_status := ''rolled_back''\<rparr>) rs @ [r]) NEEDS_REVIEW s
     | BodyRaised rs e \<Rightarrow> finish ops kf emit p v (rs @ [patch_failure e]) NEEDS_REVIEW s))"

record apply_options =
  ao_active_node_ids :: "string set option"
  ao_active_edge_ids :: "string set option"
  ao_namespace_prefix :: "string option"
  ao_emit_artifact :: bool
  ao_expected_revisions :: "(string \<times> json) list"
  ao_protected_raw_node_ids :: "string set"
  ao_protected_raw_edge_ids :: "string set"

definition active_ids ::
    "'s engine_ops \<Rightarrow> 's \<Rightarrow> ent_kind \<Rightarrow> string set option \<Rightarrow> string set result" where
  "active_ids ops s k given = (case given of
       Some ids \<Rightarrow> if ids = {} then read_active_ids ops s k else Inr ids
     | None \<Rightarrow> read_active_ids ops s k)"

text \<open>The checks before the unit of work, as one report.\<close>

definition precheck ::
    "'s engine_ops \<Rightarrow> kogwistar_fns \<Rightarrow> apply_options \<Rightarrow> 's \<Rightarrow> maintenance_patch \<Rightarrow> validation_report result" where
  "precheck ops kf ao s p =
     res_bind (active_ids ops s KNode (ao_active_node_ids ao)) (\<lambda>nodes.
     res_bind (active_ids ops s KEdge (ao_active_edge_ids ao)) (\<lambda>edges.
     let v = validate_maintenance_patch (kf_pointers kf) p
       \<lparr>vc_nodes = nodes, vc_edges = edges, vc_prefix = ao_namespace_prefix ao\<rparr> in
     res_bind (acl_issues_for_patch ops s p) (\<lambda>acl.
     res_bind (immutable_raw_fact_issues ops s p (ao_protected_raw_node_ids ao) (ao_protected_raw_edge_ids ao)) (\<lambda>raw.
       Inr (extend_report (extend_report (extend_report v acl) raw) (derived_crosslink_retraction_issues ops s p))))))"

definition atomic_required_issue :: "atomic_capability \<Rightarrow> validation_issue" where
  "atomic_required_issue c = plain_issue ''atomic_mutation_required''
     (''replacement patches require a backend transaction; use a ParseView activation path for '' @
      cap_mode c @ '' backend ('' @ cap_reason c @ '')'')"

definition apply_maintenance_patch ::
    "'s engine_ops \<Rightarrow> kogwistar_fns \<Rightarrow> ('s \<Rightarrow> 's) \<Rightarrow> apply_options \<Rightarrow> maintenance_patch \<Rightarrow> 's \<Rightarrow>
     's \<times> apply_result result" where
  "apply_maintenance_patch ops kf env ao p s = state_bind s (precheck ops kf ao s p) (\<lambda>v.
     if \<not> vr_valid v then finish ops kf (ao_emit_artifact ao) p v [] REJECTED s
     else if requires_atomic_replacement p \<and> \<not> cap_supports_atomic_mutation (eng_capability ops)
     then finish ops kf (ao_emit_artifact ao) p
       (extend_report v [atomic_required_issue (eng_capability ops)]) [] REJECTED s
     else handle_outcome ops kf (ao_emit_artifact ao) p v
       (run_uow ops (env s) (uow_body ops (kf_pointers kf) p (ao_expected_revisions ao) (env s))))"

subsection \<open>The engine of the scope\<close>

text \<open>The two engines of a workspace, each as the operations it offers in a namespace.\<close>

record 's namespace_engines =
  ne_kg :: "string \<Rightarrow> 's engine_ops"
  ne_conversation :: "string \<Rightarrow> 's engine_ops"

definition source_space :: "string \<Rightarrow> string" where
  "source_space ws = ''ws:'' @ ws @ '':g:source''"

definition curated_kg_space :: "string \<Rightarrow> string" where
  "curated_kg_space ws = ''ws:'' @ ws @ '':g:curated_kg''"

definition conv_fg :: "string \<Rightarrow> string" where
  "conv_fg ws = ''ws:'' @ ws @ '':conv:fg''"

definition conv_bg :: "string \<Rightarrow> string" where
  "conv_bg ws = ''ws:'' @ ws @ '':conv:bg''"

definition raw_fact_locations :: "'s namespace_engines \<Rightarrow> string \<Rightarrow> 's engine_ops list" where
  "raw_fact_locations ne ws = [ne_kg ne (source_space ws), ne_conversation ne (conv_fg ws),
     ne_conversation ne (conv_bg ws)]"

definition raw_fact_ids_for_workspace ::
    "'s namespace_engines \<Rightarrow> 's \<Rightarrow> maintenance_patch \<Rightarrow> (string set \<times> string set) result" where
  "raw_fact_ids_for_workspace ne s p = res_bind
     (map_res (\<lambda>ops.
        res_bind (read_entities_by_ids ops s KNode (tombstone_targets TOMBSTONE_NODE p)) (\<lambda>ns.
        res_bind (read_entities_by_ids ops s KEdge (tombstone_targets TOMBSTONE_EDGE p)) (\<lambda>es.
          Inr (raw_fact_ids ns, raw_fact_ids es))))
       (raw_fact_locations ne (sc_workspace_id (mp_scope p))))
     (\<lambda>found. Inr (\<Union> (set (map fst found)), \<Union> (set (map snd found))))"

definition get_directly :: "'s engine_ops \<Rightarrow> 's \<Rightarrow> ent_kind \<Rightarrow> string set \<Rightarrow> entity list result" where
  "get_directly ops s k ids = (case eng_getter ops k of None \<Rightarrow> Inl (AttributeError ''get_nodes'')
     | Some g \<Rightarrow> g s (Some (sorted_list_of_set ids)) (Some ''active_only''))"

definition non_workspace_scope_issues ::
    "'s engine_ops \<Rightarrow> 's \<Rightarrow> maintenance_patch \<Rightarrow> validation_issue list result" where
  "non_workspace_scope_issues ops s p = (let sc = mp_scope p in
     if sc_scope_kind sc = ScopeWorkspace then Inr [] else
     (let key = (if sc_scope_kind sc = ScopeConversation then ''conversation_id'' else ''thread_id'');
          expected = (if sc_scope_kind sc = ScopeConversation then sc_conversation_id sc else sc_thread_id sc) in
      res_bind (get_directly ops s KNode (referenced_nodes p)) (\<lambda>ns.
      res_bind (get_directly ops s KEdge (tombstone_targets TOMBSTONE_EDGE p)) (\<lambda>es.
        Inr (concat (map (\<lambda>e.
          if jget (ent_metadata e) ''scope_kind'' \<noteq> JStr (scope_kind_value (sc_scope_kind sc)) \<or>
             jget (ent_metadata e) key \<noteq> opt_json expected
          then [plain_issue ''scope_entity_mismatch'' (ent_id e @ '' does not belong to '' @
            scope_kind_value (sc_scope_kind sc) @ '' scope '' @
            (case expected of None \<Rightarrow> ''None'' | Some x \<Rightarrow> repr_string x))]
          else []) (map snd (entities_by_id (ns @ es)))))))))"

definition apply_maintenance_patch_for_scope ::
    "'s namespace_engines \<Rightarrow> kogwistar_fns \<Rightarrow> ('s \<Rightarrow> 's) \<Rightarrow> string option \<Rightarrow> bool \<Rightarrow> (string \<times> json) list \<Rightarrow>
     maintenance_patch \<Rightarrow> 's \<Rightarrow> 's \<times> apply_result result" where
  "apply_maintenance_patch_for_scope ne kf env prefix emit expected p s =
     (let ws = sc_workspace_id (mp_scope p) in
     state_bind s (raw_fact_ids_for_workspace ne s p) (\<lambda>(raw_nodes, raw_edges).
       let ao = \<lparr>ao_active_node_ids = None, ao_active_edge_ids = None, ao_namespace_prefix = prefix,
         ao_emit_artifact = emit, ao_expected_revisions = expected,
         ao_protected_raw_node_ids = raw_nodes, ao_protected_raw_edge_ids = raw_edges\<rparr> in
       if sc_scope_kind (mp_scope p) = ScopeWorkspace
       then apply_maintenance_patch (ne_kg ne (curated_kg_space ws)) kf env ao p s
       else (let ops = ne_conversation ne (conv_bg ws) in
         state_bind s (non_workspace_scope_issues ops s p) (\<lambda>issues.
           if issues \<noteq> []
           then finish ops kf emit p \<lparr>vr_valid = False, vr_issues = issues\<rparr> [] REJECTED s
           else apply_maintenance_patch ops kf env ao p s))))"

section \<open>What a patch can touch\<close>

definition touches :: "patch_operation \<Rightarrow> (ent_kind \<times> string) set" where
  "touches op = (case op_kind op of
       ADD_NODE \<Rightarrow> {(KNode, opt_str (op_node_id op))}
     | ADD_EDGE \<Rightarrow> {(KEdge, opt_str (op_edge_id op))}
     | TOMBSTONE_NODE \<Rightarrow> {(KNode, py_str_opt (tombstone_target_id op))}
     | TOMBSTONE_EDGE \<Rightarrow> {(KEdge, py_str_opt (tombstone_target_id op))}
     | _ \<Rightarrow> {})"

definition artifact_cells :: "kogwistar_fns \<Rightarrow> maintenance_patch \<Rightarrow> (ent_kind \<times> string) set" where
  "artifact_cells kf p = {(KNode, patch_artifact_id (kf_stable_id kf) p st) | st. True}"

lemma node_from_operation_id: "node_from_operation pu p op = Inr n \<Longrightarrow> gn_id n = opt_str (op_node_id op)"
  by (auto simp: node_from_operation_def)

lemma edge_from_operation_id: "edge_from_operation pu p op = Inr e \<Longrightarrow> gn_id e = opt_str (op_edge_id op)"
  by (auto simp: edge_from_operation_def)

lemma patch_artifact_gn_id [simp]: "gn_id (patch_artifact kf p v rs st) = patch_artifact_id (kf_stable_id kf) p st"
  by (simp add: patch_artifact_def)

lemma state_bind_eq:
  "state_bind s r f = (s', x) \<longleftrightarrow> (\<exists>e. r = Inl e \<and> s' = s \<and> x = Inl e) \<or> (\<exists>a. r = Inr a \<and> f a = (s', x))"
  by (auto simp: state_bind_def split: sum.split)

text \<open>The writes an operation may make, each with the check that let it through.\<close>

lemma apply_add_node_writes:
  assumes "apply_add_node ops pu p op s = (s', r)"
  shows "s' = s \<or>
    (\<exists>f n x. eng_create_node_if_absent ops = Some f \<and> gn_id n = opt_str (op_node_id op) \<and> f s n = (s', x)) \<or>
    (\<exists>n c. exists_entity ops s KNode (py_str_opt (op_node_id op)) True = Inr False \<and>
       gn_id n = opt_str (op_node_id op) \<and> eng_add_node ops s n = (s', c))"
proof (cases "eng_create_node_if_absent ops")
  case None
  have ex: "s' = s" if "exists_entity ops s KNode (py_str_opt (op_node_id op)) True \<noteq> Inr False"
    using assms None that
    by (cases "exists_entity ops s KNode (py_str_opt (op_node_id op)) True")
      (simp_all add: apply_add_node_def state_bind_def)
  show ?thesis
  proof (cases "node_from_operation pu p op")
    case (Inr n)
    obtain t c where "eng_add_node ops s n = (t, c)" by fastforce
    moreover from this have "s' = t" if "exists_entity ops s KNode (py_str_opt (op_node_id op)) True = Inr False"
      using assms None Inr that by (cases c) (simp_all add: apply_add_node_def state_bind_def)
    ultimately show ?thesis using ex node_from_operation_id [OF Inr] by blast
  next
    case (Inl e)
    with assms None have "s' = s"
      by (cases "exists_entity ops s KNode (py_str_opt (op_node_id op)) True")
        (simp_all add: apply_add_node_def state_bind_def Let_def split: if_splits)
    then show ?thesis by simp
  qed
next
  case (Some f)
  show ?thesis
  proof (cases "node_from_operation pu p op")
    case (Inr n)
    obtain t x where t: "f s n = (t, x)" by fastforce
    with assms Some Inr have "s' = t"
      by (cases x) (simp_all add: apply_add_node_def state_bind_def Let_def)
    then show ?thesis using t Some node_from_operation_id [OF Inr] by blast
  qed (use assms Some in \<open>simp add: apply_add_node_def state_bind_def\<close>)
qed

lemma apply_add_edge_writes:
  assumes "apply_add_edge ops pu p op s = (s', r)"
  shows "s' = s \<or> (\<exists>e c. exists_entity ops s KEdge (py_str_opt (op_edge_id op)) True = Inr False \<and>
    gn_id e = opt_str (op_edge_id op) \<and> eng_add_edge ops s e = (s', c))"
proof (cases "exists_entity ops s KEdge (py_str_opt (op_edge_id op)) True = Inr False")
  case True
  show ?thesis
  proof (cases "edge_from_operation pu p op")
    case (Inr e)
    obtain t c where t: "eng_add_edge ops s e = (t, c)" by fastforce
    with assms True Inr have "s' = t"
      by (cases c) (simp_all add: apply_add_edge_def state_bind_def)
    then show ?thesis using t True edge_from_operation_id [OF Inr] by blast
  qed (use assms True in \<open>simp add: apply_add_edge_def state_bind_def\<close>)
next
  case False
  with assms show ?thesis
    by (cases "exists_entity ops s KEdge (py_str_opt (op_edge_id op)) True")
      (simp_all add: apply_add_edge_def state_bind_def)
qed

lemma apply_tombstone_writes:
  assumes "apply_tombstone ops p op k s = (s', r)"
  shows "s' = s \<or> (\<exists>reason by' x. eng_tombstone ops k s (py_str_opt (tombstone_target_id op)) reason by' = (s', x))"
  using assms
  by (auto simp: apply_tombstone_def Let_def state_bind_eq split: if_splits prod.splits sum.splits)

context graph_engine
begin

lemma apply_operation_frame:
  assumes "apply_operation ops pu p op s = (s', r)" "(k, i) \<notin> touches op"
  shows "cell s' k i = cell s k i"
proof (cases "op_kind op")
  case ADD_NODE
  with assms(2) have n: "(k, i) \<noteq> (KNode, opt_str (op_node_id op))" by (simp add: touches_def)
  from ADD_NODE assms(1) have "apply_add_node ops pu p op s = (s', r)" by (simp add: apply_operation_def)
  from apply_add_node_writes [OF this] show ?thesis
  proof (elim disjE exE conjE)
    fix f m x
    assume "eng_create_node_if_absent ops = Some f" "gn_id m = opt_str (op_node_id op)" "f s m = (s', x)"
    then show ?thesis using n create_frame [of f s m s' x k i] by simp
  next
    fix m c
    assume "gn_id m = opt_str (op_node_id op)" "eng_add_node ops s m = (s', c)"
    then show ?thesis using n add_node_frame [of s m s' c k i] by simp
  qed simp
next
  case ADD_EDGE
  with assms(2) have "(k, i) \<noteq> (KEdge, opt_str (op_edge_id op))" by (simp add: touches_def)
  moreover from ADD_EDGE assms(1) have "apply_add_edge ops pu p op s = (s', r)" by (simp add: apply_operation_def)
  ultimately show ?thesis using apply_add_edge_writes add_edge_frame by metis
next
  case TOMBSTONE_NODE
  with assms(2) have "(k, i) \<noteq> (KNode, py_str_opt (tombstone_target_id op))" by (simp add: touches_def)
  moreover from TOMBSTONE_NODE assms(1) have "apply_tombstone ops p op KNode s = (s', r)"
    by (simp add: apply_operation_def)
  ultimately show ?thesis using apply_tombstone_writes tombstone_frame by metis
next
  case TOMBSTONE_EDGE
  with assms(2) have "(k, i) \<noteq> (KEdge, py_str_opt (tombstone_target_id op))" by (simp add: touches_def)
  moreover from TOMBSTONE_EDGE assms(1) have "apply_tombstone ops p op KEdge s = (s', r)"
    by (simp add: apply_operation_def)
  ultimately show ?thesis using apply_tombstone_writes tombstone_frame by metis
qed (use assms(1) in \<open>auto simp: apply_operation_def\<close>)

text \<open>Any property of the state that the single operations keep is kept by the loop.\<close>

lemma apply_loop_keeps:
  assumes "\<forall>op\<in>set todo. \<forall>s s' r. apply_operation ops pu p op s = (s', r) \<longrightarrow> Q s \<longrightarrow> Q s'"
    and "apply_loop ops pu p acc st todo s = (s', out)" "Q s"
  shows "Q s'"
  using assms
proof (induction todo arbitrary: acc st s)
  case (Cons op todo)
  obtain t r where t: "apply_operation ops pu p op s = (t, r)" by fastforce
  with Cons.prems have "Q t" by (meson list.set_intros(1))
  moreover have "\<forall>op\<in>set todo. \<forall>s s' r. apply_operation ops pu p op s = (s', r) \<longrightarrow> Q s \<longrightarrow> Q s'"
    using Cons.prems(1) by simp
  ultimately have "apply_loop ops pu p acc' st' todo t = (s', out) \<Longrightarrow> Q s'" for acc' st'
    using Cons.IH by blast
  with \<open>Q t\<close> t Cons.prems(2) show ?case
    by (auto split: sum.splits if_splits)
qed simp

lemma lock_all_frame:
  assumes "eng_lock ops = Some lock" "lock_all (\<lambda>s. lock s ns) todo s = (s', c)"
  shows "cell s' = cell s \<and> eng_can_access ops s' = eng_can_access ops s"
  using assms(2)
proof (induction todo arbitrary: s)
  case (Cons ki todo)
  obtain k i where ki: "ki = (k, i)" by fastforce
  obtain t d where t: "lock s ns k i = (t, d)" by fastforce
  note f = lock_frame [OF assms(1) t]
  with Cons.IH [of t] Cons.prems t ki show ?case
    by (cases d) auto
qed simp

lemma lock_identities_frame:
  "lock_maintenance_identities ops p s = (s', c) \<Longrightarrow>
     cell s' = cell s \<and> eng_can_access ops s' = eng_can_access ops s"
  by (auto simp: lock_maintenance_identities_def dest: lock_all_frame split: option.splits)

lemma uow_body_keeps:
  assumes "\<And>op s s' r. op \<in> set (mp_operations p) \<Longrightarrow> apply_operation ops pu p op s = (s', r) \<Longrightarrow>
      Q (cell s) \<Longrightarrow> Q (cell s')"
    and "uow_body ops pu p expected s = (s', out)" "Q (cell s)"
  shows "Q (cell s')"
proof -
  obtain t c where t: "lock_maintenance_identities ops p s = (t, c)" by fastforce
  have q: "Q (cell t)" using lock_identities_frame [OF t] assms(3) by simp
  show ?thesis
    using assms(2) t q apply_loop_keeps [of "mp_operations p" pu p "\<lambda>s. Q (cell s)"] assms(1)
    by (auto simp: uow_body_def split: option.splits sum.splits if_splits)
qed

lemma uow_body_frame:
  assumes "uow_body ops pu p expected s = (s', out)" "(k, i) \<notin> \<Union> (touches ` set (mp_operations p))"
  shows "cell s' k i = cell s k i"
  by (rule uow_body_keeps [of p pu "\<lambda>c. c k i = cell s k i", OF _ assms(1)])
    (use apply_operation_frame assms(2) in auto)

lemma run_uow_cell:
  assumes "run_uow ops entry (s, out) = (s', out')"
  shows "cell s' k i = cell entry k i \<or> cell s' k i = cell s k i"
  using assms commit_keeps commit_fails abort_mixes
  by (fastforce simp: run_uow_def split: option.splits body_outcome.splits prod.splits)

lemma finish_frame:
  assumes "finish ops kf emit p v rs st s = (s', r)" "(k, i) \<notin> artifact_cells kf p"
  shows "cell s' k i = cell s k i"
proof -
  have "(k, i) \<noteq> (KNode, patch_artifact_id (kf_stable_id kf) p st)"
    using assms(2) by (auto simp: artifact_cells_def)
  with assms(1) add_node_frame show ?thesis
    by (fastforce simp: finish_def emit_patch_artifact_def state_bind_eq Let_def
        split: if_splits prod.splits sum.splits option.splits)
qed

lemma handle_outcome_frame:
  assumes "handle_outcome ops kf emit p v (s, out) = (s', r)" "(k, i) \<notin> artifact_cells kf p"
  shows "cell s' k i = cell s k i"
proof (cases out)
  case (BodyDone rs st)
  obtain t x where t: "finish ops kf emit p v rs st s = (t, x)" by fastforce
  then have "cell t k i = cell s k i" using finish_frame assms(2) by blast
  with BodyDone t assms finish_frame [OF _ assms(2)] show ?thesis
    by (cases x) (auto simp: handle_outcome_def)
qed (use assms finish_frame in \<open>auto simp: handle_outcome_def\<close>)

end

text \<open>How a call ends: rejected or broken off by the first checks on \<open>s\<close>, or through the unit of
  work on \<open>env s\<close>.\<close>

lemma apply_maintenance_patch_cases:
  assumes "apply_maintenance_patch ops kf env ao p s = (s', r)"
  obtains e where "s' = s" "r = Inl e"
  | v where "finish ops kf (ao_emit_artifact ao) p v [] REJECTED s = (s', r)"
  | v t out t' out' where "precheck ops kf ao s p = Inr v" "vr_valid v"
      "requires_atomic_replacement p \<longrightarrow> cap_supports_atomic_mutation (eng_capability ops)"
      "uow_body ops (kf_pointers kf) p (ao_expected_revisions ao) (env s) = (t, out)"
      "run_uow ops (env s) (t, out) = (t', out')"
      "handle_outcome ops kf (ao_emit_artifact ao) p v (t', out') = (s', r)"
proof (cases "precheck ops kf ao s p")
  case (Inl e)
  with assms that(1) show ?thesis by (auto simp: apply_maintenance_patch_def state_bind_def)
next
  case (Inr v)
  obtain t out where b: "uow_body ops (kf_pointers kf) p (ao_expected_revisions ao) (env s) = (t, out)" by fastforce
  obtain t' out' where u: "run_uow ops (env s) (t, out) = (t', out')" by fastforce
  from assms Inr b u show ?thesis
    by (auto simp: apply_maintenance_patch_def state_bind_def split: if_splits intro: that(2) that(3) [OF Inr])
qed

context graph_engine
begin

lemma apply_frame:
  assumes "apply_maintenance_patch ops kf env ao p s = (s', r)"
  shows "\<exists>t\<in>{s, env s}. \<forall>k i. (k, i) \<notin> \<Union> (touches ` set (mp_operations p)) \<union> artifact_cells kf p \<longrightarrow>
    cell s' k i = cell t k i"
  using assms
proof (cases rule: apply_maintenance_patch_cases)
  case (2 v)
  then show ?thesis using finish_frame [OF 2] by auto
next
  case (3 v t out t' out')
  have "cell s' k i = cell (env s) k i"
    if "(k, i) \<notin> \<Union> (touches ` set (mp_operations p)) \<union> artifact_cells kf p" for k i
    using that handle_outcome_frame [OF 3(6), of k i] run_uow_cell [OF 3(5), of k i]
      uow_body_frame [OF 3(4), of k i] by auto
  then show ?thesis by blast
qed simp

end

end
