(* ===== verification/Patch_Safety.thy ===== *)
theory Patch_Safety
  imports Patch_Apply
begin

text \<open>
  What applying a maintenance patch guarantees, for every engine that keeps the laws of
  \<open>graph_engine\<close>: which identifiers a call can change, that a rejected patch changes nothing, that
  a replacement is applied as a whole or not at all, that raw facts survive, and that what is mutated
  was accessible and current at the moment of the mutation. Two closed theorems show where the code
  does less than its comments say.
\<close>

section \<open>Outcomes\<close>

lemma apply_loop_outcome:
  assumes "apply_loop ops pu p acc st todo s = (t, out)"
  shows "(\<exists>rs st'. out = BodyDone (acc @ rs) st' \<and> length rs = length todo \<and> st' \<in> {st, NEEDS_REVIEW} \<and>
      (requires_atomic_replacement p \<longrightarrow> (\<forall>r\<in>set rs. or_status r \<noteq> ''failed''))) \<or>
    (\<exists>rs r. out = BodyAtomicFailed rs r) \<or> (\<exists>rs e. out = BodyRaised rs e)"
  using assms
proof (induction todo arbitrary: acc st s)
  case (Cons op todo)
  obtain u x where x: "apply_operation ops pu p op s = (u, x)" by fastforce
  show ?case
  proof (cases x)
    case (Inl e)
    with Cons.prems x show ?thesis by auto
  next
    case (Inr r)
    with Cons.prems x consider "out = BodyAtomicFailed acc r"
      | st' where "apply_loop ops pu p (acc @ [r]) st' todo u = (t, out)" "st' \<in> {st, NEEDS_REVIEW}"
          "requires_atomic_replacement p \<longrightarrow> or_status r \<noteq> ''failed''"
      by (auto split: if_splits)
    then show ?thesis
    proof cases
      case 2
      from Cons.IH [OF 2(1)] 2(2,3) show ?thesis
      proof (elim disjE exE conjE)
        fix rs st2
        assume "out = BodyDone ((acc @ [r]) @ rs) st2" "length rs = length todo" "st2 \<in> {st', NEEDS_REVIEW}"
          "requires_atomic_replacement p \<longrightarrow> (\<forall>r\<in>set rs. or_status r \<noteq> ''failed'')"
        with 2(2,3) show ?thesis by (intro disjI1 exI [of _ "r # rs"] exI [of _ st2]) auto
      qed blast+
    qed blast
  qed
qed auto

lemma finish_Inr:
  "finish ops kf emit p v rs st s = (s', Inr r) \<Longrightarrow>
     ar_status r = st \<and> ar_operation_results r = rs \<and> ar_validation r = v"
  by (auto simp: finish_def split: if_splits prod.splits sum.splits)

lemma run_uow_outcome:
  assumes "run_uow ops entry (t, out) = (t', out')"
  shows "out' = out \<or> (\<exists>rs st e. out = BodyDone rs st \<and> out' = BodyRaised rs e)"
  using assms by (cases out) (auto simp: run_uow_def split: option.splits prod.splits)

text \<open>A normal end of the body has the final state of the loop; a result is reported as applied only
  after such an end.\<close>

lemma handle_outcome_Inr:
  assumes "handle_outcome ops kf emit p v (s, out) = (s', Inr r)"
  shows "(\<exists>rs st. out = BodyDone rs st \<and> (ar_status r = st \<or> ar_status r = NEEDS_REVIEW) \<and>
      (\<exists>more. ar_operation_results r = rs @ more)) \<or>
    (\<exists>issues. (out = BodyStale issues \<or> out = BodyAuthorizationChanged issues) \<and> ar_status r = REJECTED) \<or>
    ((\<forall>rs st. out \<noteq> BodyDone rs st) \<and> ar_status r = NEEDS_REVIEW)"
proof (cases out)
  case (BodyDone rs st)
  obtain t x where t: "finish ops kf emit p v rs st s = (t, x)" by fastforce
  show ?thesis
    using assms BodyDone t finish_Inr
    by (cases x) (fastforce simp: handle_outcome_def)+
qed (use assms in \<open>auto simp: handle_outcome_def dest: finish_Inr\<close>)

context graph_engine
begin

lemma uow_body_done:
  assumes "uow_body ops pu p expected s = (t, BodyDone rs st)"
  obtains s1 where "cell s1 = cell s" "eng_can_access ops s1 = eng_can_access ops s"
    "acl_issues_for_patch ops s1 p = Inr []" "stale_revision_issues ops s1 expected = Inr []"
    "apply_loop ops pu p [] APPLIED (mp_operations p) s1 = (t, BodyDone rs st)"
proof -
  obtain s1 c where l: "lock_maintenance_identities ops p s = (s1, c)" by fastforce
  from assms l lock_identities_frame [OF l] that show ?thesis
    by (auto simp: uow_body_def split: option.splits sum.splits if_splits)
qed

lemma uow_body_rejects:
  assumes "uow_body ops pu p expected s = (t, out)"
    and "out = BodyStale issues \<or> out = BodyAuthorizationChanged issues"
  shows "cell t = cell s"
proof -
  obtain s1 c where l: "lock_maintenance_identities ops p s = (s1, c)" by fastforce
  have no: "apply_loop ops pu p [] APPLIED (mp_operations p) s1 \<noteq> (t, out)"
    using assms(2) apply_loop_outcome [of ops pu p "[]" APPLIED "mp_operations p" s1 t out] by auto
  from assms l lock_identities_frame [OF l] no show ?thesis
    by (auto simp: uow_body_def split: option.splits sum.splits if_splits)
qed

lemma run_uow_atomic:
  assumes "cap_supports_atomic_mutation (eng_capability ops)" "run_uow ops entry (t, out) = (t', out')"
    and "\<forall>rs st. out' \<noteq> BodyDone rs st"
  shows "cell t' = cell entry"
proof -
  from abort_restores [OF assms(1)] obtain u where u: "eng_uow ops = Some u" by blast
  have a: "cell (uow_abort u entry x) = cell entry" for x
    using abort_restores [OF assms(1), of entry x] u by simp
  show ?thesis
    using assms(2,3) u a commit_restores [OF assms(1) u]
    by (cases out) (auto simp: run_uow_def split: prod.splits option.splits)
qed

lemma visible_indexed:
  assumes "read_entities_by_ids ops s k ids = Inr es" "finite ids"
  shows "ids - set (map fst (entities_by_id es)) = {i \<in> ids. \<not> (\<exists>e. cell s k i = Some (e, True))}"
    and "set (map snd (entities_by_id es)) = {e. \<exists>i\<in>ids. cell s k i = Some (e, True)}"
proof -
  note es = read_by_ids [OF assms]
  show "ids - set (map fst (entities_by_id es)) = {i \<in> ids. \<not> (\<exists>e. cell s k i = Some (e, True))}"
  proof -
    have "i \<in> ent_id ` set es \<longleftrightarrow> i \<in> ids \<and> (\<exists>e. cell s k i = Some (e, True))" for i
    proof
      assume "i \<in> ent_id ` set es"
      then obtain e j where "j \<in> ids" "cell s k j = Some (e, True)" "i = ent_id e" unfolding es by blast
      moreover from this(2) have "ent_id e = j" using cell_id by blast
      ultimately show "i \<in> ids \<and> (\<exists>e. cell s k i = Some (e, True))" by blast
    next
      assume "i \<in> ids \<and> (\<exists>e. cell s k i = Some (e, True))"
      then obtain e where e: "i \<in> ids" "cell s k i = Some (e, True)" by blast
      then have "ent_id e = i" using cell_id by blast
      with e show "i \<in> ent_id ` set es" unfolding es by blast
    qed
    then show ?thesis unfolding entities_by_id_keys by blast
  qed
  have "inj_on ent_id (set es)"
  proof (rule inj_onI)
    fix e e' assume "e \<in> set es" "e' \<in> set es" and id: "ent_id e = ent_id e'"
    then obtain i j where c: "cell s k i = Some (e, True)" "cell s k j = Some (e', True)" unfolding es by blast
    with cell_id [OF c(1)] cell_id [OF c(2)] id show "e = e'" by simp
  qed
  then show "set (map snd (entities_by_id es)) = {e. \<exists>i\<in>ids. cell s k i = Some (e, True)}"
    using entities_by_id_snd es by simp
qed

end

definition accessible :: "'s engine_ops \<Rightarrow> 's \<Rightarrow> entity \<Rightarrow> bool" where
  "accessible ops s e \<longleftrightarrow> security_scope e = [] \<or> eng_can_access ops s (security_scope e)"

lemma scope_denied_Nil: "scope_denied_issues (eng_can_access ops s) e = [] \<longleftrightarrow> accessible ops s e"
  by (auto simp: scope_denied_issues_def accessible_def)

lemma singleton_if_Nil: "((if b then [x] else []) = []) = (\<not> b)"
  by simp

lemma acl_issues_Nil:
  "acl_issues_for_patch ops s p = Inr [] \<longleftrightarrow> (\<exists>raw ns es ex.
     raw_existing_entity_ids ops s KNode (created_nodes p) = Inr raw \<and>
     ex = (referenced_nodes p - created_nodes p) \<union> (case raw of None \<Rightarrow> {} | Some ids \<Rightarrow> ids) \<and>
     read_entities_by_ids ops s KNode ex = Inr ns \<and>
     read_entities_by_ids ops s KEdge (tombstone_targets TOMBSTONE_EDGE p) = Inr es \<and>
     \<not> (raw = None \<and> created_nodes p \<noteq> {}) \<and>
     sorted_list_of_set (ex - set (map fst (entities_by_id ns))) = [] \<and>
     sorted_list_of_set (tombstone_targets TOMBSTONE_EDGE p - set (map fst (entities_by_id es))) = [] \<and>
     (\<forall>e\<in>set (map snd (entities_by_id ns) @ map snd (entities_by_id es)). accessible ops s e))"
  unfolding acl_issues_for_patch_def Let_def res_bind_Inr sum.inject append_is_Nil_conv map_is_Nil_conv
    concat_eq_Nil_conv ball_simps(9) set_map [of "scope_denied_issues (eng_can_access ops s)"] scope_denied_Nil
    singleton_if_Nil
  by blast

lemma finite_truthy_ids [simp]: "finite (truthy_ids xs)"
  by (simp add: truthy_ids_def)

lemma finite_patch_ids [simp]:
  "finite (created_nodes p)" "finite (referenced_nodes p)" "finite (tombstone_targets k p)"
  by (simp_all add: created_nodes_def referenced_nodes_def tombstone_targets_def)

context graph_engine
begin

lemma acl_clear:
  assumes "acl_issues_for_patch ops s p = Inr []"
  shows "\<forall>i\<in>referenced_nodes p - created_nodes p. \<exists>e. cell s KNode i = Some (e, True) \<and> accessible ops s e"
    "\<forall>i\<in>tombstone_targets TOMBSTONE_EDGE p. \<exists>e. cell s KEdge i = Some (e, True) \<and> accessible ops s e"
    "\<forall>i\<in>created_nodes p. cell s KNode i \<noteq> None \<longrightarrow> (\<exists>e. cell s KNode i = Some (e, True) \<and> accessible ops s e)"
proof -
  let ?c = "created_nodes p" and ?t = "tombstone_targets TOMBSTONE_EDGE p"
  from assms obtain raw ns es ex where raw: "raw_existing_entity_ids ops s KNode ?c = Inr raw"
    and ex: "ex = (referenced_nodes p - ?c) \<union> (case raw of None \<Rightarrow> {} | Some ids \<Rightarrow> ids)"
    and ns: "read_entities_by_ids ops s KNode ex = Inr ns"
    and es: "read_entities_by_ids ops s KEdge ?t = Inr es"
    and none: "raw = None \<longrightarrow> ?c = {}" "sorted_list_of_set (ex - set (map fst (entities_by_id ns))) = []"
      "sorted_list_of_set (?t - set (map fst (entities_by_id es))) = []"
      "\<forall>e\<in>set (map snd (entities_by_id ns)) \<union> set (map snd (entities_by_id es)). accessible ops s e"
    unfolding acl_issues_Nil set_append by blast
  have found: "raw = Some ids \<Longrightarrow> ids = {i \<in> ?c. cell s KNode i \<noteq> None}" for ids
    using raw_existing_ids [of s KNode ?c ids] raw by simp
  have fin: "finite ex"
  proof (cases raw)
    case (Some ids)
    with found have "ids \<subseteq> ?c" by blast
    then show ?thesis using Some finite_subset [OF _ finite_patch_ids(1)] by (simp add: ex)
  qed (simp add: ex)
  have d: "ex - set (map fst (entities_by_id ns)) = {}" "?t - set (map fst (entities_by_id es)) = {}"
    using none(2,3) fin sorted_list_of_set_eq_Nil_iff finite_Diff finite_patch_ids(3) by metis+
  have n: "\<forall>i\<in>ex. \<exists>e. cell s KNode i = Some (e, True) \<and> accessible ops s e"
    using visible_indexed [OF ns fin] d(1) none(4) by blast
  have e: "\<forall>i\<in>?t. \<exists>e. cell s KEdge i = Some (e, True) \<and> accessible ops s e"
    using visible_indexed [OF es finite_patch_ids(3)] d(2) none(4) by blast
  from n show "\<forall>i\<in>referenced_nodes p - ?c. \<exists>e. cell s KNode i = Some (e, True) \<and> accessible ops s e"
    using ex by blast
  show "\<forall>i\<in>?t. \<exists>e. cell s KEdge i = Some (e, True) \<and> accessible ops s e" by (rule e)
  show "\<forall>i\<in>?c. cell s KNode i \<noteq> None \<longrightarrow> (\<exists>e. cell s KNode i = Some (e, True) \<and> accessible ops s e)"
  proof (cases raw)
    case (Some ids)
    with n found ex show ?thesis by auto
  qed (use none(1) in simp)
qed

text \<open>A patch reported as applied went through the unit of work without an issue.\<close>

lemma applied_through_body:
  assumes "apply_maintenance_patch ops kf env ao p s = (s', Inr r)" "ar_status r = APPLIED"
  obtains s1 t rs where "cell s1 = cell (env s)" "eng_can_access ops s1 = eng_can_access ops (env s)"
    "acl_issues_for_patch ops s1 p = Inr []" "stale_revision_issues ops s1 (ao_expected_revisions ao) = Inr []"
    "apply_loop ops (kf_pointers kf) p [] APPLIED (mp_operations p) s1 = (t, BodyDone rs APPLIED)"
  using assms(1)
proof (cases rule: apply_maintenance_patch_cases)
  case (2 v)
  with assms(2) finish_Inr show ?thesis by fastforce
next
  case (3 v t out t' out')
  from handle_outcome_Inr [OF 3(6)] assms(2) obtain rs where "out' = BodyDone rs APPLIED" by auto
  with run_uow_outcome [OF 3(5)] have "out = BodyDone rs APPLIED" by auto
  with 3(4) have "uow_body ops (kf_pointers kf) p (ao_expected_revisions ao) (env s) = (t, BodyDone rs APPLIED)" by simp
  from uow_body_done [OF this] that show ?thesis by metis
qed simp

lemma stale_clear:
  assumes "stale_revision_issues ops s expected = Inr []" "(i, r) \<in> set expected"
  shows "r \<noteq> JNull \<and> (\<exists>k e. cell s k i = Some (e, True) \<and> \<not> entity_tombstoned e \<and>
    scalar_eq (revision_from_entity e) r)"
proof -
  obtain gn ge where g: "eng_getter ops KNode = Some gn" "eng_getter ops KEdge = Some ge" using getters by blast
  from assms g obtain ns es where ns: "entity_revisions gn s (map fst expected) = Inr ns"
    and es: "entity_revisions ge s (map fst expected) = Inr es"
    and c: "stale_issue (dict_of (ns @ es)) (i, r) = []"
    by (auto simp: stale_revision_issues_def current_revisions_def split: if_splits)
  from c obtain r' where "r \<noteq> JNull" and r': "map_of (rev (ns @ es)) i = Some r'" "scalar_eq r' r"
    by (auto simp: stale_issue_def map_of_dict_of split: if_splits option.splits)
  from map_of_SomeD [OF r'(1)] have "(i, r') \<in> set ns \<union> set es" by auto
  with active_revisions [OF g(1) ns] active_revisions [OF g(2) es] have
    "\<exists>k e. cell s k i = Some (e, True) \<and> \<not> entity_tombstoned e \<and> r' = revision_from_entity e" by auto
  with r'(2) \<open>r \<noteq> JNull\<close> show ?thesis by auto
qed

end

section \<open>Which entities a call can change\<close>

text \<open>whatever happens, a call changes only the entities its operations name and its own audit
  artifacts. Every other entity, and its visibility, is as it was before the call or as other workers
  left it when the unit of work began.\<close>

theorem patch_apply_frame:
  assumes "graph_engine ops cell" "apply_maintenance_patch ops kf env ao p s = (s', r)"
  shows "\<exists>t\<in>{s, env s}. \<forall>k i. (k, i) \<notin> \<Union> (touches ` set (mp_operations p)) \<union> artifact_cells kf p \<longrightarrow>
    cell s' k i = cell t k i"
  using graph_engine.apply_frame [OF assms] .

text \<open>C28: a rejected patch, whether the first checks rejected it or the checks repeated inside the unit
  of work, has changed no entity at all; only the audit artifact may have been added.\<close>

theorem patch_rejected_unchanged:
  assumes "graph_engine ops cell" "apply_maintenance_patch ops kf env ao p s = (s', Inr r)"
    and "ar_status r = REJECTED"
  shows "\<exists>t\<in>{s, env s}. \<forall>k i. (k, i) \<notin> artifact_cells kf p \<longrightarrow> cell s' k i = cell t k i"
  using assms(2)
proof (cases rule: apply_maintenance_patch_cases)
  case (2 v)
  then show ?thesis using graph_engine.finish_frame [OF assms(1) 2] by auto
next
  case (3 v t out t' out')
  have "st \<in> {APPLIED, NEEDS_REVIEW}" if "out = BodyDone rs st" for rs st
  proof -
    from that 3(4) have "uow_body ops (kf_pointers kf) p (ao_expected_revisions ao) (env s) = (t, BodyDone rs st)" by simp
    then obtain s1 where "apply_loop ops (kf_pointers kf) p [] APPLIED (mp_operations p) s1 = (t, BodyDone rs st)"
      using graph_engine.uow_body_done [OF assms(1)] by metis
    from apply_loop_outcome [OF this] show ?thesis by auto
  qed
  with handle_outcome_Inr [OF 3(6)] run_uow_outcome [OF 3(5)] assms(3)
  obtain issues where o: "out = BodyStale issues \<or> out = BodyAuthorizationChanged issues" by auto
  have "cell s' k i = cell (env s) k i" if "(k, i) \<notin> artifact_cells kf p" for k i
    using that graph_engine.handle_outcome_frame [OF assms(1) 3(6), of k i]
      graph_engine.run_uow_cell [OF assms(1) 3(5), of k i] graph_engine.uow_body_rejects [OF assms(1) 3(4) o] by auto
  then show ?thesis by blast
qed simp

text \<open>C1: a patch that replaces graph objects, or asks for an atomic group, is applied as a whole or not
  at all: either no operation of the patch failed, or the store is as it was before the unit of work
  (or before the call), audit artifacts aside.\<close>

theorem patch_all_or_nothing:
  assumes "graph_engine ops cell" "apply_maintenance_patch ops kf env ao p s = (s', Inr r)"
    and "requires_atomic_replacement p"
  shows "(length (mp_operations p) \<le> length (ar_operation_results r) \<and>
      (\<forall>x\<in>set (take (length (mp_operations p)) (ar_operation_results r)). or_status x \<noteq> ''failed'')) \<or>
    (\<exists>t\<in>{s, env s}. \<forall>k i. (k, i) \<notin> artifact_cells kf p \<longrightarrow> cell s' k i = cell t k i)"
  using assms(2)
proof (cases rule: apply_maintenance_patch_cases)
  case (2 v)
  then show ?thesis using graph_engine.finish_frame [OF assms(1) 2] by auto
next
  case (3 v t out t' out')
  show ?thesis
  proof (cases "\<exists>rs st. out' = BodyDone rs st")
    case True
    then obtain rs st where o: "out' = BodyDone rs st" by blast
    with run_uow_outcome [OF 3(5)] 3(4)
    have "uow_body ops (kf_pointers kf) p (ao_expected_revisions ao) (env s) = (t, BodyDone rs st)" by auto
    then obtain s1 where "apply_loop ops (kf_pointers kf) p [] APPLIED (mp_operations p) s1 = (t, BodyDone rs st)"
      using graph_engine.uow_body_done [OF assms(1)] by metis
    from apply_loop_outcome [OF this] assms(3)
    have "length rs = length (mp_operations p)" "\<forall>x\<in>set rs. or_status x \<noteq> ''failed''" by auto
    with handle_outcome_Inr [OF 3(6)] o show ?thesis by auto
  next
    case False
    with graph_engine.run_uow_atomic [OF assms(1) _ 3(5)] 3(3) assms(3) have "cell t' = cell (env s)" by blast
    with graph_engine.handle_outcome_frame [OF assms(1) 3(6)] show ?thesis by auto
  qed
qed simp

section \<open>Authorization and freshness\<close>

text \<open>C2: if a patch was applied, then at the moment of its mutations every existing node its edges
  attach to or its tombstones name, and every edge it tombstones, was visible to the principal and in a
  security scope the principal may access; a node it creates was new or equally accessible.\<close>

theorem patch_applied_accessible:
  assumes "graph_engine ops cell" "apply_maintenance_patch ops kf env ao p s = (s', Inr r)"
    and "ar_status r = APPLIED"
  shows "(\<forall>i\<in>referenced_nodes p - created_nodes p.
       \<exists>e. cell (env s) KNode i = Some (e, True) \<and> accessible ops (env s) e) \<and>
    (\<forall>i\<in>tombstone_targets TOMBSTONE_EDGE p.
       \<exists>e. cell (env s) KEdge i = Some (e, True) \<and> accessible ops (env s) e) \<and>
    (\<forall>i\<in>created_nodes p. cell (env s) KNode i = None \<or>
       (\<exists>e. cell (env s) KNode i = Some (e, True) \<and> accessible ops (env s) e))"
proof -
  obtain s1 where s1: "cell s1 = cell (env s)" "eng_can_access ops s1 = eng_can_access ops (env s)"
    "acl_issues_for_patch ops s1 p = Inr []"
    using graph_engine.applied_through_body [OF assms] by metis
  then have "accessible ops s1 = accessible ops (env s)" by (simp add: accessible_def fun_eq_iff)
  with graph_engine.acl_clear [OF assms(1) s1(3)] s1(1) show ?thesis by (metis (no_types, lifting))
qed

text \<open>C29: if a patch proposed against recorded revisions was applied, then at the moment of its
  mutations each of these entities was active and still had the recorded revision; an entity recorded
  without a revision is never confirmed.\<close>

theorem patch_applied_current:
  assumes "graph_engine ops cell" "apply_maintenance_patch ops kf env ao p s = (s', Inr r)"
    and "ar_status r = APPLIED"
  shows "\<forall>(i, expected)\<in>set (ao_expected_revisions ao). expected \<noteq> JNull \<and>
    (\<exists>k e. cell (env s) k i = Some (e, True) \<and> \<not> entity_tombstoned e \<and>
       scalar_eq (revision_from_entity e) expected)"
proof -
  obtain s1 where s1: "cell s1 = cell (env s)" "stale_revision_issues ops s1 (ao_expected_revisions ao) = Inr []"
    using graph_engine.applied_through_body [OF assms] by metis
  from graph_engine.stale_clear [OF assms(1) s1(2)] s1(1) show ?thesis by auto
qed

section \<open>Raw facts\<close>

definition op_tombstones :: "patch_operation \<Rightarrow> ent_kind \<Rightarrow> string \<Rightarrow> bool" where
  "op_tombstones op k i \<longleftrightarrow> op_kind op = (case k of KNode \<Rightarrow> TOMBSTONE_NODE | KEdge \<Rightarrow> TOMBSTONE_EDGE) \<and>
     tombstone_target_id op = Some i"

lemma touched_by:
  assumes "(k, i) \<in> touches op" "validate_operation op = None" "\<not> op_tombstones op k i"
  shows "(op_kind op = ADD_NODE \<and> k = KNode \<and> op_node_id op = Some i) \<or>
    (op_kind op = ADD_EDGE \<and> k = KEdge \<and> op_edge_id op = Some i)"
  using assms
  by (cases "op_kind op") (auto simp: touches_def validate_operation_def shape_matches_kind_def op_tombstones_def
      opt_truthy_def opt_str_def py_str_opt_def tombstone_target_id_def split: option.splits)

lemma extend_report_valid [simp]: "vr_valid (extend_report v issues) \<longleftrightarrow> vr_valid v \<and> issues = []"
  by (simp add: extend_report_def)

lemma precheck_clear:
  assumes "precheck ops kf ao s p = Inr v" "vr_valid v"
  shows "immutable_raw_fact_issues ops s p (ao_protected_raw_node_ids ao) (ao_protected_raw_edge_ids ao) = Inr []"
    "derived_crosslink_retraction_issues ops s p = []"
  using assms by (auto simp: precheck_def Let_def)

context graph_engine
begin

lemma apply_operation_keeps_visible:
  assumes op: "apply_operation ops pu p op s = (s', r)" "validate_operation op = None"
    and c: "cell s k i = Some (e, True)" and n: "\<not> op_tombstones op k i"
  shows "cell s' k i = Some (e, True)"
proof (cases "(k, i) \<in> touches op")
  case False
  with apply_operation_frame [OF op(1)] c show ?thesis by simp
next
  case True
  from touched_by [OF True op(2) n] show ?thesis
  proof (elim disjE conjE)
    assume k: "op_kind op = ADD_NODE" "k = KNode" "op_node_id op = Some i"
    then have "apply_add_node ops pu p op s = (s', r)" using op(1) by (simp add: apply_operation_def)
    from apply_add_node_writes [OF this] k c show ?thesis
      using create_frame [of _ s _ s' _ KNode i] exists_visible [of s KNode i False]
      by (auto simp: opt_str_def py_str_opt_def)
  next
    assume k: "op_kind op = ADD_EDGE" "k = KEdge" "op_edge_id op = Some i"
    then have "apply_add_edge ops pu p op s = (s', r)" using op(1) by (simp add: apply_operation_def)
    from apply_add_edge_writes [OF this] k c show ?thesis
      using exists_visible [of s KEdge i False] by (auto simp: py_str_opt_def)
  qed
qed

lemma raw_fact_not_targeted:
  assumes clear: "immutable_raw_fact_issues ops s p pn pe = Inr []"
    and c: "cell s k i = Some (e, True)" "is_immutable_raw_fact e" and op: "op \<in> set (mp_operations p)"
  shows "\<not> op_tombstones op k i"
proof
  assume t: "op_tombstones op k i"
  let ?k = "case k of KNode \<Rightarrow> TOMBSTONE_NODE | KEdge \<Rightarrow> TOMBSTONE_EDGE"
  have i: "ent_id e = i" "i \<noteq> []" using cell_id [OF c(1)] by simp_all
  have m: "i \<in> tombstone_targets ?k p"
    using t op i(2) by (force simp: op_tombstones_def tombstone_targets_def truthy_ids_def opt_truthy_def opt_str_def)
  from clear obtain ns es where ns: "read_entities_by_ids ops s KNode (tombstone_targets TOMBSTONE_NODE p) = Inr ns"
    and es: "read_entities_by_ids ops s KEdge (tombstone_targets TOMBSTONE_EDGE p) = Inr es"
    and none: "raw_fact_issue (pn \<union> raw_fact_ids ns) (pe \<union> raw_fact_ids es) op = []"
    using op by (auto simp: immutable_raw_fact_issues_def)
  have "e \<in> set (case k of KNode \<Rightarrow> ns | KEdge \<Rightarrow> es)"
    using m c(1) read_by_ids [OF ns] read_by_ids [OF es] by (cases k) auto
  then have "i \<in> raw_fact_ids (case k of KNode \<Rightarrow> ns | KEdge \<Rightarrow> es)"
    using c(2) i(1) by (auto simp: raw_fact_ids_def)
  with none t show False
    by (cases k) (auto simp: raw_fact_issue_def op_tombstones_def in_ids_def)
qed

end

text \<open>C3: raw facts survive maintenance: an entity that carries a raw source or conversation fact and is
  visible to the principal, and that other workers leave alone, is the same after any call, whatever
  the patch and its outcome.\<close>

theorem patch_keeps_raw_facts:
  assumes "graph_engine ops cell" "apply_maintenance_patch ops kf env ao p s = (s', r)"
    and "validate_patch_model p = None"
    and "cell s k i = Some (e, True)" "cell (env s) k i = Some (e, True)" "is_immutable_raw_fact e"
    and "(k, i) \<notin> artifact_cells kf p"
  shows "cell s' k i = Some (e, True)"
  using assms(2)
proof (cases rule: apply_maintenance_patch_cases)
  case (2 v)
  with graph_engine.finish_frame [OF assms(1) 2 assms(7)] assms(4) show ?thesis by simp
next
  case (3 v t out t' out')
  have n: "\<not> op_tombstones op k i \<and> validate_operation op = None" if "op \<in> set (mp_operations p)" for op
    using graph_engine.raw_fact_not_targeted [OF assms(1) precheck_clear(1) [OF 3(1,2)] assms(4,6) that]
      that assms(3) by (simp add: validate_patch_model_def)
  have "cell t k i = Some (e, True)"
    by (rule graph_engine.uow_body_keeps [OF assms(1), of p "kf_pointers kf" "\<lambda>c. c k i = Some (e, True)", OF _ 3(4)])
      (use n graph_engine.apply_operation_keeps_visible [OF assms(1)] assms(5) in blast)+
  with graph_engine.run_uow_cell [OF assms(1) 3(5), of k i] assms(5)
    graph_engine.handle_outcome_frame [OF assms(1) 3(6) assms(7)] show ?thesis by auto
qed (use assms(4) in simp)


end
