(* ===== verification/Patch_Examples.thy ===== *)
theory Patch_Examples
  imports Patch_Safety
begin

text \<open>
  Applying patches to a small graph in the association-list engine: instances of the theorems of
  \<open>Patch_Safety\<close>, and two runs in which the code does less than its comments promise.
\<close>

section \<open>A small graph\<close>

definition example_fns :: kogwistar_fns where
  "example_fns = \<lparr>kf_pointers = no_pointers, kf_stable_id = concat, kf_dummy_span = (\<lambda>d.
     \<lparr>gs_collection_page_url = d, gs_document_page_url = d, gs_doc_id = d, gs_insertion_method = ''dummy'',
      gs_page_number = 1, gs_start_char = 0, gs_end_char = 1, gs_excerpt = [], gs_context_before = [],
      gs_context_after = [], gs_is_verified = False, gs_score = PyFloat 0 ''0.0'', gs_notes = []\<rparr>)\<rparr>"

definition example_options :: "(string \<times> json) list \<Rightarrow> apply_options" where
  "example_options expected = \<lparr>ao_active_node_ids = None, ao_active_edge_ids = None, ao_namespace_prefix = None,
     ao_emit_artifact = True, ao_expected_revisions = expected, ao_protected_raw_node_ids = {},
     ao_protected_raw_edge_ids = {}\<rparr>"

definition example_entity :: "string \<Rightarrow> json_object \<Rightarrow> entity" where
  "example_entity i md = \<lparr>ent_id = i, ent_metadata = md\<rparr>"

text \<open>Two nodes, a raw fact, a derived cross-link, and a node and an edge hidden from the principal.\<close>

definition example_graph :: mem_graph where
  "example_graph =
     [((KNode, ''m''), (example_entity ''m'' [(''revision'', JInt 1)], True)),
      ((KNode, ''raw''), (example_entity ''raw'' [(''artifact_kind'', JStr ''source_document'')], True)),
      ((KNode, ''hidden''), (example_entity ''hidden'' [(''acl_scope'', JStr ''secret'')], False)),
      ((KEdge, ''x''), (example_entity ''x'' [(''crosslink_status'', JStr ''accepted'')], True)),
      ((KEdge, ''hidden''), (example_entity ''hidden'' [(''acl_scope'', JStr ''secret'')], False))]"

definition example_apply ::
    "(string \<times> json) list \<Rightarrow> maintenance_patch \<Rightarrow> mem_graph \<times> apply_result result" where
  "example_apply expected p = apply_maintenance_patch (mem_engine False True) example_fns (\<lambda>s. s)
     (example_options expected) p example_graph"

definition outcome_status :: "mem_graph \<times> apply_result result \<Rightarrow> patch_status option" where
  "outcome_status x = (case snd x of Inl _ \<Rightarrow> None | Inr r \<Rightarrow> Some (ar_status r))"

lemma outcome_statusD:
  assumes "outcome_status (example_apply expected p) = Some st"
  obtains s' r where "apply_maintenance_patch (mem_engine False True) example_fns (\<lambda>s. s)
      (example_options expected) p example_graph = (s', Inr r)" "ar_status r = st"
  using assms by (cases "example_apply expected p")
    (auto simp: outcome_status_def example_apply_def split: sum.splits)

definition additive_patch :: maintenance_patch where
  "additive_patch = (example_patch [example_op ''1'' ADD_NODE (Some ''n'') None,
     example_op ''2'' ADD_EDGE None (Some ''e'')])\<lparr>mp_requires_atomic_group := True\<rparr>"

definition raw_patch :: maintenance_patch where
  "raw_patch = example_patch [example_op ''1'' ADD_NODE (Some ''n'') None,
     example_op ''2'' TOMBSTONE_NODE (Some ''raw'') None]"

definition retraction_patch :: maintenance_patch where
  "retraction_patch = (example_patch [(example_op ''1'' TOMBSTONE_EDGE None (Some ''x''))
     \<lparr>op_reason := Some ''stale''\<rparr>])\<lparr>mp_intent := RETRACT_CROSSLINK\<rparr>"

lemma example_statuses:
  "outcome_status (example_apply [(''m'', JInt 1)] additive_patch) = Some APPLIED"
  "outcome_status (example_apply [] raw_patch) = Some REJECTED"
  "outcome_status (example_apply [] retraction_patch) = Some APPLIED"
  by code_simp+

lemma no_artifact_cell: "i \<noteq> [] \<Longrightarrow> hd i \<noteq> CHR ''m'' \<Longrightarrow> (k, i) \<notin> artifact_cells example_fns p"
  by (auto simp: artifact_cells_def patch_artifact_id_def)

section \<open>Instances of the theorems\<close>

theorem patch_apply_frame_witness:
  "mem_cell (fst (example_apply [(''m'', JInt 1)] additive_patch)) KEdge ''x'' = mem_cell example_graph KEdge ''x''"
proof -
  have "(KEdge, ''x'') \<notin> \<Union> (touches ` set (mp_operations additive_patch)) \<union> artifact_cells example_fns additive_patch"
    by (simp add: no_artifact_cell additive_patch_def example_patch_def example_op_def touches_def opt_str_def)
  moreover obtain s' r where a: "apply_maintenance_patch (mem_engine False True) example_fns (\<lambda>s. s)
      (example_options [(''m'', JInt 1)]) additive_patch example_graph = (s', r)" by fastforce
  ultimately show ?thesis
    using patch_apply_frame [OF mem_engine.graph_engine_axioms a] by (simp add: example_apply_def)
qed

theorem patch_rejected_unchanged_witness:
  "\<exists>s' r. example_apply [] raw_patch = (s', Inr r) \<and> mem_cell s' KNode ''n'' = mem_cell example_graph KNode ''n''"
proof -
  obtain s' r where a: "apply_maintenance_patch (mem_engine False True) example_fns (\<lambda>s. s)
      (example_options []) raw_patch example_graph = (s', Inr r)" "ar_status r = REJECTED"
    using outcome_statusD [OF example_statuses(2)] .
  from patch_rejected_unchanged [OF mem_engine.graph_engine_axioms a]
  have "mem_cell s' KNode ''n'' = mem_cell example_graph KNode ''n''" by (simp add: no_artifact_cell)
  with a(1) show ?thesis by (simp add: example_apply_def)
qed

theorem patch_all_or_nothing_witness:
  "\<exists>s' r. example_apply [(''m'', JInt 1)] additive_patch = (s', Inr r) \<and>
     (2 \<le> length (ar_operation_results r) \<or> mem_cell s' KNode ''n'' = None)"
proof -
  obtain s' r where a: "apply_maintenance_patch (mem_engine False True) example_fns (\<lambda>s. s)
      (example_options [(''m'', JInt 1)]) additive_patch example_graph = (s', Inr r)"
    using outcome_statusD [OF example_statuses(1)] by metis
  have "requires_atomic_replacement additive_patch" "length (mp_operations additive_patch) = 2"
    "mem_cell example_graph KNode ''n'' = None"
    by (simp_all add: requires_atomic_replacement_def additive_patch_def example_patch_def mem_cell_def example_graph_def)
  with patch_all_or_nothing [OF mem_engine.graph_engine_axioms a] a show ?thesis
    by (auto simp: example_apply_def no_artifact_cell)
qed

theorem patch_applied_accessible_witness:
  "\<exists>e. mem_cell example_graph KNode ''m'' = Some (e, True) \<and> accessible (mem_engine False True) example_graph e"
proof -
  obtain s' r where a: "apply_maintenance_patch (mem_engine False True) example_fns (\<lambda>s. s)
      (example_options [(''m'', JInt 1)]) additive_patch example_graph = (s', Inr r)" "ar_status r = APPLIED"
    using outcome_statusD [OF example_statuses(1)] by metis
  have "''m'' \<in> referenced_nodes additive_patch - created_nodes additive_patch" by code_simp
  with patch_applied_accessible [OF mem_engine.graph_engine_axioms a] show ?thesis by blast
qed

theorem patch_applied_current_witness:
  "\<exists>k e. mem_cell example_graph k ''m'' = Some (e, True) \<and> scalar_eq (revision_from_entity e) (JInt 1)"
proof -
  obtain s' r where a: "apply_maintenance_patch (mem_engine False True) example_fns (\<lambda>s. s)
      (example_options [(''m'', JInt 1)]) additive_patch example_graph = (s', Inr r)" "ar_status r = APPLIED"
    using outcome_statusD [OF example_statuses(1)] by metis
  from patch_applied_current [OF mem_engine.graph_engine_axioms a] show ?thesis
    by (auto simp: example_options_def)
qed

theorem patch_keeps_raw_facts_witness:
  "mem_cell (fst (example_apply [] raw_patch)) KNode ''raw'' = mem_cell example_graph KNode ''raw''"
proof -
  let ?e = "example_entity ''raw'' [(''artifact_kind'', JStr ''source_document'')]"
  have c: "mem_cell example_graph KNode ''raw'' = Some (?e, True)"
    by (simp add: mem_cell_def example_graph_def example_entity_def)
  have "validate_patch_model raw_patch = None" "is_immutable_raw_fact ?e" by code_simp+
  moreover obtain s' r where a: "apply_maintenance_patch (mem_engine False True) example_fns (\<lambda>s. s)
      (example_options []) raw_patch example_graph = (s', r)" by fastforce
  ultimately show ?thesis
    using patch_keeps_raw_facts [OF mem_engine.graph_engine_axioms a, of KNode "''raw''" ?e] c
    by (simp add: example_apply_def no_artifact_cell)
qed


section \<open>Two runs against the comments\<close>

text \<open>the check that a created identifier is new covers nodes only. A patch that adds an edge under
  the identifier of an edge hidden from the principal is applied and overwrites it, while the same for
  a node is rejected.\<close>

theorem hidden_edge_overwritten:
  "mem_cell example_graph KEdge ''hidden'' = Some (example_entity ''hidden'' [(''acl_scope'', JStr ''secret'')], False) \<and>
   (case example_apply [] (example_patch [example_op ''1'' ADD_NODE (Some ''n'') None,
        example_op ''2'' ADD_EDGE None (Some ''hidden'')]) of
      (s', Inr r) \<Rightarrow> ar_status r = APPLIED \<and> mem_cell s' KEdge ''hidden'' \<noteq> mem_cell example_graph KEdge ''hidden''
    | _ \<Rightarrow> False) \<and>
   outcome_status (example_apply [] (example_patch [example_op ''1'' ADD_NODE (Some ''hidden'') None])) = Some REJECTED"
  by code_simp

definition bad_page_op :: patch_operation where
  "bad_page_op = (example_op ''2'' ADD_NODE (Some ''o'') None)\<lparr>op_provenance := Some
     \<lparr>mp_source_document_id = Some ''d'', mp_source_span_ids = [],
      mp_source_pointers = [[(''page_number'', JStr ''iv'')]],
      mp_maintenance_run_id = ''run'', mp_confidence = PyFloat 1 ''1.0''\<rparr>\<rparr>"

text \<open>When an operation raises, the unit of work is rolled back, but the results still report the
  operations before it as applied: here node \<^verbatim>\<open>n\<close> is reported applied and does not exist.\<close>

theorem rolled_back_reported_applied:
  "(case example_apply [] (example_patch [example_op ''1'' ADD_NODE (Some ''n'') None, bad_page_op]) of
      (s', Inr r) \<Rightarrow> ar_status r = NEEDS_REVIEW \<and> mem_cell s' KNode ''n'' = None \<and>
        map or_status (ar_operation_results r) = [''applied'', ''failed'']
    | _ \<Rightarrow> False)"
  by code_simp

end
