(* ===== verification/Budget_Profiles.thy ===== *)
theory Budget_Profiles
  imports Wiki_Prelude
begin

text \<open>
  Maintenance profiles and windowed budgets (maintenance/maintenance\_profiles.py): reading a budget,
  whether an estimate fits it, the ladder of provider levels, adding usage and resetting windows.
  A float is a rational or one of the three non-finite values; the rounding of a sum to the nearest
  double, the reading of a decimal text and the printing of a float are the fields of
  \<open>float_ops\<close>. The process environment is a partial function on names, and \<^verbatim>\<open>json.loads\<close> an
  argument. A day is counted from 1970-01-01 in UTC.
\<close>

section \<open>Definitions\<close>

datatype xfloat = Fin rat | PInf | NInf | NaN

record float_ops =
  fo_parse :: "string \<Rightarrow> xfloat option"
  fo_round :: "rat \<Rightarrow> xfloat"
  fo_repr :: "rat \<Rightarrow> string"

fun xadd :: "float_ops \<Rightarrow> xfloat \<Rightarrow> xfloat \<Rightarrow> xfloat" where
  "xadd fo (Fin a) (Fin b) = fo_round fo (a + b)"
| "xadd fo NaN y = NaN"
| "xadd fo x NaN = NaN"
| "xadd fo PInf NInf = NaN"
| "xadd fo NInf PInf = NaN"
| "xadd fo PInf y = PInf"
| "xadd fo NInf y = NInf"
| "xadd fo x PInf = PInf"
| "xadd fo x NInf = NInf"

fun xgt :: "xfloat \<Rightarrow> xfloat \<Rightarrow> bool" where
  "xgt (Fin a) (Fin b) = (a > b)"
| "xgt NaN y = False"
| "xgt x NaN = False"
| "xgt PInf y = (y \<noteq> PInf)"
| "xgt NInf y = False"
| "xgt (Fin a) PInf = False"
| "xgt (Fin a) NInf = True"

fun xneg :: "xfloat \<Rightarrow> xfloat" where
  "xneg (Fin a) = Fin (- a)" | "xneg PInf = NInf" | "xneg NInf = PInf" | "xneg NaN = NaN"

definition xge :: "xfloat \<Rightarrow> xfloat \<Rightarrow> bool" where
  "xge x y \<longleftrightarrow> xgt x y \<or> (x = y \<and> x \<noteq> NaN)"

definition float_of_int :: "float_ops \<Rightarrow> int \<Rightarrow> xfloat result" where
  "float_of_int fo i = (case fo_round fo (of_int i) of
       Fin q \<Rightarrow> Inr (Fin q) | _ \<Rightarrow> Inl (OverflowError ''int too large to convert to float''))"

definition profile_names :: "string list" where
  "profile_names = [''high'', ''balanced'', ''budgeted'', ''lite'']"

definition window_names :: "string list" where
  "window_names = [''daily'', ''weekly'', ''monthly'']"

definition metric_names :: "string list" where
  "metric_names = [''tokens'', ''input_tokens'', ''output_tokens'', ''money'']"

definition window_seconds :: "string \<Rightarrow> rat option" where
  "window_seconds w = map_of [(''daily'', 86400), (''weekly'', 604800), (''monthly'', 2592000)] w"

definition model_classes :: "string list" where
  "model_classes = [''free'', ''metered'', ''unknown'']"

definition as_float :: "float_ops \<Rightarrow> json \<Rightarrow> xfloat \<Rightarrow> xfloat result" where
  "as_float fo v dflt = (case v of
       JInt i \<Rightarrow> float_of_int fo i
     | JFloat f \<Rightarrow> Inr (Fin (fl_val f))
     | JStr s \<Rightarrow> (case fo_parse fo s of Some x \<Rightarrow> Inr x
         | None \<Rightarrow> Inl (ValueError (''could not convert string to float: '' @ repr_string s)))
     | _ \<Rightarrow> Inr dflt)"

definition finite_cap :: "string \<Rightarrow> xfloat \<Rightarrow> rat option result" where
  "finite_cap name x = (case x of
       Fin q \<Rightarrow> if q < 0 then Inl (ValueError (name @ '' must be a finite non-negative number'')) else Inr (Some q)
     | _ \<Rightarrow> Inl (ValueError (name @ '' must be a finite non-negative number'')))"

definition optional_number :: "float_ops \<Rightarrow> string \<Rightarrow> json \<Rightarrow> rat option result" where
  "optional_number fo name v =
     (if v = JNull \<or> py_strip (py_str v) = [] then Inr None else
      res_bind (case v of
          JBool b \<Rightarrow> Inr (Fin (if b then 1 else 0))
        | JInt i \<Rightarrow> float_of_int fo i
        | JFloat f \<Rightarrow> Inr (Fin (fl_val f))
        | JStr s \<Rightarrow> (case fo_parse fo s of Some x \<Rightarrow> Inr x
            | None \<Rightarrow> Inl (ValueError (name @ '' must be a non-negative number or empty'')))
        | _ \<Rightarrow> Inl (ValueError (name @ '' must be a non-negative number or empty'')))
        (finite_cap name))"

type_synonym caps = "(string \<times> rat) list"
type_synonym budget = "(string \<times> caps) list"

definition drop_unset :: "(string \<times> rat option) list \<Rightarrow> caps" where
  "drop_unset kvs = List.map_filter (\<lambda>kv. map_option (Pair (fst kv)) (snd kv)) kvs"

definition metric_cap :: "float_ops \<Rightarrow> string \<Rightarrow> string \<times> json \<Rightarrow> (string \<times> rat option) result" where
  "metric_cap fo window mv = (if fst mv \<notin> set metric_names
     then Inl (ValueError (''unknown maintenance budget metric: '' @ fst mv))
     else res_bind (optional_number fo (window @ ''.'' @ fst mv) (snd mv)) (\<lambda>cap. Inr (fst mv, cap)))"

definition window_caps :: "float_ops \<Rightarrow> string \<times> json \<Rightarrow> (string \<times> caps) result" where
  "window_caps fo wm = (if fst wm \<notin> set window_names
     then Inl (ValueError (''unknown maintenance budget window: '' @ fst wm))
     else (case snd wm of
       JObj metrics \<Rightarrow> res_bind (map_res (metric_cap fo (fst wm)) metrics) (\<lambda>cs. Inr (fst wm, drop_unset cs))
     | _ \<Rightarrow> Inl (TypeError (''maintenance budget '' @ fst wm @ '' must be an object''))))"

definition normalize_budget :: "float_ops \<Rightarrow> json_object \<Rightarrow> budget result" where
  "normalize_budget fo value = res_bind (map_res (window_caps fo) value)
     (\<lambda>ws. Inr (filter (\<lambda>wc. snd wc \<noteq> []) ws))"

subsection \<open>Configuration from the environment\<close>

type_synonym environ = "string \<Rightarrow> string option"

definition getenv :: "environ \<Rightarrow> string \<Rightarrow> string \<Rightarrow> string" where
  "getenv env name dflt = (case env name of None \<Rightarrow> dflt | Some v \<Rightarrow> v)"

definition getenv_json :: "environ \<Rightarrow> string \<Rightarrow> json" where
  "getenv_json env name = (case env name of None \<Rightarrow> JNull | Some v \<Rightarrow> JStr v)"

definition py_upper_ascii :: "string \<Rightarrow> string" where
  "py_upper_ascii s = map (\<lambda>c. let n = code_of c in if 97 \<le> n \<and> n \<le> 122 then char_of (n - 32) else c) s"

definition configured_maintenance_enabled :: "environ \<Rightarrow> bool" where
  "configured_maintenance_enabled env \<longleftrightarrow>
     py_lower (py_strip (getenv env ''LLM_WIKI_MAINTENANCE_ENABLED'' ''false'')) \<in> {''1'', ''true'', ''yes'', ''on''}"

definition configured_maintenance_profile :: "environ \<Rightarrow> string result" where
  "configured_maintenance_profile env =
     (let requested = py_lower (py_strip (getenv env ''LLM_WIKI_MAINTENANCE_PROFILE'' []));
          model_class = py_lower (py_strip (getenv env ''LLM_WIKI_MAINTENANCE_MODEL_CLASS'' ''unknown'')) in
      if requested \<noteq> [] then
        (if requested \<notin> set profile_names
         then Inl (ValueError ''LLM_WIKI_MAINTENANCE_PROFILE must be high, balanced, budgeted, or lite'')
         else Inr requested)
      else if model_class \<notin> set model_classes
      then Inl (ValueError ''LLM_WIKI_MAINTENANCE_MODEL_CLASS must be free, metered, or unknown'')
      else Inr (if model_class = ''free'' then ''high'' else ''lite''))"

definition configured_window :: "float_ops \<Rightarrow> environ \<Rightarrow> string \<Rightarrow> (string \<times> caps) result" where
  "configured_window fo env window = res_bind
     (map_res (\<lambda>metric.
        let name = ''LLM_WIKI_MAINTENANCE_BUDGET_'' @ py_upper_ascii window @ ''_'' @ py_upper_ascii metric in
        res_bind (optional_number fo name (getenv_json env name)) (\<lambda>cap. Inr (metric, cap))) metric_names)
     (\<lambda>cs. Inr (window, drop_unset cs))"

definition configured_maintenance_budget :: "float_ops \<Rightarrow> environ \<Rightarrow> budget result" where
  "configured_maintenance_budget fo env = res_bind (map_res (configured_window fo env) window_names)
     (\<lambda>ws. Inr (filter (\<lambda>wc. snd wc \<noteq> []) ws))"

definition configured_token_budget_rate :: "environ \<Rightarrow> int result" where
  "configured_token_budget_rate env =
     (case int_of_string (py_strip (getenv env ''LLM_WIKI_MAINTENANCE_TOKEN_BUDGET_RATE'' ''100000'')) of
        None \<Rightarrow> Inl (ValueError ''LLM_WIKI_MAINTENANCE_TOKEN_BUDGET_RATE must be a positive integer'')
      | Some i \<Rightarrow> if i \<le> 0 then Inl (ValueError ''LLM_WIKI_MAINTENANCE_TOKEN_BUDGET_RATE must be positive'') else Inr i)"

definition configured_prices :: "float_ops \<Rightarrow> environ \<Rightarrow> (rat option \<times> rat option) result" where
  "configured_prices fo env = (let i = ''LLM_WIKI_MAINTENANCE_PRICE_INPUT_PER_1M''; out = ''LLM_WIKI_MAINTENANCE_PRICE_OUTPUT_PER_1M'' in
     res_bind (optional_number fo i (getenv_json env i)) (\<lambda>p_in.
     res_bind (optional_number fo out (getenv_json env out)) (\<lambda>p_out. Inr (p_in, p_out))))"

subsection \<open>Profiles and the ladder\<close>

record profile_decision =
  pd_requested :: string
  pd_effective :: string
  pd_enabled :: bool
  pd_reason :: string

record profile_level =
  pl_name :: string
  pl_provider :: string
  pl_model :: "string option"
  pl_profile :: string
  pl_budget :: budget

record ladder_decision =
  ld_level :: "profile_level option"
  ld_profile :: profile_decision
  ld_level_index :: "nat option"
  ld_reason :: string

definition resolve_profile :: "float_ops \<Rightarrow> bool \<Rightarrow> string \<Rightarrow> json_object \<Rightarrow> profile_decision result" where
  "resolve_profile fo enabled requested budget = (let r = py_lower (py_strip requested) in
     if r \<notin> set profile_names then Inl (ValueError (''unknown maintenance profile: '' @ r))
     else if \<not> enabled then Inr \<lparr>pd_requested = r, pd_effective = ''off'', pd_enabled = False, pd_reason = ''master_disabled''\<rparr>
     else if r = ''budgeted'' then res_bind (normalize_budget fo budget) (\<lambda>nb.
       Inr (if nb = [] then \<lparr>pd_requested = r, pd_effective = ''lite'', pd_enabled = True,
              pd_reason = ''budgeted_requires_configured_budget''\<rparr>
            else \<lparr>pd_requested = r, pd_effective = r, pd_enabled = True, pd_reason = ''configured''\<rparr>))
     else Inr \<lparr>pd_requested = r, pd_effective = r, pd_enabled = True, pd_reason = ''configured''\<rparr>)"

text \<open>\<^verbatim>\<open>mapping.get(key, {})\<close> whose value is read with \<^verbatim>\<open>get\<close> again.\<close>

definition sub_object :: "json_object \<Rightarrow> string \<Rightarrow> json_object result" where
  "sub_object obj k = (case map_of obj k of None \<Rightarrow> Inr []
     | Some (JObj o') \<Rightarrow> Inr o'
     | Some _ \<Rightarrow> Inl (AttributeError ''object has no attribute get''))"

definition over_cap ::
    "float_ops \<Rightarrow> json_object \<Rightarrow> json_object \<Rightarrow> string \<times> rat \<Rightarrow> bool result" where
  "over_cap fo current estimate mc =
     res_bind (as_float fo (jget current (fst mc)) (Fin 0)) (\<lambda>used.
     res_bind (as_float fo (jget estimate (fst mc)) (Fin 0)) (\<lambda>amount.
       Inr (xgt (xadd fo used amount) (Fin (snd mc)))))"

fun caps_fit ::
    "float_ops \<Rightarrow> json_object \<Rightarrow> json_object \<Rightarrow> caps \<Rightarrow> string option result" where
  "caps_fit fo current estimate [] = Inr None"
| "caps_fit fo current estimate (mc # mcs) = res_bind (over_cap fo current estimate mc) (\<lambda>over.
     if over then Inr (Some (fst mc)) else caps_fit fo current estimate mcs)"

fun windows_fit ::
    "float_ops \<Rightarrow> json_object \<Rightarrow> json_object \<Rightarrow> budget \<Rightarrow> (bool \<times> string) result" where
  "windows_fit fo spend estimate [] = Inr (True, ''within_budget'')"
| "windows_fit fo spend estimate ((w, caps) # ws) = res_bind (sub_object spend w) (\<lambda>current.
     res_bind (caps_fit fo current estimate caps) (\<lambda>hit. case hit of
       Some m \<Rightarrow> Inr (False, w @ ''_'' @ m @ ''_cap'')
     | None \<Rightarrow> windows_fit fo spend estimate ws))"

definition budget_fits ::
    "float_ops \<Rightarrow> json_object \<Rightarrow> json_object \<Rightarrow> json_object \<Rightarrow> (bool \<times> string) result" where
  "budget_fits fo budget spend estimate =
     res_bind (normalize_budget fo budget) (windows_fit fo spend estimate)"

definition budget_json :: "float_ops \<Rightarrow> budget \<Rightarrow> json_object" where
  "budget_json fo b = map (\<lambda>wc. (fst wc, JObj (map (\<lambda>mc. (fst mc, JFloat (PyFloat (snd mc) (fo_repr fo (snd mc)))))
     (snd wc)))) b"

definition read_level :: "float_ops \<Rightarrow> string list \<Rightarrow> nat \<Rightarrow> json \<Rightarrow> profile_level result" where
  "read_level fo names index raw = (case raw of
     JObj obj \<Rightarrow>
       (let name = py_strip (py_str (json_or (jget obj ''name'') (JStr (''level-'' @ nat_str (index + 1)))));
            provider = py_lower (py_strip (str_or_empty (jget obj ''provider'')));
            profile = py_lower (py_strip (py_str (json_or (jget obj ''profile'') (JStr ''balanced''))));
            mv = jget obj ''model'';
            model = (if mv = JNull \<or> mv = JStr [] then None else Some (py_strip (py_str mv)))
        in if name = [] \<or> name \<in> set names
           then Inl (ValueError ''maintenance profile ladder level names must be non-empty and unique'')
           else if provider = [] then Inl (ValueError (''maintenance profile ladder level '' @ name @ '' needs a provider''))
           else if profile \<notin> set profile_names
           then Inl (ValueError (''maintenance profile ladder level '' @ name @ '' has an invalid profile''))
           else res_bind (normalize_budget fo (case jget obj ''budget'' of JObj b \<Rightarrow> b | _ \<Rightarrow> [])) (\<lambda>b.
             Inr \<lparr>pl_name = name, pl_provider = provider, pl_model = model, pl_profile = profile, pl_budget = b\<rparr>))
   | _ \<Rightarrow> Inl (TypeError (''maintenance profile ladder level '' @ nat_str index @ '' must be an object'')))"

fun read_levels :: "float_ops \<Rightarrow> string list \<Rightarrow> nat \<Rightarrow> json list \<Rightarrow> profile_level list result" where
  "read_levels fo names index [] = Inr []"
| "read_levels fo names index (raw # rest) = res_bind (read_level fo names index raw) (\<lambda>l.
     res_bind (read_levels fo (pl_name l # names) (index + 1) rest) (\<lambda>ls. Inr (l # ls)))"

definition normalize_profile_ladder :: "float_ops \<Rightarrow> json \<Rightarrow> profile_level list result" where
  "normalize_profile_ladder fo value = (case value of
       JNull \<Rightarrow> Inr []
     | JStr s \<Rightarrow> if s = [] then Inr [] else Inl (TypeError ''maintenance profile ladder must be a JSON array'')
     | JArr xs \<Rightarrow> if xs = [] then Inr []
         else if length xs > 8 then Inl (ValueError ''maintenance profile ladder must contain 1 to 8 levels'')
         else read_levels fo [] 0 xs
     | _ \<Rightarrow> Inl (TypeError ''maintenance profile ladder must be a JSON array''))"

definition configured_profile_ladder ::
    "float_ops \<Rightarrow> (string \<Rightarrow> json option) \<Rightarrow> environ \<Rightarrow> profile_level list result" where
  "configured_profile_ladder fo json_loads env =
     (let raw = py_strip (getenv env ''LLM_WIKI_MAINTENANCE_PROFILE_LADDER'' []) in
      if raw = [] then Inr [] else (case json_loads raw of
        None \<Rightarrow> Inl (ValueError ''LLM_WIKI_MAINTENANCE_PROFILE_LADDER must be valid JSON'')
      | Some v \<Rightarrow> normalize_profile_ladder fo v))"

definition level_fits ::
    "float_ops \<Rightarrow> json_object \<Rightarrow> json_object \<Rightarrow> json_object \<Rightarrow> profile_level \<Rightarrow> (bool \<times> string) result" where
  "level_fits fo budget spend estimate l =
     res_bind (if pl_budget l \<noteq> [] then Inr (pl_budget l) else normalize_budget fo budget) (\<lambda>b.
     res_bind (normalize_budget fo (budget_json fo b)) (\<lambda>nb.
     res_bind (if nb = [] then Inr [] else sub_object spend (pl_name l)) (\<lambda>level_spend.
       windows_fit fo level_spend estimate nb)))"

fun first_level ::
    "float_ops \<Rightarrow> json_object \<Rightarrow> json_object \<Rightarrow> json_object \<Rightarrow> nat \<Rightarrow> profile_level list \<Rightarrow>
     (nat \<times> profile_level \<times> string) option result" where
  "first_level fo budget spend estimate index [] = Inr None"
| "first_level fo budget spend estimate index (l # ls) = res_bind (level_fits fo budget spend estimate l) (\<lambda>(fits, reason).
     if fits then Inr (Some (index, l, reason)) else first_level fo budget spend estimate (index + 1) ls)"

definition resolve_profile_ladder ::
    "float_ops \<Rightarrow> bool \<Rightarrow> string \<Rightarrow> json_object \<Rightarrow> json \<Rightarrow> json_object \<Rightarrow> json_object \<Rightarrow> ladder_decision result" where
  "resolve_profile_ladder fo enabled requested budget ladder spend estimate =
     res_bind (normalize_profile_ladder fo ladder) (\<lambda>levels.
       if levels = [] then res_bind (resolve_profile fo enabled requested budget) (\<lambda>d.
         Inr \<lparr>ld_level = None, ld_profile = d, ld_level_index = None, ld_reason = pd_reason d\<rparr>)
       else if \<not> enabled then Inr \<lparr>ld_level = None, ld_profile = \<lparr>pd_requested = requested, pd_effective = ''off'',
         pd_enabled = False, pd_reason = ''master_disabled''\<rparr>, ld_level_index = None, ld_reason = ''master_disabled''\<rparr>
       else res_bind (first_level fo budget spend estimate 0 levels) (\<lambda>found. Inr (case found of
         Some (i, l, reason) \<Rightarrow> \<lparr>ld_level = Some l, ld_profile = \<lparr>pd_requested = pl_profile l,
           pd_effective = pl_profile l, pd_enabled = True, pd_reason = ''ladder_selected''\<rparr>,
           ld_level_index = Some i, ld_reason = reason\<rparr>
       | None \<Rightarrow> \<lparr>ld_level = None, ld_profile = \<lparr>pd_requested = requested, pd_effective = ''off'',
           pd_enabled = False, pd_reason = ''all_ladder_levels_exhausted''\<rparr>,
           ld_level_index = None, ld_reason = ''all_ladder_levels_exhausted''\<rparr>)))"

subsection \<open>Spend and windows\<close>

type_synonym spend = "(string \<times> (string \<times> xfloat) list) list"

definition float_values :: "float_ops \<Rightarrow> json_object \<Rightarrow> (string \<times> xfloat) list result" where
  "float_values fo obj = map_res (\<lambda>kv. res_bind (as_float fo (snd kv) (Fin 0)) (\<lambda>x. Inr (fst kv, x))) obj"

definition read_spend :: "float_ops \<Rightarrow> json_object \<Rightarrow> spend result" where
  "read_spend fo spend = map_res (\<lambda>wm. case snd wm of
       JObj metrics \<Rightarrow> res_bind (float_values fo metrics) (\<lambda>ms. Inr (fst wm, ms))
     | _ \<Rightarrow> Inl (AttributeError ''object has no attribute items'')) spend"

definition spend_get :: "(string \<times> xfloat) list \<Rightarrow> string \<Rightarrow> xfloat" where
  "spend_get ms m = (case map_of ms m of None \<Rightarrow> Fin 0 | Some x \<Rightarrow> x)"

definition positive_part :: "xfloat \<Rightarrow> xfloat" where
  "positive_part x = (if xgt x (Fin 0) then x else Fin 0)"

definition add_metrics ::
    "float_ops \<Rightarrow> (string \<times> xfloat) list \<Rightarrow> (string \<times> xfloat) list \<Rightarrow> (string \<times> xfloat) list" where
  "add_metrics fo usage ms = fold (\<lambda>kv ms. AList.update (fst kv)
     (xadd fo (spend_get ms (fst kv)) (positive_part (snd kv))) ms) usage ms"

definition add_to_window :: "float_ops \<Rightarrow> (string \<times> xfloat) list \<Rightarrow> string \<Rightarrow> spend \<Rightarrow> spend" where
  "add_to_window fo usage w sp = AList.update w
     (add_metrics fo usage (case map_of sp w of None \<Rightarrow> [] | Some ms \<Rightarrow> ms)) sp"

definition add_usage :: "float_ops \<Rightarrow> json_object \<Rightarrow> json_object \<Rightarrow> spend result" where
  "add_usage fo spend usage = res_bind (read_spend fo spend) (\<lambda>sp. res_bind (float_values fo usage) (\<lambda>us.
     Inr (filter (\<lambda>wm. snd wm \<noteq> []) (fold (add_to_window fo us) window_names sp))))"

text \<open>The proleptic Gregorian calendar in days from 1970-01-01, and ISO weeks.\<close>

definition day_of_civil :: "int \<Rightarrow> int \<Rightarrow> int \<Rightarrow> int" where
  "day_of_civil y m d = (let y' = (if m \<le> 2 then y - 1 else y); era = y' div 400; yoe = y' - era * 400;
       doy = (153 * (m + (if m > 2 then -3 else 9)) + 2) div 5 + d - 1;
       doe = yoe * 365 + yoe div 4 - yoe div 100 + doy in era * 146097 + doe - 719468)"

definition civil_of_day :: "int \<Rightarrow> int \<times> int \<times> int" where
  "civil_of_day z = (let z' = z + 719468; era = z' div 146097; doe = z' - era * 146097;
       yoe = (doe - doe div 1460 + doe div 36524 - doe div 146096) div 365;
       doy = doe - (365 * yoe + yoe div 4 - yoe div 100); mp = (5 * doy + 2) div 153;
       d = doy - (153 * mp + 2) div 5 + 1; m = (if mp < 10 then mp + 3 else mp - 9);
       y = yoe + era * 400 + (if m \<le> 2 then 1 else 0) in (y, m, d))"

definition weekday :: "int \<Rightarrow> int" where
  "weekday z = (z + 3) mod 7"

definition iso_week :: "int \<Rightarrow> int \<times> int" where
  "iso_week z = (let thursday = z - weekday z + 3; y = fst (civil_of_day thursday)
     in (y, (thursday - day_of_civil y 1 1) div 7 + 1))"

text \<open>\<^verbatim>\<open>datetime.fromtimestamp\<close> in UTC, as a day: microseconds, rounded half to even; years 1 to 9999.\<close>

definition round_half_even :: "rat \<Rightarrow> int" where
  "round_half_even q = (let f = \<lfloor>q\<rfloor>; r = q - of_int f in
     if r < 1 / 2 then f else if r > 1 / 2 then f + 1 else if even f then f else f + 1)"

definition day_of_timestamp :: "xfloat \<Rightarrow> int result" where
  "day_of_timestamp t = (case t of
       Fin q \<Rightarrow> (let z = round_half_even (q * 1000000) div 86400000000 in
         if z < day_of_civil 1 1 1 \<or> z \<ge> day_of_civil 10000 1 1 then Inl (ValueError ''year is out of range'') else Inr z)
     | NaN \<Rightarrow> Inl (ValueError ''cannot convert float NaN to integer'')
     | _ \<Rightarrow> Inl (OverflowError ''cannot convert float infinity to integer''))"

definition window_expired :: "float_ops \<Rightarrow> string \<Rightarrow> string \<Rightarrow> xfloat \<Rightarrow> xfloat \<Rightarrow> bool result" where
  "window_expired fo mode w now start =
     (if mode = ''rolling'' then Inr (xge (xadd fo now (xneg start)) (Fin (the (window_seconds w))))
      else res_bind (day_of_timestamp now) (\<lambda>a. res_bind (day_of_timestamp start) (\<lambda>b. Inr (
        if w = ''daily'' then a \<noteq> b
        else if w = ''weekly'' then iso_week a \<noteq> iso_week b
        else (fst (civil_of_day a), fst (snd (civil_of_day a))) \<noteq> (fst (civil_of_day b), fst (snd (civil_of_day b)))))))"

definition reset_window ::
    "float_ops \<Rightarrow> string \<Rightarrow> xfloat \<Rightarrow> string \<Rightarrow> spend \<times> (string \<times> xfloat) list \<Rightarrow>
     (spend \<times> (string \<times> xfloat) list) result" where
  "reset_window fo mode now w st = (case st of (sp, starts) \<Rightarrow>
     (let start = (case map_of starts w of None \<Rightarrow> now | Some x \<Rightarrow> x) in
      res_bind (window_expired fo mode w now start) (\<lambda>expired. Inr (
        if expired then (AList.delete w sp, AList.update w now starts)
        else (sp, if map_of starts w = None then starts @ [(w, start)] else starts)))))"

fun reset_windows ::
    "float_ops \<Rightarrow> string \<Rightarrow> xfloat \<Rightarrow> string list \<Rightarrow> spend \<times> (string \<times> xfloat) list \<Rightarrow>
     (spend \<times> (string \<times> xfloat) list) result" where
  "reset_windows fo mode now [] st = Inr st"
| "reset_windows fo mode now (w # ws) st = res_bind (reset_window fo mode now w st) (reset_windows fo mode now ws)"

definition read_starts :: "float_ops \<Rightarrow> xfloat \<Rightarrow> json_object \<Rightarrow> (string \<times> xfloat) list result" where
  "read_starts fo now started = map_res (\<lambda>kv. res_bind (as_float fo (snd kv) now) (\<lambda>x. Inr (fst kv, x)))
     (filter (\<lambda>kv. fst kv \<in> set window_names) started)"

definition reset_expired_spend ::
    "float_ops \<Rightarrow> json_object \<Rightarrow> json_object \<Rightarrow> xfloat \<Rightarrow> string \<Rightarrow> (spend \<times> (string \<times> xfloat) list) result" where
  "reset_expired_spend fo spend started now mode =
     (if mode \<notin> {''rolling'', ''calendar''}
      then Inl (ValueError ''maintenance budget window mode must be rolling or calendar'')
      else res_bind (read_spend fo spend) (\<lambda>sp. res_bind (read_starts fo now started) (\<lambda>starts.
        reset_windows fo mode now window_names (sp, starts))))"

definition next_window_reset :: "float_ops \<Rightarrow> xfloat \<Rightarrow> string \<Rightarrow> string \<Rightarrow> xfloat result" where
  "next_window_reset fo now w mode = (case window_seconds w of
       None \<Rightarrow> Inl (ValueError (''unknown maintenance budget window: '' @ w))
     | Some secs \<Rightarrow>
       if mode \<notin> {''rolling'', ''calendar''}
       then Inl (ValueError ''maintenance budget window mode must be rolling or calendar'')
       else if mode = ''rolling'' then Inr (xadd fo now (Fin secs))
       else res_bind (day_of_timestamp now) (\<lambda>z.
         let boundary = (if w = ''daily'' then z + 1
           else if w = ''weekly'' then z - weekday z + 7
           else (case civil_of_day z of (y, m, d) \<Rightarrow>
             if m = 12 then day_of_civil (y + 1) 1 1 else day_of_civil y (m + 1) 1)) in
         if boundary \<ge> day_of_civil 10000 1 1 then Inl (OverflowError ''date value out of range'')
         else Inr (Fin (of_int boundary * 86400))))"

section \<open>Budgets\<close>

lemma caps_fit_Inr:
  "caps_fit fo current estimate caps = Inr hit \<Longrightarrow>
     (hit = None \<longleftrightarrow> (\<forall>mc\<in>set caps. over_cap fo current estimate mc = Inr False))"
  by (induction caps) (auto split: if_splits)

lemma windows_fit_Inr:
  "windows_fit fo spend estimate b = Inr (fits, reason) \<Longrightarrow>
     (fits \<longleftrightarrow> (\<forall>(w, caps)\<in>set b. \<exists>current. sub_object spend w = Inr current \<and>
        (\<forall>mc\<in>set caps. over_cap fo current estimate mc = Inr False)))"
proof (induction b)
  case (Cons wc b)
  obtain w caps where wc: "wc = (w, caps)" by fastforce
  from Cons.prems wc obtain current hit where c: "sub_object spend w = Inr current"
    "caps_fit fo current estimate caps = Inr hit"
    and rest: "case hit of Some m \<Rightarrow> \<not> fits | None \<Rightarrow> windows_fit fo spend estimate b = Inr (fits, reason)"
    by (fastforce split: option.splits)
  note h = caps_fit_Inr [OF c(2)]
  show ?case
  proof (cases hit)
    case None
    with rest Cons.IH h c wc show ?thesis by simp
  next
    case (Some m)
    with rest h c wc show ?thesis by auto
  qed
qed simp

text \<open>C36: an estimate fits a budget exactly when, in every window that has caps, no capped metric goes
  over: used plus estimated does not exceed the cap.\<close>

theorem budget_fits_exact:
  assumes "budget_fits fo budget spend estimate = Inr (fits, reason)"
  shows "\<exists>nb. normalize_budget fo budget = Inr nb \<and>
    (fits \<longleftrightarrow> (\<forall>(w, caps)\<in>set nb. \<exists>current. sub_object spend w = Inr current \<and>
      (\<forall>(m, cap)\<in>set caps. \<exists>used amount. as_float fo (jget current m) (Fin 0) = Inr used \<and>
         as_float fo (jget estimate m) (Fin 0) = Inr amount \<and> \<not> xgt (xadd fo used amount) (Fin cap))))"
proof -
  have o: "over_cap fo current estimate (m, cap) = Inr False \<longleftrightarrow>
      (\<exists>used amount. as_float fo (jget current m) (Fin 0) = Inr used \<and>
         as_float fo (jget estimate m) (Fin 0) = Inr amount \<and> \<not> xgt (xadd fo used amount) (Fin cap))"
    for current m cap by (auto simp: over_cap_def)
  from assms obtain nb where nb: "normalize_budget fo budget = Inr nb"
    "windows_fit fo spend estimate nb = Inr (fits, reason)" by (auto simp: budget_fits_def)
  from windows_fit_Inr [OF nb(2)] nb(1) show ?thesis
    by (simp add: o case_prod_beta) (metis (no_types, lifting) o prod.collapse)
qed

definition exact_floats :: float_ops where
  "exact_floats = \<lparr>fo_parse = (\<lambda>s. map_option (\<lambda>i. Fin (of_int i)) (int_of_string s)), fo_round = Fin,
     fo_repr = (\<lambda>q. ''0.0'')\<rparr>"

definition example_budget :: json_object where
  "example_budget = [(''daily'', JObj [(''tokens'', JInt 50), (''money'', JNull)]), (''weekly'', JObj [])]"

definition example_estimate :: json_object where
  "example_estimate = [(''tokens'', JInt 10)]"

theorem budget_fits_exact_witness:
  "\<exists>nb. normalize_budget exact_floats example_budget = Inr nb \<and>
     \<not> (\<forall>(w, caps)\<in>set nb. \<exists>current. sub_object [(''daily'', JObj [(''tokens'', JInt 45)])] w = Inr current \<and>
      (\<forall>(m, cap)\<in>set caps. \<exists>used amount. as_float exact_floats (jget current m) (Fin 0) = Inr used \<and>
         as_float exact_floats (jget example_estimate m) (Fin 0) = Inr amount \<and>
         \<not> xgt (xadd exact_floats used amount) (Fin cap)))"
proof -
  have "budget_fits exact_floats example_budget [(''daily'', JObj [(''tokens'', JInt 45)])] example_estimate =
      Inr (False, ''daily_tokens_cap'')" by code_simp
  from budget_fits_exact [OF this] show ?thesis by blast
qed

subsection \<open>Normal form\<close>

definition normal_budget :: "budget \<Rightarrow> bool" where
  "normal_budget b \<longleftrightarrow> (\<forall>(w, caps)\<in>set b. w \<in> set window_names \<and> caps \<noteq> [] \<and>
     (\<forall>(m, cap)\<in>set caps. m \<in> set metric_names \<and> 0 \<le> cap))"

lemma finite_cap_nonneg: "finite_cap name x = Inr (Some q) \<Longrightarrow> 0 \<le> q"
  by (cases x) (auto simp: finite_cap_def split: if_splits)

lemma optional_number_nonneg: "optional_number fo name v = Inr (Some q) \<Longrightarrow> 0 \<le> q"
  by (auto simp: optional_number_def dest: finite_cap_nonneg split: if_splits)

lemma set_drop_unset: "(m, q) \<in> set (drop_unset cs) \<longleftrightarrow> (m, Some q) \<in> set cs"
  by (induction cs) (auto simp: drop_unset_def List.map_filter_simps split: option.splits)

lemma window_caps_normal:
  assumes "window_caps fo wm = Inr (w, caps)"
  shows "w \<in> set window_names \<and> (\<forall>(m, cap)\<in>set caps. m \<in> set metric_names \<and> 0 \<le> cap)"
proof -
  from assms obtain metrics cs where cs: "map_res (metric_cap fo (fst wm)) metrics = Inr cs"
    and w: "w = fst wm" "fst wm \<in> set window_names" "caps = drop_unset cs"
    by (auto simp: window_caps_def split: if_splits json.splits)
  from map_res_Inr_set [OF cs] have "\<forall>(m, c)\<in>set cs. m \<in> set metric_names \<and> (\<forall>q. c = Some q \<longrightarrow> 0 \<le> q)"
    by (auto simp: metric_cap_def dest: optional_number_nonneg split: if_splits)
  with w show ?thesis by (fastforce simp: set_drop_unset)
qed

lemma normalize_budget_normal:
  assumes "normalize_budget fo obj = Inr nb"
  shows "normal_budget nb"
proof -
  from assms obtain ws where ws: "map_res (window_caps fo) obj = Inr ws" "nb = filter (\<lambda>wc. snd wc \<noteq> []) ws"
    by (auto simp: normalize_budget_def)
  from map_res_Inr_set [OF ws(1)] window_caps_normal ws(2) show ?thesis
    by (fastforce simp: normal_budget_def)
qed

lemma normalize_normal_budget:
  assumes "normal_budget b" "\<forall>q. py_strip (fo_repr fo q) \<noteq> []"
  shows "normalize_budget fo (budget_json fo b) = Inr b"
proof -
  have num: "optional_number fo name (JFloat (PyFloat q (fo_repr fo q))) = Inr (Some q)" if "0 \<le> q" for name q
    using that assms(2) by (simp add: optional_number_def finite_cap_def)
  have caps: "map_res (metric_cap fo w) (map (\<lambda>mc. (fst mc, JFloat (PyFloat (snd mc) (fo_repr fo (snd mc))))) caps) =
      Inr (map (\<lambda>mc. (fst mc, Some (snd mc))) caps)" if "\<forall>(m, cap)\<in>set caps. m \<in> set metric_names \<and> 0 \<le> cap" for w caps
    using that by (induction caps) (auto simp: metric_cap_def num)
  have drop: "drop_unset (map (\<lambda>mc. (fst mc, Some (snd mc))) caps) = caps" for caps
    by (induction caps) (auto simp: drop_unset_def List.map_filter_simps)
  have "map_res (window_caps fo) (budget_json fo b) = Inr b"
    using assms(1) by (induction b) (auto simp: budget_json_def window_caps_def normal_budget_def caps drop)
  moreover have "filter (\<lambda>wc. snd wc \<noteq> []) b = b"
    using assms(1) by (auto simp: normal_budget_def filter_id_conv)
  ultimately show ?thesis by (simp add: normalize_budget_def)
qed

text \<open>A normalized budget has only known windows with at least one cap each, only known metrics and
  no negative cap, and written back and read again it is unchanged.\<close>

theorem normalize_budget_round_trip:
  assumes "normalize_budget fo obj = Inr nb" "\<forall>q. py_strip (fo_repr fo q) \<noteq> []"
  shows "normal_budget nb \<and> normalize_budget fo (budget_json fo nb) = Inr nb"
  using normalize_budget_normal [OF assms(1)] normalize_normal_budget [OF _ assms(2)] by simp

theorem normalize_budget_round_trip_witness:
  "normalize_budget exact_floats (budget_json exact_floats [(''daily'', [(''tokens'', 50)])]) =
     Inr [(''daily'', [(''tokens'', 50)])]"
proof -
  have "normalize_budget exact_floats example_budget = Inr [(''daily'', [(''tokens'', 50)])]" by code_simp
  moreover have "py_strip ''0.0'' \<noteq> []" by code_simp
  then have "\<forall>q. py_strip (fo_repr exact_floats q) \<noteq> []" by (simp add: exact_floats_def)
  ultimately show ?thesis using normalize_budget_round_trip by blast
qed

section \<open>The ladder\<close>

lemma first_level_Inr:
  "first_level fo budget spend estimate n ls = Inr found \<Longrightarrow>
     (case found of
        None \<Rightarrow> \<forall>l\<in>set ls. \<exists>r. level_fits fo budget spend estimate l = Inr (False, r)
      | Some (i, l, reason) \<Rightarrow> \<exists>k<length ls. i = n + k \<and> l = ls ! k \<and>
          level_fits fo budget spend estimate l = Inr (True, reason) \<and>
          (\<forall>j<k. \<exists>r. level_fits fo budget spend estimate (ls ! j) = Inr (False, r)))"
proof (induction ls arbitrary: n)
  case (Cons l ls)
  from Cons.prems obtain fits reason where f: "level_fits fo budget spend estimate l = Inr (fits, reason)" by auto
  show ?case
  proof (cases fits)
    case True
    with Cons.prems f have "found = Some (n, l, reason)" by simp
    with f True show ?thesis by (auto intro!: exI [of _ 0])
  next
    case False
    with Cons.prems f have "first_level fo budget spend estimate (n + 1) ls = Inr found" by simp
    note ih = Cons.IH [OF this]
    show ?thesis
    proof (cases found)
      case (Some x)
      obtain i l' reason' where x: "x = (i, l', reason')" by (cases x)
      with ih Some obtain k where k: "k < length ls" "i = n + 1 + k" "l' = ls ! k"
        "level_fits fo budget spend estimate l' = Inr (True, reason')"
        "\<forall>j<k. \<exists>r. level_fits fo budget spend estimate (ls ! j) = Inr (False, r)" by auto
      then have "\<forall>j<Suc k. \<exists>r. level_fits fo budget spend estimate ((l # ls) ! j) = Inr (False, r)"
        using f False by (auto simp: less_Suc_eq_0_disj)
      with k Some x show ?thesis by (auto intro!: exI [of _ "Suc k"])
    qed (use ih f False in simp)
  qed
qed simp

text \<open>With maintenance enabled and a non-empty ladder, the level chosen is the first whose budget the
  estimate fits, and every level before it was over budget; when no level fits, maintenance is switched
  off rather than run without a budget.\<close>

theorem ladder_first_affordable:
  assumes "resolve_profile_ladder fo True requested budget ladder spend estimate = Inr d"
    and "normalize_profile_ladder fo ladder = Inr levels" "levels \<noteq> []"
  shows "case ld_level_index d of
      Some i \<Rightarrow> i < length levels \<and> ld_level d = Some (levels ! i) \<and> pd_effective (ld_profile d) = pl_profile (levels ! i) \<and>
        level_fits fo budget spend estimate (levels ! i) = Inr (True, ld_reason d) \<and>
        (\<forall>j<i. \<exists>r. level_fits fo budget spend estimate (levels ! j) = Inr (False, r))
    | None \<Rightarrow> pd_effective (ld_profile d) = ''off'' \<and> \<not> pd_enabled (ld_profile d) \<and> ld_level d = None \<and>
        (\<forall>l\<in>set levels. \<exists>r. level_fits fo budget spend estimate l = Inr (False, r))"
proof -
  from assms obtain found where f: "first_level fo budget spend estimate 0 levels = Inr found"
    and d: "d = (case found of
         Some (i, l, reason) \<Rightarrow> \<lparr>ld_level = Some l, ld_profile = \<lparr>pd_requested = pl_profile l,
           pd_effective = pl_profile l, pd_enabled = True, pd_reason = ''ladder_selected''\<rparr>,
           ld_level_index = Some i, ld_reason = reason\<rparr>
       | None \<Rightarrow> \<lparr>ld_level = None, ld_profile = \<lparr>pd_requested = requested, pd_effective = ''off'',
           pd_enabled = False, pd_reason = ''all_ladder_levels_exhausted''\<rparr>,
           ld_level_index = None, ld_reason = ''all_ladder_levels_exhausted''\<rparr>)"
    by (auto simp: resolve_profile_ladder_def)
  from first_level_Inr [OF f] d show ?thesis by (auto split: option.splits)
qed

definition example_ladder :: json where
  "example_ladder = JArr [JObj [(''name'', JStr ''primary''), (''provider'', JStr ''openai''),
       (''budget'', JObj [(''daily'', JObj [(''tokens'', JInt 5)])])],
     JObj [(''provider'', JStr ''ollama''), (''profile'', JStr ''lite'')]]"

theorem ladder_first_affordable_witness:
  "\<exists>levels d. normalize_profile_ladder exact_floats example_ladder = Inr levels \<and>
     resolve_profile_ladder exact_floats True ''balanced'' [] example_ladder [] example_estimate = Inr d \<and>
     ld_level_index d = Some 1 \<and> ld_level d = Some (levels ! 1) \<and>
     (\<exists>r. level_fits exact_floats [] [] example_estimate (levels ! 0) = Inr (False, r))"
proof -
  let ?levels = "[\<lparr>pl_name = ''primary'', pl_provider = ''openai'', pl_model = None, pl_profile = ''balanced'',
      pl_budget = [(''daily'', [(''tokens'', 5)])]\<rparr>,
    \<lparr>pl_name = ''level-2'', pl_provider = ''ollama'', pl_model = None, pl_profile = ''lite'', pl_budget = []\<rparr>]"
  let ?d = "\<lparr>ld_level = Some (?levels ! 1), ld_profile = \<lparr>pd_requested = ''lite'', pd_effective = ''lite'',
      pd_enabled = True, pd_reason = ''ladder_selected''\<rparr>, ld_level_index = Some 1, ld_reason = ''within_budget''\<rparr>"
  have l: "normalize_profile_ladder exact_floats example_ladder = Inr ?levels" by code_simp
  have d: "resolve_profile_ladder exact_floats True ''balanced'' [] example_ladder [] example_estimate = Inr ?d"
    by code_simp
  from ladder_first_affordable [OF d l] have
    "\<exists>r. level_fits exact_floats [] [] example_estimate (?levels ! 0) = Inr (False, r)" by simp
  with l d show ?thesis by auto
qed

section \<open>Windows\<close>

definition window_start :: "xfloat \<Rightarrow> (string \<times> xfloat) list \<Rightarrow> string \<Rightarrow> xfloat" where
  "window_start now starts w = (case map_of starts w of None \<Rightarrow> now | Some x \<Rightarrow> x)"

lemma reset_window_effect:
  assumes "reset_window fo mode now w (sp, starts) = Inr (sp', starts')"
  shows "\<exists>b. window_expired fo mode w now (window_start now starts w) = Inr b \<and>
    map_of starts' = (map_of starts)(w \<mapsto> (if b then now else window_start now starts w)) \<and>
    map_of sp' = (if b then (map_of sp)(w := None) else map_of sp)"
proof -
  let ?start = "window_start now starts w"
  from assms obtain b where b: "window_expired fo mode w now ?start = Inr b"
    and r: "(sp', starts') = (if b then (AList.delete w sp, AList.update w now starts)
      else (sp, if map_of starts w = None then starts @ [(w, ?start)] else starts))"
    unfolding reset_window_def prod.case Let_def window_start_def [symmetric] res_bind_Inr by auto
  have kept: "map_of (if map_of starts w = None then starts @ [(w, ?start)] else starts) = (map_of starts)(w \<mapsto> ?start)"
    by (auto simp: fun_eq_iff map_add_def window_start_def split: option.splits)
  show ?thesis
  proof (intro exI conjI)
    show "window_expired fo mode w now ?start = Inr b" by (rule b)
    show "map_of starts' = (map_of starts)(w \<mapsto> (if b then now else ?start))"
      using r kept by (cases b) (simp_all add: update_conv')
    show "map_of sp' = (if b then (map_of sp)(w := None) else map_of sp)"
      using r by (cases b) (simp_all add: delete_conv')
  qed
qed

lemma reset_windows_effect:
  assumes "distinct ws" "reset_windows fo mode now ws (sp, starts) = Inr (sp', starts')"
  shows "(\<forall>w\<in>set ws. \<exists>b. window_expired fo mode w now (window_start now starts w) = Inr b \<and>
      map_of starts' w = Some (if b then now else window_start now starts w) \<and>
      map_of sp' w = (if b then None else map_of sp w)) \<and>
    (\<forall>w. w \<notin> set ws \<longrightarrow> map_of sp' w = map_of sp w \<and> map_of starts' w = map_of starts w)"
  using assms
proof (induction ws arbitrary: sp starts)
  case (Cons v ws)
  from Cons.prems(2) obtain sp1 starts1 where r: "reset_window fo mode now v (sp, starts) = Inr (sp1, starts1)"
    and rest: "reset_windows fo mode now ws (sp1, starts1) = Inr (sp', starts')" by auto
  from reset_window_effect [OF r] obtain b where b: "window_expired fo mode v now (window_start now starts v) = Inr b"
    "map_of starts1 = (map_of starts)(v \<mapsto> (if b then now else window_start now starts v))"
    "map_of sp1 = (if b then (map_of sp)(v := None) else map_of sp)" by blast
  note ih = Cons.IH [OF _ rest]
  have other: "window_start now starts1 w = window_start now starts w" "map_of sp1 w = map_of sp w"
    "map_of starts1 w = map_of starts w" if "w \<noteq> v" for w
    using that b by (auto simp: window_start_def)
  have n: "v \<notin> set ws" and d: "distinct ws" using Cons.prems(1) by auto
  have "\<exists>b. window_expired fo mode w now (window_start now starts w) = Inr b \<and>
      map_of starts' w = Some (if b then now else window_start now starts w) \<and>
      map_of sp' w = (if b then None else map_of sp w)" if w: "w \<in> set (v # ws)" for w
  proof (cases "w = v")
    case True
    with ih [OF d] n b show ?thesis by (intro exI [of _ b]) simp
  next
    case False
    with w have "w \<in> set ws" by simp
    with ih [OF d] other [OF False] show ?thesis by metis
  qed
  moreover have "\<forall>w. w \<notin> set (v # ws) \<longrightarrow> map_of sp' w = map_of sp w \<and> map_of starts' w = map_of starts w"
    using ih [OF d] other by simp
  ultimately show ?case by blast
qed simp

text \<open>resetting treats each window on its own: a window is dropped from the spend exactly when it has
  expired, and then restarts now; otherwise its spend and its start are kept, a window without a start
  starting now. Spend recorded under any other name is kept.\<close>

theorem reset_expired_spend_per_window:
  assumes "reset_expired_spend fo spend started now mode = Inr (sp', starts')"
    and "read_spend fo spend = Inr sp" "read_starts fo now started = Inr starts"
  shows "(\<forall>w\<in>set window_names. \<exists>b. window_expired fo mode w now (window_start now starts w) = Inr b \<and>
      map_of starts' w = Some (if b then now else window_start now starts w) \<and>
      map_of sp' w = (if b then None else map_of sp w)) \<and>
    (\<forall>w. w \<notin> set window_names \<longrightarrow> map_of sp' w = map_of sp w)"
proof -
  have "distinct window_names" by (simp add: window_names_def)
  moreover have "reset_windows fo mode now window_names (sp, starts) = Inr (sp', starts')"
    using assms by (auto simp: reset_expired_spend_def split: if_splits)
  ultimately show ?thesis using reset_windows_effect by blast
qed

theorem reset_expired_spend_per_window_witness:
  "\<exists>sp' starts'. reset_expired_spend exact_floats [(''daily'', JObj [(''tokens'', JInt 7)]),
       (''weekly'', JObj [(''tokens'', JInt 9)])] [(''daily'', JInt 0), (''weekly'', JInt 0)] (Fin 90000) ''rolling'' =
       Inr (sp', starts') \<and> map_of starts' ''monthly'' \<noteq> None \<and> map_of sp' ''other'' = None"
proof -
  let ?s = "[(''daily'', JObj [(''tokens'', JInt 7)]), (''weekly'', JObj [(''tokens'', JInt 9)])]"
    and ?t = "[(''daily'', JInt 0), (''weekly'', JInt 0)]"
  let ?sp = "[(''daily'', [(''tokens'', Fin 7)]), (''weekly'', [(''tokens'', Fin 9)])]"
    and ?sp' = "[(''weekly'', [(''tokens'', Fin 9)])]" and ?st = "[(''daily'', Fin 0), (''weekly'', Fin 0)]"
    and ?st' = "[(''daily'', Fin 90000), (''weekly'', Fin 0)]"
  have r2: "read_spend exact_floats ?s = Inr ?sp" by code_simp
  have r3: "read_starts exact_floats (Fin 90000) ?t = Inr ?st" by code_simp
  have "reset_window exact_floats ''rolling'' (Fin 90000) ''daily'' (?sp, ?st) = Inr (?sp', ?st')"
    "reset_window exact_floats ''rolling'' (Fin 90000) ''weekly'' (?sp', ?st') = Inr (?sp', ?st')"
    "reset_window exact_floats ''rolling'' (Fin 90000) ''monthly'' (?sp', ?st') =
      Inr (?sp', ?st' @ [(''monthly'', Fin 90000)])" by code_simp+
  then have r1: "reset_expired_spend exact_floats ?s ?t (Fin 90000) ''rolling'' =
      Inr (?sp', ?st' @ [(''monthly'', Fin 90000)])"
    by (simp add: reset_expired_spend_def r2 r3 window_names_def)
  from reset_expired_spend_per_window [OF r1 r2 r3] r1 show ?thesis
    by (simp add: window_names_def)
qed

end
