(* ===== verification/Json_Text.thy ===== *)
theory Json_Text
  imports Wiki_Prelude
begin

text \<open>
  The text \<^verbatim>\<open>json.dumps\<close> writes for a decoded JSON value, which the notification jobs and the contact
  evidence are hashed from.
\<close>

text \<open>\<^verbatim>\<open>json.dumps\<close> with ASCII output: the escape of a character.\<close>

definition json_char :: "char \<Rightarrow> string" where
  "json_char c = (let n = code_of c; b = char_of (92::nat) in
     if n = 34 \<or> n = 92 then [b, c]
     else if n = 10 then [b, CHR ''n''] else if n = 13 then [b, CHR ''r''] else if n = 9 then [b, CHR ''t'']
     else if n = 8 then [b, CHR ''b''] else if n = 12 then [b, CHR ''f'']
     else if n < 32 \<or> 127 \<le> n
       then [b, CHR ''u'', CHR ''0'', CHR ''0'', hex_digit (n div 16), hex_digit (n mod 16)]
     else [c])"

lemma json_char_code [code]:
  "json_char c = (let n = char_int c; b = char_of (92::int) in
     if n = 34 \<or> n = 92 then [b, c]
     else if n = 10 then [b, CHR ''n''] else if n = 13 then [b, CHR ''r''] else if n = 9 then [b, CHR ''t'']
     else if n = 8 then [b, CHR ''b''] else if n = 12 then [b, CHR ''f'']
     else if n < 32 \<or> 127 \<le> n
       then [b, CHR ''u'', CHR ''0'', CHR ''0'', hex_digit (code_of c div 16), hex_digit (code_of c mod 16)]
     else [c])"
proof -
  have "char_of (92::nat) = char_of (92::int)" by (metis char_of_nat of_nat_numeral)
  then show ?thesis by (simp add: json_char_def Let_def code_of_compare)
qed

definition json_string :: "string \<Rightarrow> string" where
  "json_string s = [char_of (34::nat)] @ concat (map json_char s) @ [char_of (34::nat)]"

text \<open>A list of strings with no spaces.\<close>

definition json_strings :: "string list \<Rightarrow> string" where
  "json_strings xs = ''['' @ join_str '','' (map json_string xs) @ '']''"

text \<open>\<^verbatim>\<open>json.dumps\<close> with compact separators: \<open>esc\<close> is the escaping of a character, \<open>srt\<close> the
  \<^verbatim>\<open>sort_keys\<close> flag.\<close>

definition json_char_raw :: "char \<Rightarrow> string" where
  "json_char_raw c = (if 127 \<le> code_of c then [c] else json_char c)"

definition dump_string :: "(char \<Rightarrow> string) \<Rightarrow> string \<Rightarrow> string" where
  "dump_string esc s = [char_of (34::nat)] @ concat (map esc s) @ [char_of (34::nat)]"

fun json_dumps :: "(char \<Rightarrow> string) \<Rightarrow> bool \<Rightarrow> json \<Rightarrow> string"
  and dump_items :: "(char \<Rightarrow> string) \<Rightarrow> bool \<Rightarrow> json list \<Rightarrow> string list"
  and dump_pairs :: "(char \<Rightarrow> string) \<Rightarrow> bool \<Rightarrow> json_object \<Rightarrow> (string \<times> string) list" where
  "json_dumps esc srt JNull = ''null''"
| "json_dumps esc srt (JBool b) = (if b then ''true'' else ''false'')"
| "json_dumps esc srt (JInt i) = int_str i"
| "json_dumps esc srt (JFloat f) = fl_repr f"
| "json_dumps esc srt (JStr s) = dump_string esc s"
| "json_dumps esc srt (JArr xs) = ''['' @ join_str '','' (dump_items esc srt xs) @ '']''"
| "json_dumps esc srt (JObj kvs) = ''{'' @ join_str '','' (map (\<lambda>(k, v). dump_string esc k @ '':'' @ v)
     (if srt then sort_key fst (dump_pairs esc srt kvs) else dump_pairs esc srt kvs)) @ ''}''"
| "dump_items esc srt [] = []"
| "dump_items esc srt (x # xs) = json_dumps esc srt x # dump_items esc srt xs"
| "dump_pairs esc srt [] = []"
| "dump_pairs esc srt ((k, v) # kvs) = (k, json_dumps esc srt v) # dump_pairs esc srt kvs"

definition utf8_length :: "string \<Rightarrow> int" where
  "utf8_length s = sum_list (map (\<lambda>c. if code_of c < 128 then 1 else 2) s)"

lemma json_char_raw_code [code]: "json_char_raw c = (if 127 \<le> char_int c then [c] else json_char c)"
  by (simp add: json_char_raw_def code_of_compare)

lemma utf8_length_code [code]: "utf8_length s = sum_list (map (\<lambda>c. if char_int c < 128 then 1 else 2) s)"
  by (simp add: utf8_length_def code_of_compare)

end
