(* ===== verification/Notification_Digest.thy ===== *)
theory Notification_Digest
  imports Json_Text
begin

text \<open>
  Grouping events into a digest, and the closed windows (app\_contracts/notification\_digest.py).
  A time-zone-aware datetime is the instant it denotes, in microseconds from 1970-01-01 UTC;
  its \<^verbatim>\<open>isoformat\<close> is a parameter, as is \<^verbatim>\<open>sha256\<close>. The authorization callback is a
  predicate on workspace and source.
\<close>

section \<open>Definitions\<close>

datatype severity = SevInfo | SevNormal | SevHigh | SevCritical

fun severity_rank :: "severity \<Rightarrow> nat" where
  "severity_rank SevInfo = 0"
| "severity_rank SevNormal = 1"
| "severity_rank SevHigh = 2"
| "severity_rank SevCritical = 3"

definition is_urgent :: "severity \<Rightarrow> bool" where
  "is_urgent s \<longleftrightarrow> s \<in> {SevHigh, SevCritical}"

definition directional_controls :: "nat list" where
  "directional_controls = [1564, 8206, 8207] @ [8234..<8239] @ [8294..<8298]"

definition safe_display_text :: "string \<Rightarrow> string" where
  "safe_display_text s = filter (\<lambda>c. code_of c \<notin> set directional_controls) s"

definition has_control :: "string \<Rightarrow> bool" where
  "has_control s \<longleftrightarrow> (\<exists>c\<in>set s. code_of c < 32 \<or> code_of c = 127)"

lemma has_control_code [code]: "has_control s = list_ex (\<lambda>c. let n = char_int c in n < 32 \<or> n = 127) s"
  by (simp add: has_control_def list_ex_iff Let_def code_of_compare)

record notification_event =
  ne_event_id :: string
  ne_workspace_id :: string
  ne_source_id :: string
  ne_source_revision_id :: string
  ne_occurred_at :: int
  ne_title :: string
  ne_severity :: severity
  ne_dedupe_key :: "string option"
  ne_action_required :: bool
  ne_duplicate_key :: "string option"

definition check_text :: "string \<Rightarrow> string \<Rightarrow> check" where
  "check_text name v = checks
     [raise_if (py_strip v = []) (ValueError (name @ '' must be a non-empty string'')),
      raise_if (has_control v) (ValueError (name @ '' must not contain control characters''))]"

definition check_key :: "string \<Rightarrow> string option \<Rightarrow> check" where
  "check_key name v = (case v of None \<Rightarrow> None
     | Some k \<Rightarrow> raise_if (py_strip k = [] \<or> has_control k)
         (ValueError (name @ '' must be non-empty and contain no controls'')))"

definition notification_event_init :: "notification_event \<Rightarrow> notification_event result" where
  "notification_event_init e = (let e = e\<lparr>ne_title := safe_display_text (ne_title e)\<rparr> in
     check_then (checks
       [check_text ''event_id'' (ne_event_id e), check_text ''workspace_id'' (ne_workspace_id e),
        check_text ''source_id'' (ne_source_id e), check_text ''source_revision_id'' (ne_source_revision_id e),
        check_text ''title'' (ne_title e),
        check_key ''dedupe_key'' (ne_dedupe_key e), check_key ''duplicate_key'' (ne_duplicate_key e)]) (Inr e))"

record digest_item =
  di_item_id :: string
  di_workspace_id :: string
  di_summary :: string
  di_severity :: severity
  di_action_required :: bool
  di_source_event_ids :: "string list"
  di_evidence_refs :: "(string \<times> string \<times> string) list"
  di_urgent :: bool
  di_logical_event_count :: int
  di_duplicate_copy_count :: int

definition digest_item_init :: "digest_item \<Rightarrow> digest_item result" where
  "digest_item_init i = (let i = i\<lparr>di_summary := safe_display_text (di_summary i)\<rparr> in
     check_then (checks
       [check_text ''item_id'' (di_item_id i), check_text ''workspace_id'' (di_workspace_id i),
        check_text ''summary'' (di_summary i),
        raise_if (di_source_event_ids i = []) (ValueError ''source_event_ids must be a non-empty tuple''),
        raise_if (\<exists>e\<in>set (di_source_event_ids i). py_strip e = [])
          (ValueError ''source_event_ids must contain non-empty strings''),
        raise_if (\<not> distinct (di_source_event_ids i)) (ValueError ''source_event_ids must be unique''),
        raise_if (\<exists>(a, b, c)\<in>set (di_evidence_refs i). py_strip a = [] \<or> py_strip b = [] \<or> py_strip c = [])
          (ValueError ''evidence_refs must contain source, revision, and event IDs''),
        raise_if (length (di_evidence_refs i) \<noteq> length (di_source_event_ids i) \<or>
            (snd \<circ> snd) ` set (di_evidence_refs i) \<noteq> set (di_source_event_ids i))
          (ValueError ''source event IDs must match evidence references''),
        raise_if (di_logical_event_count i < 1) (ValueError ''logical_event_count must be a positive integer''),
        raise_if (di_duplicate_copy_count i < 0) (ValueError ''duplicate_copy_count must be a non-negative integer''),
        raise_if (di_logical_event_count i + di_duplicate_copy_count i \<noteq> int (length (di_source_event_ids i)))
          (ValueError ''logical and duplicate counts must match source event count'')]) (Inr i))"

record notification_digest =
  nd_workspace_id :: string
  nd_window_start :: int
  nd_window_end :: int
  nd_routine :: "digest_item list"
  nd_urgent :: "digest_item list"

definition digest_items :: "notification_digest \<Rightarrow> digest_item list" where
  "digest_items d = nd_routine d @ nd_urgent d"

definition notification_digest_init :: "notification_digest \<Rightarrow> notification_digest result" where
  "notification_digest_init d = check_then (checks
     [raise_if (py_strip (nd_workspace_id d) = []) (ValueError ''workspace_id must be a non-empty string''),
      raise_if (nd_window_end d \<le> nd_window_start d) (ValueError ''window_start must be earlier than window_end''),
      raise_if (\<exists>i\<in>set (digest_items d). di_workspace_id i \<noteq> nd_workspace_id d)
        (ValueError ''digest items must belong to the digest workspace''),
      raise_if (\<exists>i\<in>set (nd_routine d). di_urgent i \<or> is_urgent (di_severity i))
        (ValueError ''routine digest items must not be urgent''),
      raise_if (\<exists>i\<in>set (nd_urgent d). \<not> di_urgent i \<or> \<not> is_urgent (di_severity i))
        (ValueError ''urgent digest items must have high or critical severity''),
      raise_if (\<not> distinct (map di_item_id (digest_items d))) (ValueError ''digest item IDs must be unique''),
      raise_if (\<not> distinct (concat (map di_source_event_ids (digest_items d))))
        (ValueError ''source event IDs must appear in only one digest item'')]) (Inr d)"

subsection \<open>Building a digest\<close>

text \<open>The first element with the greatest key, as Python's \<^verbatim>\<open>max\<close>.\<close>

fun max_by :: "('a \<Rightarrow> 'b::linorder) \<Rightarrow> 'a \<Rightarrow> 'a list \<Rightarrow> 'a" where
  "max_by f x [] = x"
| "max_by f x (y # ys) = max_by f (if f y > f x then y else x) ys"

type_synonym iso_fn = "int \<Rightarrow> string"

definition logical_key :: "notification_event \<Rightarrow> string" where
  "logical_key e = (case ne_duplicate_key e of
       Some k \<Rightarrow> if k \<noteq> [] then k else ''event:'' @ ne_event_id e
     | None \<Rightarrow> ''event:'' @ ne_event_id e)"

definition item_summary :: "string \<Rightarrow> nat \<Rightarrow> nat \<Rightarrow> string" where
  "item_summary title logical copies =
     (if logical > 1 then title @ '' ('' @ nat_str logical @ '' updates)'' @
        (if copies - logical > 0 then '' plus '' @ nat_str (copies - logical) @ '' duplicate copies'' else [])
      else if copies > 1 then title @ '' ('' @ nat_str copies @ '' copies)''
      else title)"

definition make_item ::
    "hash_fn \<Rightarrow> iso_fn \<Rightarrow> string \<Rightarrow> int \<Rightarrow> int \<Rightarrow> string \<Rightarrow> notification_event list \<Rightarrow> bool \<Rightarrow> digest_item result" where
  "make_item sha isoformat ws start end_at key events urgent =
     (let es = sort_key (\<lambda>e. (ne_event_id e, ne_source_id e)) events;
          latest = max_by (\<lambda>e. (ne_occurred_at e, ne_event_id e)) (hd es) (tl es);
          logical = card (set (map logical_key es))
      in digest_item_init
       \<lparr>di_item_id = ''notification:'' @ take 32 (sha (json_strings [ws, isoformat start, isoformat end_at, key])),
        di_workspace_id = ws, di_summary = item_summary (ne_title latest) logical (length es),
        di_severity = max_by severity_rank (ne_severity (hd es)) (map ne_severity (tl es)),
        di_action_required = (\<exists>e\<in>set es. ne_action_required e),
        di_source_event_ids = map ne_event_id es,
        di_evidence_refs = map (\<lambda>e. (ne_source_id e, ne_source_revision_id e, ne_event_id e)) es,
        di_urgent = urgent, di_logical_event_count = int logical,
        di_duplicate_copy_count = int (length es) - int logical\<rparr>)"

definition urgent_key :: "notification_event \<Rightarrow> string" where
  "urgent_key e = (case ne_duplicate_key e of Some k \<Rightarrow> ''duplicate:'' @ k | None \<Rightarrow> ''event:'' @ ne_event_id e)"

definition routine_key :: "notification_event \<Rightarrow> string" where
  "routine_key e = (case ne_dedupe_key e of Some k \<Rightarrow> ''dedupe:'' @ k | None \<Rightarrow> ''event:'' @ ne_event_id e)"

definition add_to_group ::
    "(notification_event \<Rightarrow> string) \<Rightarrow> notification_event \<Rightarrow> (string \<times> notification_event list) list \<Rightarrow>
     (string \<times> notification_event list) list" where
  "add_to_group key e d = AList.update (key e) ((case map_of d (key e) of None \<Rightarrow> [] | Some g \<Rightarrow> g) @ [e]) d"

definition group_events ::
    "(notification_event \<Rightarrow> string) \<Rightarrow> notification_event list \<Rightarrow> (string \<times> notification_event list) list" where
  "group_events key es = sort_key fst (fold (add_to_group key) es [])"

fun collect_unique ::
    "(string \<Rightarrow> string \<Rightarrow> bool) \<Rightarrow> string \<Rightarrow> int \<Rightarrow> int \<Rightarrow> (string \<times> notification_event) list \<Rightarrow> notification_event list \<Rightarrow>
     (string \<times> notification_event) list result" where
  "collect_unique auth ws start end_at unique [] = Inr unique"
| "collect_unique auth ws start end_at unique (e # es) = check_then (checks
     [raise_if (ne_workspace_id e \<noteq> ws) (ValueError ''notification digest cannot mix workspaces''),
      raise_if (\<not> auth (ne_workspace_id e) (ne_source_id e)) (PermissionError ''notification source is not authorized''),
      raise_if (ne_occurred_at e < start \<or> end_at \<le> ne_occurred_at e)
        (ValueError ''notification event falls outside digest window''),
      raise_if (case map_of unique (ne_event_id e) of None \<Rightarrow> False | Some prior \<Rightarrow> prior \<noteq> e)
        (ValueError ''event_id identifies conflicting notification payloads'')])
     (collect_unique auth ws start end_at (AList.update (ne_event_id e) e unique) es)"

definition build_notification_digest ::
    "hash_fn \<Rightarrow> iso_fn \<Rightarrow> (string \<Rightarrow> string \<Rightarrow> bool) \<Rightarrow> string \<Rightarrow> int \<Rightarrow> int \<Rightarrow> int \<Rightarrow> notification_event list \<Rightarrow>
     notification_digest result" where
  "build_notification_digest sha isoformat auth ws start end_at max_events events =
     check_then (checks
       [raise_if (end_at \<le> start) (ValueError ''window_start must be earlier than window_end''),
        raise_if (max_events < 1) (ValueError ''max_events must be a positive integer''),
        raise_if (int (length events) > max_events) (ValueError ''notification digest event batch exceeds max_events'')])
     (res_bind (collect_unique auth ws start end_at [] events) (\<lambda>unique.
        let ordered = sort_key (\<lambda>e. (ne_occurred_at e, ne_event_id e)) (map snd unique);
            urgent_groups = group_events urgent_key (filter (\<lambda>e. is_urgent (ne_severity e)) ordered);
            routine_groups = group_events routine_key (filter (\<lambda>e. \<not> is_urgent (ne_severity e)) ordered) in
        res_bind (map_res (\<lambda>(k, g). make_item sha isoformat ws start end_at k g False) routine_groups) (\<lambda>routine.
        res_bind (map_res (\<lambda>(k, g). make_item sha isoformat ws start end_at k g True) urgent_groups) (\<lambda>urgent.
          notification_digest_init \<lparr>nd_workspace_id = ws, nd_window_start = start, nd_window_end = end_at,
            nd_routine = routine, nd_urgent = urgent\<rparr>))))"

subsection \<open>Closed windows\<close>

definition second :: int where
  "second = 1000000"

definition closed_notification_windows ::
    "int \<Rightarrow> int \<Rightarrow> int \<Rightarrow> int \<Rightarrow> int \<Rightarrow> (int \<times> int) list result" where
  "closed_notification_windows after now cadence delay max_windows =
     (let cursor = after div second; cutoff = (now - delay * second) div second;
          finalized_end = (cutoff div cadence) * cadence; count = (finalized_end - cursor) div cadence in
      check_then (checks
        [raise_if (cadence \<le> 0) (ValueError ''cadence_seconds must be a positive integer''),
         raise_if (delay < 0) (ValueError ''finalize_delay_seconds must be a non-negative integer''),
         raise_if (max_windows \<le> 0) (ValueError ''max_windows must be a positive integer''),
         raise_if (after \<noteq> cursor * second \<or> cursor mod cadence \<noteq> 0)
           (ValueError ''after must align to a UTC cadence boundary''),
         raise_if (now < after) (ValueError ''now must not precede the notification cursor'')])
      (if finalized_end \<le> cursor then Inr []
       else if count > max_windows
       then Inl (ValueError ''finalized notification window backlog exceeds max_windows'')
       else Inr (map (\<lambda>k. ((cursor + int k * cadence) * second, (cursor + int k * cadence + cadence) * second))
         [0..<nat count])))"

section \<open>No event is lost or leaked\<close>

lemma safe_display_text_id [simp, code]: "safe_display_text s = s"
proof -
  have "\<forall>n\<in>set directional_controls. 256 \<le> n" by (simp add: directional_controls_def)
  then have "code_of c \<notin> set directional_controls" for c
    using nat_of_char_less_256 [of c] unfolding code_of_def by (meson not_less)
  then show ?thesis by (simp add: safe_display_text_def)
qed

definition event_admitted ::
    "(string \<Rightarrow> string \<Rightarrow> bool) \<Rightarrow> string \<Rightarrow> int \<Rightarrow> int \<Rightarrow> notification_event \<Rightarrow> bool" where
  "event_admitted auth ws start end_at e \<longleftrightarrow> ne_workspace_id e = ws \<and> auth ws (ne_source_id e) \<and>
     start \<le> ne_occurred_at e \<and> ne_occurred_at e < end_at"

text \<open>Each identifier keeps one event, under its own identifier.\<close>

definition keyed_by_id :: "(string \<times> notification_event) list \<Rightarrow> bool" where
  "keyed_by_id u \<longleftrightarrow> distinct (map fst u) \<and> (\<forall>(i, e)\<in>set u. i = ne_event_id e)"

lemma update_same_or_new:
  assumes "keyed_by_id u" "case map_of u (ne_event_id e) of None \<Rightarrow> True | Some prior \<Rightarrow> prior = e"
  shows "keyed_by_id (AList.update (ne_event_id e) e u)"
    "set (map snd (AList.update (ne_event_id e) e u)) = insert e (set (map snd u))"
proof -
  have u: "AList.update (ne_event_id e) e u = (case map_of u (ne_event_id e) of None \<Rightarrow> u @ [(ne_event_id e, e)] | Some _ \<Rightarrow> u)"
    using assms(2) by (induction u) (auto split: option.splits if_splits)
  show "keyed_by_id (AList.update (ne_event_id e) e u)"
    using assms(1) by (auto simp: u keyed_by_id_def map_of_eq_None_iff split: option.splits)
  show "set (map snd (AList.update (ne_event_id e) e u)) = insert e (set (map snd u))"
    using assms(2) by (auto simp: u split: option.splits dest: map_of_SomeD intro: image_eqI [where x = "(ne_event_id e, e)"])
qed

lemma collect_unique_Inr:
  assumes "collect_unique auth ws start end_at u es = Inr u'" "keyed_by_id u"
  shows "(\<forall>e\<in>set es. event_admitted auth ws start end_at e) \<and> keyed_by_id u' \<and>
    set (map snd u') = set (map snd u) \<union> set es"
  using assms
proof (induction es arbitrary: u)
  case (Cons e es)
  let ?u = "AList.update (ne_event_id e) e u"
  from Cons.prems(1) have a: "event_admitted auth ws start end_at e"
    and p: "case map_of u (ne_event_id e) of None \<Rightarrow> True | Some prior \<Rightarrow> prior = e"
    and r: "collect_unique auth ws start end_at ?u es = Inr u'"
    by (auto simp: event_admitted_def not_less not_le split: option.splits)
  note k = update_same_or_new [OF Cons.prems(2) p]
  from Cons.IH [OF r k(1)] k(2) a show ?case by (simp del: set_map)
qed simp

text \<open>Grouping permutes: the groups together hold every event once, each under its own key.\<close>

definition group_contents :: "(string \<times> notification_event list) list \<Rightarrow> notification_event multiset" where
  "group_contents d = sum_list (map (mset \<circ> snd) d)"

lemma group_contents_update:
  "distinct (map fst d) \<Longrightarrow> group_contents (AList.update k g d) +
     mset (case map_of d k of None \<Rightarrow> [] | Some g0 \<Rightarrow> g0) = group_contents d + mset g"
  by (induction d) (auto simp: group_contents_def ac_simps)

lemma fold_groups:
  assumes "distinct (map fst d)" "\<forall>(k, g)\<in>set d. g \<noteq> []"
  shows "distinct (map fst (fold (add_to_group key) es d)) \<and>
    (\<forall>(k, g)\<in>set (fold (add_to_group key) es d). g \<noteq> []) \<and>
    group_contents (fold (add_to_group key) es d) = group_contents d + mset es"
  using assms
proof (induction es arbitrary: d)
  case (Cons e es)
  let ?g = "(case map_of d (key e) of None \<Rightarrow> [] | Some g \<Rightarrow> g) @ [e]"
  have "distinct (map fst (add_to_group key e d))"
    using Cons.prems(1) by (simp add: add_to_group_def distinct_update)
  moreover have "\<forall>(k, g)\<in>set (add_to_group key e d). g \<noteq> []"
    using Cons.prems(2) set_alist_update [of "key e" ?g d] by (auto simp: add_to_group_def)
  moreover have "group_contents (add_to_group key e d) = group_contents d + {#e#}"
    using group_contents_update [OF Cons.prems(1), of "key e" ?g] by (auto simp: add_to_group_def split: option.splits)
  ultimately show ?case using Cons.IH [of "add_to_group key e d"] by simp
qed simp

lemma group_events_contents:
  "(\<forall>(k, g)\<in>set (group_events key es). g \<noteq> []) \<and> group_contents (group_events key es) = mset es"
proof -
  let ?d = "fold (add_to_group key) es []"
  have "group_contents (sort_key fst ?d) = group_contents ?d"
    unfolding group_contents_def by (metis mset_map mset_sort sum_mset_sum_list)
  then show ?thesis
    using fold_groups [of "[]" key es] by (simp add: group_events_def group_contents_def)
qed

lemma make_item_ids:
  "make_item sha isoformat ws start end_at k g urgent = Inr i \<Longrightarrow> mset (di_source_event_ids i) = image_mset ne_event_id (mset g)"
  by (auto simp: make_item_def digest_item_init_def Let_def)

lemma make_items_ids:
  "map_res (\<lambda>(k, g). make_item sha isoformat ws start end_at k g urgent) gs = Inr items \<Longrightarrow>
     mset (concat (map di_source_event_ids items)) = image_mset ne_event_id (group_contents gs)"
proof (induction gs arbitrary: items)
  case Nil
  then show ?case by (simp add: group_contents_def)
next
  case (Cons kg gs)
  obtain k g where kg: "kg = (k, g)" by fastforce
  from Cons.prems kg obtain i rest where i: "make_item sha isoformat ws start end_at k g urgent = Inr i"
    and r: "map_res (\<lambda>(k, g). make_item sha isoformat ws start end_at k g urgent) gs = Inr rest" "items = i # rest"
    by auto
  from Cons.IH [OF r(1)] make_item_ids [OF i] r(2) kg show ?case by (simp add: group_contents_def)
qed

lemma grouped_ids:
  assumes "map_res (\<lambda>(k, g). make_item sha isoformat ws start end_at k g urgent) (group_events key es) = Inr items"
  shows "set (concat (map di_source_event_ids items)) = ne_event_id ` set es"
proof -
  have "set_mset (mset (concat (map di_source_event_ids items))) = ne_event_id ` set es"
    using make_items_ids [OF assms] group_events_contents [of key es] by simp
  then show ?thesis by simp
qed

text \<open>C13: a digest is built only from events of its workspace and window whose source is authorized, and
  it accounts for each of them: every event appears in exactly one item, among the urgent items if its
  severity is high or critical and among the routine ones otherwise.\<close>

theorem digest_accounts_for_events:
  assumes "build_notification_digest sha isoformat auth ws start end_at max_events events = Inr d"
  shows "(\<forall>e\<in>set events. event_admitted auth ws start end_at e) \<and>
    distinct (concat (map di_source_event_ids (digest_items d))) \<and>
    set (concat (map di_source_event_ids (nd_urgent d))) = ne_event_id ` {e \<in> set events. is_urgent (ne_severity e)} \<and>
    set (concat (map di_source_event_ids (nd_routine d))) = ne_event_id ` {e \<in> set events. \<not> is_urgent (ne_severity e)}"
proof -
  let ?sorted = "\<lambda>u. sort_key (\<lambda>e. (ne_occurred_at e, ne_event_id e)) (map snd u)"
  from assms obtain u routine urgent where u: "collect_unique auth ws start end_at [] events = Inr u"
    and r: "map_res (\<lambda>(k, g). make_item sha isoformat ws start end_at k g False)
      (group_events routine_key (filter (\<lambda>e. \<not> is_urgent (ne_severity e)) (?sorted u))) = Inr routine"
    and g: "map_res (\<lambda>(k, g). make_item sha isoformat ws start end_at k g True)
      (group_events urgent_key (filter (\<lambda>e. is_urgent (ne_severity e)) (?sorted u))) = Inr urgent"
    and d: "notification_digest_init \<lparr>nd_workspace_id = ws, nd_window_start = start, nd_window_end = end_at,
      nd_routine = routine, nd_urgent = urgent\<rparr> = Inr d"
    unfolding build_notification_digest_def Let_def check_then_Inr res_bind_Inr by blast
  have c: "\<forall>e\<in>set events. event_admitted auth ws start end_at e" "set (map snd u) = set events"
    using collect_unique_Inr [OF u] by (simp_all add: keyed_by_id_def del: set_map)
  then have s: "set (?sorted u) = set events" by simp
  from d have e: "nd_routine d = routine" "nd_urgent d = urgent"
    "distinct (concat (map di_source_event_ids (digest_items d)))"
    by (auto simp: notification_digest_init_def)
  have f: "set (filter P (?sorted u)) = {e \<in> set events. P e}" for P
    by (simp only: set_filter s)
  show ?thesis
    using c(1) e grouped_ids [OF r] grouped_ids [OF g] unfolding f by simp
qed

definition example_event :: "string \<Rightarrow> severity \<Rightarrow> int \<Rightarrow> notification_event" where
  "example_event i sev t = \<lparr>ne_event_id = i, ne_workspace_id = ''w'', ne_source_id = ''s'',
     ne_source_revision_id = ''r'', ne_occurred_at = t, ne_title = ''t'', ne_severity = sev,
     ne_dedupe_key = Some ''k'', ne_action_required = False, ne_duplicate_key = None\<rparr>"

definition example_digest :: "notification_digest result" where
  "example_digest = build_notification_digest (\<lambda>s. s) (\<lambda>t. []) (\<lambda>w s. s = ''s'') ''w'' 0 9 5
     [example_event ''b'' SevNormal 3, example_event ''a'' SevInfo 2, example_event ''c'' SevHigh 1]"

theorem digest_accounts_for_events_witness:
  "\<exists>d. example_digest = Inr d \<and> set (concat (map di_source_event_ids (nd_urgent d))) = {''c''} \<and>
     set (concat (map di_source_event_ids (nd_routine d))) = {''a'', ''b''}"
proof -
  have "(case example_digest of Inl _ \<Rightarrow> False | Inr _ \<Rightarrow> True)" by code_simp
  then obtain d where d: "example_digest = Inr d" by (auto split: sum.splits)
  let ?es = "[example_event ''b'' SevNormal 3, example_event ''a'' SevInfo 2, example_event ''c'' SevHigh 1]"
  have ids: "ne_event_id ` {e \<in> set ?es. P (ne_severity e)} =
      (if P SevNormal then {''b''} else {}) \<union> (if P SevInfo then {''a''} else {}) \<union> (if P SevHigh then {''c''} else {})" for P
  proof -
    have "{e \<in> set (x # xs). Q e} = (if Q x then {x} else {}) \<union> {e \<in> set xs. Q e}" for x :: notification_event and xs Q by auto
    then show ?thesis by (simp add: image_Un example_event_def if_distrib [of "image ne_event_id"] cong: if_cong del: list.set) auto
  qed
  have "ne_event_id ` {e \<in> set ?es. is_urgent (ne_severity e)} = {''c''}"
    "ne_event_id ` {e \<in> set ?es. \<not> is_urgent (ne_severity e)} = {''b'', ''a''}"
    unfolding ids [of is_urgent] ids [of "\<lambda>s. \<not> is_urgent s"] by (simp_all add: is_urgent_def insert_commute)
  moreover note digest_accounts_for_events [OF d [unfolded example_digest_def]]
  ultimately have "set (concat (map di_source_event_ids (nd_urgent d))) = {''c''}"
    "set (concat (map di_source_event_ids (nd_routine d))) = {''b'', ''a''}"
    by metis+
  with d show ?thesis by blast
qed

section \<open>Windows\<close>

lemma aligned_end:
  assumes "(0::int) < cadence" "cursor mod cadence = 0" "fin mod cadence = 0" "cursor < fin"
  shows "cursor + int (nat ((fin - cursor) div cadence)) * cadence = fin" "0 < (fin - cursor) div cadence"
proof -
  have "cadence dvd fin - cursor" using assms by (simp add: mod_0_imp_dvd)
  then obtain q where q: "fin - cursor = cadence * q" by (elim dvdE)
  with assms have "0 < q" by (metis diff_gt_0_iff_gt zero_less_mult_pos)
  with q assms(1) show "cursor + int (nat ((fin - cursor) div cadence)) * cadence = fin" "0 < (fin - cursor) div cadence"
    by (simp_all add: algebra_simps)
qed

lemma floor_multiple:
  assumes "(0::int) < c"
  shows "x div c * c \<le> x" "x < x div c * c + c"
  using assms div_mult_mod_eq [of x c] pos_mod_sign [of c x] pos_mod_bound [of c x] by linarith+

text \<open>C38: the closed windows after a cursor are consecutive windows of one cadence each, starting at the
  cursor; all of them have ended at least the finalization delay ago, and the window after the last
  one has not: none is skipped and none is returned early.\<close>

theorem closed_windows_tile:
  assumes "closed_notification_windows after now cadence delay max_windows = Inr ws"
  shows "int (length ws) \<le> max_windows \<and>
    (\<forall>k<length ws. ws ! k = (after + int k * cadence * second, after + (int k + 1) * cadence * second)) \<and>
    (\<forall>w\<in>set ws. snd w \<le> now - delay * second) \<and>
    now - delay * second < after + (int (length ws) + 1) * cadence * second"
proof -
  define cursor where "cursor = after div second"
  define cutoff where "cutoff = (now - delay * second) div second"
  define fin where "fin = (cutoff div cadence) * cadence"
  from assms have c: "0 < cadence" "after = cursor * second" "cursor mod cadence = 0" "0 < max_windows"
    and r: "(if fin \<le> cursor then Inr [] else if (fin - cursor) div cadence > max_windows
       then Inl (ValueError ''finalized notification window backlog exceeds max_windows'')
       else Inr (map (\<lambda>k. ((cursor + int k * cadence) * second, (cursor + int k * cadence + cadence) * second))
         [0..<nat ((fin - cursor) div cadence)])) = Inr ws"
    by (auto simp: closed_notification_windows_def Let_def cursor_def cutoff_def fin_def)
  have sec: "0 < second" by (simp add: second_def)
  note low = floor_multiple [OF sec, of "now - delay * second", folded cutoff_def]
  note fin = floor_multiple [OF c(1), of cutoff, folded fin_def]
  have upper: "now - delay * second < (fin + cadence) * second"
  proof -
    have "(cutoff + 1) * second \<le> (fin + cadence) * second"
      using fin(2) sec by (intro mult_right_mono) linarith+
    then show ?thesis using low(2) unfolding distrib_right by linarith
  qed
  show ?thesis
  proof (cases "fin \<le> cursor")
    case True
    with r have "ws = []" by simp
    moreover have "(fin + cadence) * second \<le> (cursor + cadence) * second"
      using True sec by (simp add: mult_right_mono)
    ultimately show ?thesis using upper c by (simp add: algebra_simps)
  next
    case False
    have m: "fin mod cadence = 0" by (simp add: fin_def)
    note e = aligned_end [OF c(1,3) m]
    from False r have n: "(fin - cursor) div cadence \<le> max_windows"
      and ws: "ws = map (\<lambda>k. ((cursor + int k * cadence) * second, (cursor + int k * cadence + cadence) * second))
         [0..<nat ((fin - cursor) div cadence)]" by (auto split: if_splits)
    have len: "length ws = nat ((fin - cursor) div cadence)" by (simp add: ws)
    have bound: "(cursor + int k * cadence + cadence) * second \<le> now - delay * second" if "k < length ws" for k
    proof -
      have "int k * cadence + cadence \<le> int (length ws) * cadence"
        using that mult_right_mono [of "int k + 1" "int (length ws)" cadence] c(1)
        unfolding distrib_right by linarith
      then have "cursor + int k * cadence + cadence \<le> fin" using e(1) False len by simp
      with fin(1) have "cursor + int k * cadence + cadence \<le> cutoff" by linarith
      from mult_right_mono [OF this, of second] sec low(1) show ?thesis by linarith
    qed
    have "\<forall>w\<in>set ws. snd w \<le> now - delay * second"
      using bound by (auto simp: ws in_set_conv_nth)
    moreover have "\<forall>k<length ws. ws ! k = (after + int k * cadence * second, after + (int k + 1) * cadence * second)"
      by (simp add: ws c(2) algebra_simps)
    moreover have "after + (int (length ws) + 1) * cadence * second = (fin + cadence) * second"
    proof -
      have "fin = cursor + int (length ws) * cadence" using e(1) False len by simp
      then show ?thesis by (simp add: c(2) algebra_simps)
    qed
    ultimately show ?thesis using upper n e(2) False len by simp
  qed
qed

theorem closed_windows_tile_witness:
  "snd (3600 * second, 7200 * second) \<le> 7400 * second - 120 * second \<and>
   7400 * second - 120 * second < (0::int) + (int 2 + 1) * 3600 * second"
proof -
  have "closed_notification_windows 0 (7400 * second) 3600 120 24 = Inr [(0, 3600 * second), (3600 * second, 7200 * second)]"
    by code_simp
  from closed_windows_tile [OF this] show ?thesis by simp
qed

end
