(* ===== verification/Notification_Delivery.thy ===== *)
theory Notification_Delivery
  imports Notification_Digest Graph_Engine
begin

text \<open>
  Delivery of digests through the durable job queue (\<^verbatim>\<open>app_contracts/notification_delivery.py\<close>):
  splitting a digest into jobs, the JSON payload of a job and its validation when a worker claims it, and
  the worker loop that checks access again before it calls the adapter.

  Kogwistar's job queue, the adapter and the access callbacks are parameters over an abstract state: the
  queue is a record of operations, the adapter maps a state and a delivery to a state and possibly an
  exception, and the callbacks read the state. \<^verbatim>\<open>datetime.isoformat\<close> and
  \<^verbatim>\<open>datetime.fromisoformat\<close> are a pair of functions; where a property needs that the second reads
  what the first wrote, it says so for the timestamps at hand. An aware timestamp is the instant it denotes.
\<close>

section \<open>The payload of a job\<close>

record iso_time =
  iso_format :: "int \<Rightarrow> string"
  iso_parse :: "string \<Rightarrow> int option"

definition severity_value :: "severity \<Rightarrow> string" where
  "severity_value s = (case s of SevInfo \<Rightarrow> ''info'' | SevNormal \<Rightarrow> ''normal'' | SevHigh \<Rightarrow> ''high'' | SevCritical \<Rightarrow> ''critical'')"

definition severity_of :: "json \<Rightarrow> severity option" where
  "severity_of v = (case v of
     JStr s \<Rightarrow> map_of [(''info'', SevInfo), (''normal'', SevNormal), (''high'', SevHigh), (''critical'', SevCritical)] s
   | _ \<Rightarrow> None)"

definition required_text :: "string \<Rightarrow> string \<Rightarrow> string result" where
  "required_text v name = check_then (checks
     [raise_if (py_strip v = []) (ValueError (name @ '' must not be empty'')),
      raise_if (has_control v) (ValueError (name @ '' must not contain control characters''))]) (Inr (py_strip v))"

definition item_payload :: "digest_item \<Rightarrow> json" where
  "item_payload i = JObj
     [(''item_id'', JStr (di_item_id i)), (''workspace_id'', JStr (di_workspace_id i)),
      (''summary'', JStr (di_summary i)), (''severity'', JStr (severity_value (di_severity i))),
      (''action_required'', JBool (di_action_required i)),
      (''source_event_ids'', JArr (map JStr (di_source_event_ids i))),
      (''evidence_refs'', JArr (map (\<lambda>(a, b, c). JArr [JStr a, JStr b, JStr c]) (di_evidence_refs i))),
      (''urgent'', JBool (di_urgent i)),
      (''logical_event_count'', JInt (di_logical_event_count i)),
      (''duplicate_copy_count'', JInt (di_duplicate_copy_count i))]"

definition serialize_digest :: "iso_time \<Rightarrow> notification_digest \<Rightarrow> json" where
  "serialize_digest tm d = JObj
     [(''workspace_id'', JStr (nd_workspace_id d)),
      (''window_start'', JStr (iso_format tm (nd_window_start d))),
      (''window_end'', JStr (iso_format tm (nd_window_end d))),
      (''routine'', JArr (map item_payload (nd_routine d))),
      (''urgent'', JArr (map item_payload (nd_urgent d)))]"

definition parse_datetime :: "iso_time \<Rightarrow> json \<Rightarrow> int result" where
  "parse_datetime tm v = (case v of
     JStr s \<Rightarrow> (case iso_parse tm s of Some t \<Rightarrow> Inr t
        | None \<Rightarrow> Inl (ValueError ''digest timestamp must be timezone-aware''))
   | _ \<Rightarrow> Inl (TypeError ''digest timestamp is invalid''))"

text \<open>One evidence reference; anything but a list of three parts is skipped and found by the count.\<close>

definition ref_parts :: "json \<Rightarrow> (json \<times> json \<times> json) option" where
  "ref_parts v = (case v of JArr [a, b, c] \<Rightarrow> Some (a, b, c) | _ \<Rightarrow> None)"

definition parse_ref :: "json \<times> json \<times> json \<Rightarrow> (string \<times> string \<times> string) result" where
  "parse_ref r = (case r of (a, b, c) \<Rightarrow>
     res_bind (required_text (py_str a) ''evidence reference'') (\<lambda>a'.
     res_bind (required_text (py_str b) ''evidence reference'') (\<lambda>b'.
     res_bind (required_text (py_str c) ''evidence reference'') (\<lambda>c'. Inr (a', b', c')))))"

definition is_str :: "json \<Rightarrow> bool" where
  "is_str v = (case v of JStr _ \<Rightarrow> True | _ \<Rightarrow> False)"

definition count_field :: "json_object \<Rightarrow> string \<Rightarrow> int \<Rightarrow> int option" where
  "count_field v k dflt = (case map_of v k of None \<Rightarrow> Some dflt | Some (JInt n) \<Rightarrow> Some n | Some _ \<Rightarrow> None)"

definition build_item ::
    "string \<Rightarrow> bool \<Rightarrow> json_object \<Rightarrow> json list \<Rightarrow> (string \<times> string \<times> string) list \<Rightarrow> digest_item result" where
  "build_item ws urgent v ids refs =
     (case (count_field v ''logical_event_count'' (int (length ids)), count_field v ''duplicate_copy_count'' 0) of
        (Some logical, Some copies) \<Rightarrow>
          (case severity_of (jget v ''severity'') of
             None \<Rightarrow> Inl (ValueError ''digest severity is invalid'')
           | Some sev \<Rightarrow>
             res_bind (required_text (str_or_empty (jget v ''item_id'')) ''item_id'') (\<lambda>item_id.
             res_bind (required_text (str_or_empty (jget v ''workspace_id'')) ''workspace_id'') (\<lambda>item_ws.
             res_bind (required_text (str_or_empty (jget v ''summary'')) ''summary'') (\<lambda>summary.
             res_bind (map_res (\<lambda>e. required_text (py_str e) ''event_id'') ids) (\<lambda>event_ids.
             res_bind (digest_item_init \<lparr>di_item_id = item_id, di_workspace_id = item_ws, di_summary = summary,
                 di_severity = sev, di_action_required = (jget v ''action_required'' = JBool True),
                 di_source_event_ids = event_ids, di_evidence_refs = refs, di_urgent = urgent,
                 di_logical_event_count = logical, di_duplicate_copy_count = copies\<rparr>) (\<lambda>i.
               check_then (raise_if (di_workspace_id i \<noteq> ws) (ValueError ''digest item workspace mismatch''))
                 (Inr i)))))))
      | _ \<Rightarrow> Inl (ValueError ''digest event counts are invalid''))"

definition parse_item :: "string \<Rightarrow> bool \<Rightarrow> json \<Rightarrow> digest_item result" where
  "parse_item ws urgent value = (case value of
     JObj v \<Rightarrow> (case (jget v ''evidence_refs'', jget v ''source_event_ids'') of
        (JArr refs, JArr ids) \<Rightarrow>
          check_then (raise_if (\<exists>e\<in>set ids. \<not> is_str e) (TypeError ''digest event ID is invalid''))
          (res_bind (map_res parse_ref (List.map_filter ref_parts refs)) (\<lambda>evidence.
             check_then (checks
               [raise_if (length evidence \<noteq> length refs) (ValueError ''digest evidence reference shape is invalid''),
                raise_if (sort (map py_str ids) \<noteq> sort (map (snd \<circ> snd) evidence))
                  (ValueError ''digest event/evidence references disagree''),
                raise_if (jget v ''action_required'' \<notin> {JBool True, JBool False} \<or> jget v ''urgent'' \<noteq> JBool urgent)
                  (ValueError ''digest flags are invalid'')])
             (build_item ws urgent v ids evidence)))
      | _ \<Rightarrow> Inl (TypeError ''digest evidence references are invalid''))
   | _ \<Rightarrow> Inl (TypeError ''digest item is invalid''))"

definition parse_items :: "string \<Rightarrow> bool \<Rightarrow> json \<Rightarrow> digest_item list result" where
  "parse_items ws urgent v = (case v of JArr vs \<Rightarrow> map_res (parse_item ws urgent) vs
     | _ \<Rightarrow> Inl (TypeError ''digest item list is invalid''))"

definition deserialize_digest :: "iso_time \<Rightarrow> string \<Rightarrow> json \<Rightarrow> notification_digest result" where
  "deserialize_digest tm ws raw = (case raw of
     JObj r \<Rightarrow>
       check_then (raise_if (str_or_empty (jget r ''workspace_id'') \<noteq> ws) (ValueError ''digest workspace mismatch''))
       (res_bind (parse_datetime tm (jget r ''window_start'')) (\<lambda>start.
        res_bind (parse_datetime tm (jget r ''window_end'')) (\<lambda>end_at.
        check_then (raise_if (end_at \<le> start) (ValueError ''digest window is invalid''))
        (res_bind (parse_items ws False (jget r ''routine'')) (\<lambda>routine.
         res_bind (parse_items ws True (jget r ''urgent'')) (\<lambda>urgent.
         check_then (raise_if ((\<exists>i\<in>set routine. is_urgent (di_severity i)) \<or> (\<exists>i\<in>set urgent. \<not> is_urgent (di_severity i)))
           (ValueError ''digest urgency classification is invalid''))
         (notification_digest_init \<lparr>nd_workspace_id = ws, nd_window_start = start, nd_window_end = end_at,
            nd_routine = routine, nd_urgent = urgent\<rparr>)))))))
   | _ \<Rightarrow> Inl (ValueError ''digest workspace mismatch''))"

section \<open>Jobs\<close>

record job_queue_item =
  jq_job_id :: string
  jq_namespace :: string
  jq_entity_kind :: string
  jq_entity_id :: string
  jq_job_kind :: string
  jq_payload :: json_object
  jq_claim_token :: "string option"
  jq_status :: string
  jq_created_at_ms :: "int option"
  jq_updated_at_ms :: "int option"
  jq_retry_count :: int
  jq_max_retries :: int
  jq_claim_attempts :: int
  jq_last_error :: "string option"

definition notification_jobs :: "string \<Rightarrow> string" where
  "notification_jobs ws = ''ws:'' @ ws @ '':notification_jobs''"

definition urgent_notification_jobs :: "string \<Rightarrow> string" where
  "urgent_notification_jobs ws = ''ws:'' @ ws @ '':urgent_notification_jobs''"

definition job_kind_name :: string where
  "job_kind_name = ''notification_delivery''"

definition parse_job :: "iso_time \<Rightarrow> string \<Rightarrow> job_queue_item \<Rightarrow> (string \<times> notification_digest) result" where
  "parse_job tm ws j = (let p = jq_payload j; cls = jget p ''delivery_class'' in
     check_then (checks
       [raise_if (jget p ''job_type'' \<noteq> JStr job_kind_name) (ValueError ''wrong job type''),
        raise_if (str_or_empty (jget p ''workspace_id'') \<noteq> ws \<or>
            jq_namespace j \<notin> (if cls = JStr ''urgent'' then {notification_jobs ws, urgent_notification_jobs ws}
                             else {notification_jobs ws}))
          (ValueError ''job workspace mismatch'')])
     (res_bind (required_text (str_or_empty (jget p ''recipient_id'')) ''recipient_id'') (\<lambda>recipient.
      check_then (raise_if
          (\<not> (jq_entity_kind j = ''notification_delivery'' \<and> jq_entity_id j = jq_job_id j \<or>
              jq_entity_kind j = ''notification_recipient'' \<and> jq_entity_id j = recipient) \<or>
           jq_job_kind j \<noteq> job_kind_name)
        (ValueError ''job delivery identity/type mismatch''))
      (res_bind (deserialize_digest tm ws (jget p ''digest'')) (\<lambda>d.
       check_then
         (if cls = JStr ''urgent'' then raise_if (length (nd_urgent d) \<noteq> 1 \<or> nd_routine d \<noteq> [])
            (ValueError ''urgent job must contain exactly one urgent item'')
          else if cls = JStr ''routine'' then raise_if (nd_urgent d \<noteq> [] \<or> nd_routine d = [])
            (ValueError ''routine job must contain routine items only'')
          else Some (ValueError ''delivery class is invalid''))
       (Inr (recipient, d)))))))"

section \<open>Access and compaction\<close>

record 's delivery_acl =
  acl_recipient :: "'s \<Rightarrow> string \<Rightarrow> string \<Rightarrow> bool result"
  acl_source :: "'s \<Rightarrow> string \<Rightarrow> string \<Rightarrow> string \<Rightarrow> bool result"

definition source_ids :: "notification_digest \<Rightarrow> string set" where
  "source_ids d = set (concat (map (\<lambda>i. map fst (di_evidence_refs i)) (digest_items d)))"

definition authorize :: "'s delivery_acl \<Rightarrow> 's \<Rightarrow> string \<Rightarrow> notification_digest \<Rightarrow> check" where
  "authorize acl s recipient d = (case acl_recipient acl s (nd_workspace_id d) recipient of
     Inl e \<Rightarrow> Some e
   | Inr ok \<Rightarrow> checks
       [raise_if (\<not> ok) (PermissionError ''notification recipient is not authorized''),
        raise_if (source_ids d = {}) (ValueError ''notification digest must reference at least one source''),
        first_error (\<lambda>src. case acl_source acl s (nd_workspace_id d) recipient src of
            Inl e \<Rightarrow> Some e
          | Inr allowed \<Rightarrow> raise_if (\<not> allowed) (PermissionError ''notification source is not authorized''))
          (sorted_list_of_set (source_ids d))])"

definition routine_detail_limit :: nat where
  "routine_detail_limit = 5"

definition rollup_summary :: "digest_item list \<Rightarrow> string" where
  "rollup_summary items = (let logical = sum_list (map di_logical_event_count items);
       copies = sum_list (map di_duplicate_copy_count items) in
     int_str logical @ '' routine updates across '' @ nat_str (length items) @ '' groups'' @
     (if copies \<noteq> 0 then ''; '' @ int_str copies @ '' duplicate '' @ (if copies = 1 then ''copy'' else ''copies'') @ '' suppressed''
      else []) @
     (if \<exists>i\<in>set items. di_action_required i then ''; some require action'' else []))"

definition rollup_identity :: "iso_time \<Rightarrow> string \<Rightarrow> int \<Rightarrow> int \<Rightarrow> digest_item list \<Rightarrow> string" where
  "rollup_identity tm ws start end_at items = json_dumps json_char False
     (JArr [JStr ws, JStr (iso_format tm start), JStr (iso_format tm end_at),
            JArr (map JStr (sort (map di_item_id items)))])"

definition compact_routine_items ::
    "stable_id_fn \<Rightarrow> iso_time \<Rightarrow> string \<Rightarrow> int \<Rightarrow> int \<Rightarrow> digest_item list \<Rightarrow> digest_item list result" where
  "compact_routine_items stable_id tm ws start end_at items =
     (if length items \<le> routine_detail_limit then Inr items
      else res_bind (digest_item_init
        \<lparr>di_item_id = ''notification-rollup:'' @
           stable_id [''kogwistar_llm_wiki.notification_rollup'', rollup_identity tm ws start end_at items],
         di_workspace_id = ws, di_summary = rollup_summary items,
         di_severity = max_by severity_rank (di_severity (hd items)) (map di_severity (tl items)),
         di_action_required = (\<exists>i\<in>set items. di_action_required i),
         di_source_event_ids = sorted_list_of_set (set (concat (map di_source_event_ids items))),
         di_evidence_refs = sorted_list_of_set (set (concat (map di_evidence_refs items))),
         di_urgent = False,
         di_logical_event_count = sum_list (map di_logical_event_count items),
         di_duplicate_copy_count = sum_list (map di_duplicate_copy_count items)\<rparr>) (\<lambda>i. Inr [i]))"

section \<open>Queueing a digest\<close>

text \<open>The queue operations the scheduler calls.\<close>

record enqueue_request =
  rq_job_id :: string
  rq_namespace :: string
  rq_entity_kind :: string
  rq_entity_id :: string
  rq_job_kind :: string
  rq_op :: string
  rq_payload :: json_object
  rq_max_retries :: int

record 's queue_ops =
  q_require_enqueue :: "'s \<Rightarrow> check"
  q_require_claim :: "'s \<Rightarrow> check"
  q_enqueue :: "'s \<Rightarrow> enqueue_request \<Rightarrow> 's \<times> string result"
  q_claim :: "'s \<Rightarrow> string \<Rightarrow> int \<Rightarrow> int \<Rightarrow> 's \<times> job_queue_item list result"
  q_mark_failed :: "'s \<Rightarrow> string \<Rightarrow> string \<Rightarrow> string option \<Rightarrow> 's \<times> check"
  q_retry_or_fail :: "'s \<Rightarrow> job_queue_item \<Rightarrow> py_error \<Rightarrow> 's \<times> check"
  q_mark_done :: "'s \<Rightarrow> string \<Rightarrow> string option \<Rightarrow> 's \<times> bool result"
  q_uow :: "'s unit_of_work option"

definition urgent_part :: "notification_digest \<Rightarrow> digest_item \<Rightarrow> notification_digest result" where
  "urgent_part d i = notification_digest_init (d\<lparr>nd_routine := [], nd_urgent := [i]\<rparr>)"

definition routine_part :: "stable_id_fn \<Rightarrow> iso_time \<Rightarrow> notification_digest \<Rightarrow> notification_digest result" where
  "routine_part stable_id tm d =
     res_bind (compact_routine_items stable_id tm (nd_workspace_id d) (nd_window_start d) (nd_window_end d) (nd_routine d))
       (\<lambda>items. notification_digest_init (d\<lparr>nd_routine := items, nd_urgent := []\<rparr>))"

definition digest_deliveries ::
    "stable_id_fn \<Rightarrow> iso_time \<Rightarrow> notification_digest \<Rightarrow> (string \<times> notification_digest) list result" where
  "digest_deliveries stable_id tm d =
     res_bind (map_res (urgent_part d) (nd_urgent d)) (\<lambda>urgent.
     res_bind (if nd_routine d = [] then Inr []
               else res_bind (routine_part stable_id tm d) (\<lambda>r. Inr [(''routine'', r)])) (\<lambda>routine.
     Inr (map (Pair ''urgent'') urgent @ routine)))"

definition delivery_payload :: "iso_time \<Rightarrow> string \<Rightarrow> string \<Rightarrow> string \<times> notification_digest \<Rightarrow> json_object" where
  "delivery_payload tm ws recipient cd =
     [(''job_type'', JStr job_kind_name), (''workspace_id'', JStr ws), (''recipient_id'', JStr recipient),
      (''delivery_class'', JStr (fst cd)), (''digest'', serialize_digest tm (snd cd))]"

definition max_payload_bytes :: int where
  "max_payload_bytes = 256 * 1024"

definition prepare_delivery ::
    "stable_id_fn \<Rightarrow> iso_time \<Rightarrow> string \<Rightarrow> string \<Rightarrow> int \<Rightarrow> string \<times> notification_digest \<Rightarrow> enqueue_request result" where
  "prepare_delivery stable_id tm ws recipient max_retries cd =
     (let payload = delivery_payload tm ws recipient cd;
          encoded = json_dumps json_char_raw True (JObj payload);
          job_id = stable_id [''kogwistar_llm_wiki.notification_delivery'', ws, recipient, fst cd, encoded] in
      check_then (raise_if (utf8_length encoded > max_payload_bytes)
        (ValueError ''notification delivery payload exceeds configured safety bound''))
      (Inr \<lparr>rq_job_id = job_id,
        rq_namespace = (if fst cd = ''urgent'' then urgent_notification_jobs ws else notification_jobs ws),
        rq_entity_kind = ''notification_delivery'', rq_entity_id = job_id, rq_job_kind = job_kind_name,
        rq_op = ''DELIVER'', rq_payload = payload, rq_max_retries = max_retries\<rparr>))"

fun enqueue_all :: "'s queue_ops \<Rightarrow> enqueue_request list \<Rightarrow> 's \<Rightarrow> 's \<times> string list result" where
  "enqueue_all q [] s = (s, Inr [])"
| "enqueue_all q (r # rs) s = (case q_enqueue q s r of
     (s', Inl e) \<Rightarrow> (s', Inl e)
   | (s', Inr i) \<Rightarrow> (case enqueue_all q rs s' of
       (s'', Inl e) \<Rightarrow> (s'', Inl e)
     | (s'', Inr is) \<Rightarrow> (s'', Inr (i # is))))"

definition transact :: "'s unit_of_work \<Rightarrow> 's \<Rightarrow> 's \<times> 'a result \<Rightarrow> 's \<times> 'a result" where
  "transact u entry body = (case body of
     (s, Inl e) \<Rightarrow> (uow_abort u entry s, Inl e)
   | (s, Inr a) \<Rightarrow> (case uow_commit u entry s of (s', None) \<Rightarrow> (s', Inr a) | (s', Some e) \<Rightarrow> (s', Inl e)))"

definition enqueue_digest ::
    "'s queue_ops \<Rightarrow> stable_id_fn \<Rightarrow> iso_time \<Rightarrow> 's delivery_acl \<Rightarrow> string \<Rightarrow> notification_digest \<Rightarrow> int \<Rightarrow> 's \<Rightarrow>
     's \<times> string list result" where
  "enqueue_digest q stable_id tm acl recipient_id d max_retries s =
     (case (res_bind (required_text recipient_id ''recipient_id'') (\<lambda>recipient.
        check_then (checks
          [raise_if (max_retries < 1) (ValueError ''max_retries must be positive''),
           authorize acl s recipient d])
        (res_bind (digest_deliveries stable_id tm d) (\<lambda>deliveries.
         check_then (q_require_enqueue q s)
         (res_bind (map_res (prepare_delivery stable_id tm (nd_workspace_id d) recipient max_retries) deliveries) (\<lambda>requests.
          (case q_uow q of
             None \<Rightarrow> Inl (TypeError ''conversation engine must expose uow() for atomic notification enqueue'')
           | Some u \<Rightarrow> Inr (u, requests))))))))
      of Inl e \<Rightarrow> (s, Inl e)
       | Inr (u, requests) \<Rightarrow> transact u s (enqueue_all q requests s))"

section \<open>The worker\<close>

record delivery_outcome =
  do_job_id :: string
  do_status :: string
  do_error_code :: "string option"

type_synonym 's adapter = "'s \<Rightarrow> string \<Rightarrow> notification_digest \<Rightarrow> string \<Rightarrow> 's \<times> check"

text \<open>The name of the class of an exception.\<close>

fun error_name :: "py_error \<Rightarrow> string" where
  "error_name (ValueError _) = ''ValueError''"
| "error_name (TypeError _) = ''TypeError''"
| "error_name (KeyError _) = ''KeyError''"
| "error_name (PermissionError _) = ''PermissionError''"
| "error_name (RuntimeError _) = ''RuntimeError''"
| "error_name (AttributeError _) = ''AttributeError''"
| "error_name (OverflowError _) = ''OverflowError''"
| "error_name (SourcePointerValidationError _) = ''SourcePointerValidationError''"
| "error_name (ParseViewConflict _) = ''ParseViewConflict''"
| "error_name (ParseSessionStoreConflict _) = ''ParseSessionStoreConflict''"
| "error_name (ParseGenerationStoreConflict _) = ''ParseGenerationStoreConflict''"
| "error_name (NotificationOutboxUnavailableError _) = ''NotificationOutboxUnavailableError''"

definition job_outcome :: "job_queue_item \<Rightarrow> string \<Rightarrow> string option \<Rightarrow> 's \<times> check \<Rightarrow> 's \<times> delivery_outcome result" where
  "job_outcome j status code sc = (case sc of
     (s, Some e) \<Rightarrow> (s, Inl e)
   | (s, None) \<Rightarrow> (s, Inr \<lparr>do_job_id = jq_job_id j, do_status = status, do_error_code = code\<rparr>))"

text \<open>The three handlers around validation and authorization.\<close>

definition refuse_job :: "'s queue_ops \<Rightarrow> 's \<Rightarrow> job_queue_item \<Rightarrow> py_error \<Rightarrow> 's \<times> delivery_outcome result" where
  "refuse_job q s j e = (case e of
     PermissionError _ \<Rightarrow> job_outcome j ''denied'' (Some ''acl_denied'')
       (q_mark_failed q s (jq_job_id j) ''notification authorization revoked or denied'' (jq_claim_token j))
   | ValueError _ \<Rightarrow> job_outcome j ''failed'' (Some ''invalid_job'')
       (q_mark_failed q s (jq_job_id j) ''invalid notification delivery job'' (jq_claim_token j))
   | TypeError _ \<Rightarrow> job_outcome j ''failed'' (Some ''invalid_job'')
       (q_mark_failed q s (jq_job_id j) ''invalid notification delivery job'' (jq_claim_token j))
   | KeyError _ \<Rightarrow> job_outcome j ''failed'' (Some ''invalid_job'')
       (q_mark_failed q s (jq_job_id j) ''invalid notification delivery job'' (jq_claim_token j))
   | _ \<Rightarrow> job_outcome j ''retrying'' (Some ''authorization_unavailable'') (q_retry_or_fail q s j e))"

definition process_job ::
    "'s queue_ops \<Rightarrow> iso_time \<Rightarrow> 's delivery_acl \<Rightarrow> 's adapter \<Rightarrow> string \<Rightarrow> job_queue_item \<Rightarrow> 's \<Rightarrow>
     's \<times> delivery_outcome result" where
  "process_job q tm acl deliver ws j s =
     (case res_bind (parse_job tm ws j) (\<lambda>(recipient, d). check_then (authorize acl s recipient d) (Inr (recipient, d))) of
        Inl e \<Rightarrow> refuse_job q s j e
      | Inr (recipient, d) \<Rightarrow> (case deliver s recipient d (jq_job_id j) of
          (s', Some e) \<Rightarrow> job_outcome j ''retrying'' (Some (error_name e)) (q_retry_or_fail q s' j e)
        | (s', None) \<Rightarrow> (case q_mark_done q s' (jq_job_id j) (jq_claim_token j) of
            (s'', Inl e) \<Rightarrow> (s'', Inl e)
          | (s'', Inr acknowledged) \<Rightarrow> (s'', Inr \<lparr>do_job_id = jq_job_id j,
              do_status = (if acknowledged then ''delivered'' else ''stale_claim''), do_error_code = None\<rparr>))))"

fun process_jobs ::
    "'s queue_ops \<Rightarrow> iso_time \<Rightarrow> 's delivery_acl \<Rightarrow> 's adapter \<Rightarrow> string \<Rightarrow> job_queue_item list \<Rightarrow> 's \<Rightarrow>
     's \<times> delivery_outcome list result" where
  "process_jobs q tm acl deliver ws [] s = (s, Inr [])"
| "process_jobs q tm acl deliver ws (j # js) s = (case process_job q tm acl deliver ws j s of
     (s', Inl e) \<Rightarrow> (s', Inl e)
   | (s', Inr out) \<Rightarrow> (case process_jobs q tm acl deliver ws js s' of
       (s'', Inl e) \<Rightarrow> (s'', Inl e)
     | (s'', Inr outs) \<Rightarrow> (s'', Inr (out # outs))))"

text \<open>Urgent jobs are claimed first; routine ones fill the batch.\<close>

definition claim_jobs :: "'s queue_ops \<Rightarrow> string \<Rightarrow> int \<Rightarrow> int \<Rightarrow> 's \<Rightarrow> 's \<times> job_queue_item list result" where
  "claim_jobs q ws limit lease s = (case q_claim q s (urgent_notification_jobs ws) limit lease of
     (s', Inl e) \<Rightarrow> (s', Inl e)
   | (s', Inr urgent) \<Rightarrow>
       if int (length urgent) < limit
       then (case q_claim q s' (notification_jobs ws) (limit - int (length urgent)) lease of
           (s'', Inl e) \<Rightarrow> (s'', Inl e)
         | (s'', Inr routine) \<Rightarrow> (s'', Inr (urgent @ routine)))
       else (s', Inr urgent))"

definition process_pending_jobs ::
    "'s queue_ops \<Rightarrow> iso_time \<Rightarrow> 's delivery_acl \<Rightarrow> 's adapter \<Rightarrow> string \<Rightarrow> int \<Rightarrow> int \<Rightarrow> 's \<Rightarrow>
     's \<times> delivery_outcome list result" where
  "process_pending_jobs q tm acl deliver workspace_id limit lease s =
     (case res_bind (required_text workspace_id ''workspace_id'') (\<lambda>ws. check_then (checks
        [raise_if (limit < 1) (ValueError ''limit must be positive''),
         raise_if (lease < 1) (ValueError ''queue_lease_seconds must be positive''),
         q_require_claim q s]) (Inr ws)) of
        Inl e \<Rightarrow> (s, Inl e)
      | Inr ws \<Rightarrow> (case claim_jobs q ws limit lease s of
          (s', Inl e) \<Rightarrow> (s', Inl e)
        | (s', Inr jobs) \<Rightarrow> process_jobs q tm acl deliver ws jobs s'))"

section \<open>A queued job is read back\<close>

definition clean_text :: "string \<Rightarrow> bool" where
  "clean_text s \<longleftrightarrow> s \<noteq> [] \<and> py_strip s = s \<and> \<not> has_control s"

lemma clean_textI: "s \<noteq> [] \<Longrightarrow> \<not> py_isspace (hd s) \<Longrightarrow> \<not> py_isspace (last s) \<Longrightarrow> \<not> has_control s \<Longrightarrow> clean_text s"
  by (cases s) (simp_all add: clean_text_def py_strip_def py_lstrip_def py_rstrip_id)

lemma required_text_clean [simp]: "clean_text s \<Longrightarrow> required_text s n = Inr s"
  by (simp add: required_text_def clean_text_def)

definition clean_ref :: "string \<times> string \<times> string \<Rightarrow> bool" where
  "clean_ref r \<longleftrightarrow> (case r of (a, b, c) \<Rightarrow> clean_text a \<and> clean_text b \<and> clean_text c)"

definition clean_item :: "digest_item \<Rightarrow> bool" where
  "clean_item i \<longleftrightarrow> digest_item_init i = Inr i \<and>
     clean_text (di_item_id i) \<and> clean_text (di_workspace_id i) \<and> clean_text (di_summary i) \<and>
     (\<forall>e\<in>set (di_source_event_ids i). clean_text e) \<and> (\<forall>r\<in>set (di_evidence_refs i). clean_ref r)"

definition clean_digest :: "notification_digest \<Rightarrow> bool" where
  "clean_digest d \<longleftrightarrow> notification_digest_init d = Inr d \<and> (\<forall>i\<in>set (digest_items d). clean_item i)"

lemma severity_of_value [simp]: "severity_of (JStr (severity_value s)) = Some s"
  by (cases s) (simp_all add: severity_of_def severity_value_def)

lemma digest_item_init_same: "digest_item_init i = Inr j \<Longrightarrow> j = i"
  by (auto simp: digest_item_init_def Let_def)

lemma notification_digest_init_same: "notification_digest_init d = Inr e \<Longrightarrow> e = d"
  by (auto simp: notification_digest_init_def)

lemma evidence_matches_events:
  assumes "digest_item_init i = Inr i"
  shows "distinct (di_source_event_ids i)"
    "mset (map (snd \<circ> snd) (di_evidence_refs i)) = mset (di_source_event_ids i)"
proof -
  have d: "distinct (di_source_event_ids i)" "length (di_evidence_refs i) = length (di_source_event_ids i)"
    "set (map (snd \<circ> snd) (di_evidence_refs i)) = set (di_source_event_ids i)"
    using assms by (auto simp: digest_item_init_def Let_def)
  then have "distinct (map (snd \<circ> snd) (di_evidence_refs i))"
    by (metis card_distinct distinct_card length_map)
  with d show "distinct (di_source_event_ids i)"
    "mset (map (snd \<circ> snd) (di_evidence_refs i)) = mset (di_source_event_ids i)"
    by (simp_all only: set_eq_iff_mset_eq_distinct)
qed

lemma digest_item_eta [simp]:
  "\<lparr>di_item_id = di_item_id i, di_workspace_id = di_workspace_id i, di_summary = di_summary i,
     di_severity = di_severity i, di_action_required = di_action_required i,
     di_source_event_ids = di_source_event_ids i, di_evidence_refs = di_evidence_refs i, di_urgent = di_urgent i,
     di_logical_event_count = di_logical_event_count i, di_duplicate_copy_count = di_duplicate_copy_count i\<rparr> = i"
  by simp

lemma notification_digest_eta [simp]:
  "\<lparr>nd_workspace_id = nd_workspace_id d, nd_window_start = nd_window_start d, nd_window_end = nd_window_end d,
     nd_routine = nd_routine d, nd_urgent = nd_urgent d\<rparr> = d"
  by simp

lemma parse_refs_payload:
  assumes "\<forall>r\<in>set refs. clean_ref r"
  shows "map_res parse_ref (List.map_filter ref_parts (map (\<lambda>(a, b, c). JArr [JStr a, JStr b, JStr c]) refs)) = Inr refs"
  using assms by (induction refs) (auto simp: List.map_filter_simps ref_parts_def parse_ref_def clean_ref_def)

lemma map_res_clean: "\<forall>e\<in>set es. clean_text e \<Longrightarrow> map_res (\<lambda>e. required_text (py_str e) n) (map JStr es) = Inr es"
  by (induction es) auto

lemma parse_item_payload:
  assumes "clean_item i" "di_workspace_id i = ws"
  shows "parse_item ws (di_urgent i) (item_payload i) = Inr i"
proof -
  have s: "sort (map py_str (map JStr (di_source_event_ids i))) = sort (map (snd \<circ> snd) (di_evidence_refs i))"
    by (rule sort_mset_cong) (use evidence_matches_events(2) [of i] assms(1) in \<open>simp add: clean_item_def comp_def\<close>)
  have r: "map_res parse_ref (List.map_filter ref_parts
      (map (\<lambda>(a, b, c). JArr [JStr a, JStr b, JStr c]) (di_evidence_refs i))) = Inr (di_evidence_refs i)"
    using assms(1) by (simp add: clean_item_def parse_refs_payload)
  have e: "map_res (\<lambda>e. required_text (py_str e) ''event_id'') (map JStr (di_source_event_ids i)) = Inr (di_source_event_ids i)"
    using assms(1) by (simp add: clean_item_def map_res_clean)
  have b: "build_item ws (di_urgent i)
      [(''item_id'', JStr (di_item_id i)), (''workspace_id'', JStr (di_workspace_id i)),
       (''summary'', JStr (di_summary i)), (''severity'', JStr (severity_value (di_severity i))),
       (''action_required'', JBool (di_action_required i)),
       (''source_event_ids'', JArr (map JStr (di_source_event_ids i))),
       (''evidence_refs'', JArr (map (\<lambda>(a, b, c). JArr [JStr a, JStr b, JStr c]) (di_evidence_refs i))),
       (''urgent'', JBool (di_urgent i)), (''logical_event_count'', JInt (di_logical_event_count i)),
       (''duplicate_copy_count'', JInt (di_duplicate_copy_count i))]
      (map JStr (di_source_event_ids i)) (di_evidence_refs i) = Inr i"
    using assms(1) e unfolding assms(2) [symmetric] by (simp add: build_item_def count_field_def clean_item_def)
  show ?thesis
    unfolding parse_item_def item_payload_def
    by (simp add: r s b is_str_def del: map_map)
qed

lemma deserialize_serialize:
  assumes "clean_digest d" "iso_parse tm (iso_format tm (nd_window_start d)) = Some (nd_window_start d)"
    "iso_parse tm (iso_format tm (nd_window_end d)) = Some (nd_window_end d)"
  shows "deserialize_digest tm (nd_workspace_id d) (serialize_digest tm d) = Inr d"
proof -
  have v: "notification_digest_init d = Inr d" using assms(1) by (simp add: clean_digest_def)
  have i: "clean_item i" "di_workspace_id i = nd_workspace_id d" if "i \<in> set (digest_items d)" for i
    using that assms(1) v by (auto simp: clean_digest_def notification_digest_init_def)
  have u: "\<forall>i\<in>set (nd_routine d). \<not> di_urgent i \<and> \<not> is_urgent (di_severity i)"
    "\<forall>i\<in>set (nd_urgent d). di_urgent i \<and> is_urgent (di_severity i)" "nd_window_start d < nd_window_end d"
    using v by (auto simp: notification_digest_init_def)
  have "map_res (parse_item (nd_workspace_id d) False) (map item_payload (nd_routine d)) = Inr (nd_routine d)"
    by (rule map_res_inverse) (metis digest_items_def i parse_item_payload set_append u(1) UnI1)
  moreover have "map_res (parse_item (nd_workspace_id d) True) (map item_payload (nd_urgent d)) = Inr (nd_urgent d)"
    by (rule map_res_inverse) (metis digest_items_def i parse_item_payload set_append u(2) UnI2)
  ultimately show ?thesis using u v assms(2,3)
    by (auto simp: deserialize_digest_def serialize_digest_def parse_datetime_def parse_items_def)
qed

section \<open>Splitting a digest into jobs\<close>

definition valid_digest :: "notification_digest \<Rightarrow> bool" where
  "valid_digest d \<longleftrightarrow> notification_digest_init d = Inr d \<and> (\<forall>i\<in>set (digest_items d). digest_item_init i = Inr i)"

definition event_ids :: "digest_item list \<Rightarrow> string list" where
  "event_ids items = concat (map di_source_event_ids items)"

lemma event_ids_simps [simp]:
  "event_ids [] = []" "event_ids (i # items) = di_source_event_ids i @ event_ids items"
  "event_ids (xs @ ys) = event_ids xs @ event_ids ys"
  by (simp_all add: event_ids_def)

lemma has_control_simps [simp]:
  "has_control [] = False" "has_control (c # s) = ((code_of c < 32 \<or> code_of c = 127) \<or> has_control s)"
  "has_control (s @ t) = (has_control s \<or> has_control t)"
  by (auto simp: has_control_def)

lemma nat_str_digits: "c \<in> set (nat_str n) \<Longrightarrow> is_digit c"
proof (induction n rule: nat_str.induct)
  case (1 n)
  have "is_digit (char_of (48 + k))" if "k < 10" for k :: nat
    using that by (simp add: is_digit_def code_of_def)
  with 1 show ?case by (subst (asm) nat_str.simps) (auto split: if_splits)
qed

lemma nat_str_nonempty [simp]: "nat_str n \<noteq> []"
  by (subst nat_str.simps) simp

lemma digits_no_control: "(\<And>c. c \<in> set s \<Longrightarrow> is_digit c) \<Longrightarrow> \<not> has_control s"
  by (fastforce simp: has_control_def is_digit_def)

lemma digit_not_space: "is_digit c \<Longrightarrow> \<not> py_isspace c"
  by (auto simp: is_digit_def py_isspace_def Let_def)

lemma int_str_clean:
  assumes "0 \<le> i"
  shows "int_str i \<noteq> []" "\<not> py_isspace (hd (int_str i))" "\<not> has_control (int_str i)"
proof -
  have s: "int_str i = nat_str (nat i)" using assms by (simp add: int_str_def)
  show "int_str i \<noteq> []" by (simp add: s)
  then have "hd (int_str i) \<in> set (int_str i)" by simp
  then show "\<not> py_isspace (hd (int_str i))" unfolding s by (intro digit_not_space nat_str_digits)
  show "\<not> has_control (int_str i)" unfolding s by (intro digits_no_control nat_str_digits)
qed

lemma nat_str_no_control [simp]: "\<not> has_control (nat_str n)"
  by (intro digits_no_control nat_str_digits)

lemma rollup_summary_clean:
  assumes "0 \<le> sum_list (map di_logical_event_count items)" "0 \<le> sum_list (map di_duplicate_copy_count items)"
  shows "clean_text (rollup_summary items)"
proof (rule clean_textI)
  note l = int_str_clean [OF assms(1)] and c = int_str_clean [OF assms(2)]
  show "rollup_summary items \<noteq> []" using l by (simp add: rollup_summary_def Let_def)
  show "\<not> py_isspace (hd (rollup_summary items))" using l by (simp add: rollup_summary_def Let_def)
  show "\<not> py_isspace (last (rollup_summary items))"
    by (simp add: rollup_summary_def Let_def py_isspace_def code_of_def)
  show "\<not> has_control (rollup_summary items)"
    using l c by (simp add: rollup_summary_def Let_def code_of_def)
qed

lemma max_by_in: "max_by f x xs \<in> set (x # xs)"
  by (induction xs arbitrary: x) (simp_all, metis insert_iff)

lemma item_counts:
  assumes "digest_item_init i = Inr i"
  shows "di_logical_event_count i + di_duplicate_copy_count i = int (length (di_source_event_ids i))"
    "0 \<le> di_duplicate_copy_count i" "1 \<le> di_logical_event_count i" "di_source_event_ids i \<noteq> []"
    "check_text ''workspace_id'' (di_workspace_id i) = None" "\<forall>e\<in>set (di_source_event_ids i). py_strip e \<noteq> []"
    "\<forall>x\<in>set (di_evidence_refs i). \<not> (case x of (a, b, c) \<Rightarrow> py_strip a = [] \<or> py_strip b = [] \<or> py_strip c = [])"
  using assms by (auto simp: digest_item_init_def Let_def)

lemma items_counts:
  assumes "\<forall>i\<in>set items. digest_item_init i = Inr i"
  shows "int (length (event_ids items)) = sum_list (map di_logical_event_count items) + sum_list (map di_duplicate_copy_count items) \<and>
    0 \<le> sum_list (map di_duplicate_copy_count items) \<and>
    int (length items) \<le> sum_list (map di_logical_event_count items)"
  using assms
proof (induction items)
  case (Cons i items)
  then show ?case using item_counts [of i] by simp
qed simp

lemma items_evidence:
  assumes "\<forall>i\<in>set items. digest_item_init i = Inr i"
  shows "mset (map (snd \<circ> snd) (concat (map di_evidence_refs items))) = mset (event_ids items)"
  using assms by (induction items) (use evidence_matches_events(2) in simp_all)

text \<open>The rolled-up item is a valid item with the same events.\<close>

definition rollup_item :: "stable_id_fn \<Rightarrow> iso_time \<Rightarrow> string \<Rightarrow> int \<Rightarrow> int \<Rightarrow> digest_item list \<Rightarrow> digest_item" where
  "rollup_item stable_id tm ws start end_at items =
     \<lparr>di_item_id = ''notification-rollup:'' @
        stable_id [''kogwistar_llm_wiki.notification_rollup'', rollup_identity tm ws start end_at items],
      di_workspace_id = ws, di_summary = rollup_summary items,
      di_severity = max_by severity_rank (di_severity (hd items)) (map di_severity (tl items)),
      di_action_required = (\<exists>i\<in>set items. di_action_required i),
      di_source_event_ids = sorted_list_of_set (set (event_ids items)),
      di_evidence_refs = sorted_list_of_set (set (concat (map di_evidence_refs items))),
      di_urgent = False,
      di_logical_event_count = sum_list (map di_logical_event_count items),
      di_duplicate_copy_count = sum_list (map di_duplicate_copy_count items)\<rparr>"

lemma compact_routine_items_alt:
  "compact_routine_items stable_id tm ws start end_at items =
     (if length items \<le> routine_detail_limit then Inr items
      else res_bind (digest_item_init (rollup_item stable_id tm ws start end_at items)) (\<lambda>i. Inr [i]))"
  by (simp add: compact_routine_items_def rollup_item_def event_ids_def)

lemma rollup_evidence:
  assumes "\<forall>i\<in>set items. digest_item_init i = Inr i" "distinct (event_ids items)"
  shows "card (set (concat (map di_evidence_refs items))) = length (event_ids items)"
    "(snd \<circ> snd) ` set (concat (map di_evidence_refs items)) = set (event_ids items)"
proof -
  note m = items_evidence [OF assms(1)]
  then have "distinct (map (snd \<circ> snd) (concat (map di_evidence_refs items)))"
    using assms(2) by (metis mset_eq_imp_distinct_iff)
  then have "distinct (concat (map di_evidence_refs items))" unfolding distinct_map by blast
  then show "card (set (concat (map di_evidence_refs items))) = length (event_ids items)"
    using m by (metis distinct_card length_map mset_eq_length)
  show "(snd \<circ> snd) ` set (concat (map di_evidence_refs items)) = set (event_ids items)"
    using m by (metis list.set_map mset_eq_setD)
qed

lemma py_strip_nonempty: "\<not> py_isspace c \<Longrightarrow> py_strip (c # s) \<noteq> []"
  by (simp add: py_strip_def py_lstrip_def py_rstrip_Cons)

lemma rollup_item_valid:
  assumes items: "\<forall>i\<in>set items. digest_item_init i = Inr i \<and> di_workspace_id i = ws" "items \<noteq> []"
    and d: "distinct (event_ids items)" and sid: "\<forall>xs. \<not> has_control (stable_id xs)"
  shows "digest_item_init (rollup_item stable_id tm ws start end_at items) = Inr (rollup_item stable_id tm ws start end_at items)"
proof -
  have v: "\<forall>i\<in>set items. digest_item_init i = Inr i" using items by blast
  note c = items_counts [OF v] and e = rollup_evidence [OF v d]
  have "clean_text (rollup_summary items)" using c by (intro rollup_summary_clean) linarith+
  then have s: "check_text n (rollup_summary items) = None" for n by (simp add: clean_text_def check_text_def)
  have i: "check_text ''item_id'' (''notification-rollup:'' @ stable_id xs) = None" for xs
    using sid by (simp add: check_text_def py_strip_nonempty py_isspace_def code_of_def)
  have w: "check_text ''workspace_id'' ws = None" using items item_counts(5) by (metis hd_in_set)
  have ne: "set (event_ids items) \<noteq> {}"
    using items item_counts(4) by (cases items) auto
  have b: "\<forall>x\<in>set (event_ids items). py_strip x \<noteq> []"
    "\<forall>x\<in>set (concat (map di_evidence_refs items)). \<not> (case x of (a, b, c) \<Rightarrow> py_strip a = [] \<or> py_strip b = [] \<or> py_strip c = [])"
    using v item_counts(6,7) unfolding event_ids_def set_concat set_map by blast+
  have l: "1 \<le> sum_list (map di_logical_event_count items)" using c items(2) by (cases items) auto
  have n: "length (sorted_list_of_set (set (event_ids items))) = length (event_ids items)"
    using d by (simp add: distinct_card)
  show ?thesis
    unfolding digest_item_init_def Let_def rollup_item_def
    using s i w ne b l c e n by (simp del: set_concat)
qed

lemma valid_digest_iff:
  "valid_digest d \<longleftrightarrow> py_strip (nd_workspace_id d) \<noteq> [] \<and> nd_window_start d < nd_window_end d \<and>
     (\<forall>i\<in>set (digest_items d). digest_item_init i = Inr i \<and> di_workspace_id i = nd_workspace_id d) \<and>
     (\<forall>i\<in>set (nd_routine d). \<not> di_urgent i \<and> \<not> is_urgent (di_severity i)) \<and>
     (\<forall>i\<in>set (nd_urgent d). di_urgent i \<and> is_urgent (di_severity i)) \<and>
     distinct (map di_item_id (digest_items d)) \<and> distinct (event_ids (digest_items d))"
  unfolding valid_digest_def notification_digest_init_def check_then_Inr checks_Nil event_ids_def
  by auto

definition only_urgent :: "notification_digest \<Rightarrow> digest_item \<Rightarrow> notification_digest" where
  "only_urgent d i = d\<lparr>nd_routine := [], nd_urgent := [i]\<rparr>"

definition compacted :: "stable_id_fn \<Rightarrow> iso_time \<Rightarrow> notification_digest \<Rightarrow> digest_item list" where
  "compacted stable_id tm d = (if length (nd_routine d) \<le> routine_detail_limit then nd_routine d
     else [rollup_item stable_id tm (nd_workspace_id d) (nd_window_start d) (nd_window_end d) (nd_routine d)])"

definition only_routine :: "stable_id_fn \<Rightarrow> iso_time \<Rightarrow> notification_digest \<Rightarrow> notification_digest" where
  "only_routine stable_id tm d = d\<lparr>nd_routine := compacted stable_id tm d, nd_urgent := []\<rparr>"

lemma only_urgent_valid:
  assumes "valid_digest d" "i \<in> set (nd_urgent d)"
  shows "valid_digest (only_urgent d i)"
proof -
  have "digest_item_init i = Inr i" using assms by (simp add: valid_digest_def digest_items_def)
  from evidence_matches_events(1) [OF this] this assms show ?thesis
    by (auto simp: valid_digest_iff only_urgent_def digest_items_def)
qed

lemma compacted_items:
  assumes "valid_digest d" "nd_routine d \<noteq> []" "\<forall>xs. \<not> has_control (stable_id xs)"
  shows "compact_routine_items stable_id tm (nd_workspace_id d) (nd_window_start d) (nd_window_end d) (nd_routine d) =
      Inr (compacted stable_id tm d)"
    "\<forall>i\<in>set (compacted stable_id tm d). digest_item_init i = Inr i \<and> di_workspace_id i = nd_workspace_id d \<and>
       \<not> di_urgent i \<and> \<not> is_urgent (di_severity i)"
    "mset (event_ids (compacted stable_id tm d)) = mset (event_ids (nd_routine d))"
    "distinct (map di_item_id (compacted stable_id tm d))"
    "1 \<le> length (compacted stable_id tm d) \<and> length (compacted stable_id tm d) \<le> 5"
proof -
  have r: "\<forall>i\<in>set (nd_routine d). digest_item_init i = Inr i \<and> di_workspace_id i = nd_workspace_id d"
    "distinct (event_ids (nd_routine d))" "distinct (map di_item_id (nd_routine d))"
    "\<forall>i\<in>set (nd_routine d). \<not> di_urgent i \<and> \<not> is_urgent (di_severity i)"
    using assms(1) by (auto simp: valid_digest_iff digest_items_def)
  let ?i = "rollup_item stable_id tm (nd_workspace_id d) (nd_window_start d) (nd_window_end d) (nd_routine d)"
  note v = rollup_item_valid [OF r(1) assms(2) r(2) assms(3), of tm "nd_window_start d" "nd_window_end d"]
  have "di_severity ?i \<in> di_severity ` set (nd_routine d)"
    using max_by_in [of severity_rank "di_severity (hd (nd_routine d))" "map di_severity (tl (nd_routine d))"] assms(2)
    by (cases "nd_routine d") (auto simp: rollup_item_def)
  then obtain j where "j \<in> set (nd_routine d)" "di_severity ?i = di_severity j" by (rule imageE)
  with r(4) have s: "\<not> is_urgent (di_severity ?i)" by simp
  have m: "mset (di_source_event_ids ?i) = mset (event_ids (nd_routine d))"
    using r(2) by (simp add: rollup_item_def set_eq_iff_mset_eq_distinct [symmetric])
  show "compact_routine_items stable_id tm (nd_workspace_id d) (nd_window_start d) (nd_window_end d) (nd_routine d) =
      Inr (compacted stable_id tm d)"
    by (simp add: compact_routine_items_alt compacted_def v)
  show "\<forall>i\<in>set (compacted stable_id tm d). digest_item_init i = Inr i \<and> di_workspace_id i = nd_workspace_id d \<and>
       \<not> di_urgent i \<and> \<not> is_urgent (di_severity i)"
    using r(1,4) v s by (simp add: compacted_def) (simp add: rollup_item_def)
  show "mset (event_ids (compacted stable_id tm d)) = mset (event_ids (nd_routine d))"
    using m by (simp add: compacted_def)
  show "distinct (map di_item_id (compacted stable_id tm d))" using r(3) by (simp add: compacted_def)
  show "1 \<le> length (compacted stable_id tm d) \<and> length (compacted stable_id tm d) \<le> 5"
    using assms(2) by (cases "nd_routine d") (simp_all add: compacted_def routine_detail_limit_def)
qed

lemma only_routine_valid:
  assumes "valid_digest d" "nd_routine d \<noteq> []" "\<forall>xs. \<not> has_control (stable_id xs)"
  shows "valid_digest (only_routine stable_id tm d)"
proof -
  note c = compacted_items [OF assms, of tm]
  have "distinct (event_ids (compacted stable_id tm d))"
    using c(3) assms(1) by (metis digest_items_def distinct_append event_ids_simps(3) mset_eq_imp_distinct_iff valid_digest_iff)
  with c assms(1) show ?thesis by (auto simp: valid_digest_iff only_routine_def digest_items_def)
qed

lemma digest_deliveries_valid:
  assumes "valid_digest d" "\<forall>xs. \<not> has_control (stable_id xs)"
  shows "digest_deliveries stable_id tm d = Inr (map (\<lambda>i. (''urgent'', only_urgent d i)) (nd_urgent d) @
    (if nd_routine d = [] then [] else [(''routine'', only_routine stable_id tm d)]))"
proof -
  have "map_res (urgent_part d) (nd_urgent d) = Inr (map (only_urgent d) (nd_urgent d))"
    by (rule map_res_id)
      (use only_urgent_valid [OF assms(1)] in \<open>simp add: urgent_part_def valid_digest_def only_urgent_def\<close>)
  moreover have "routine_part stable_id tm d = Inr (only_routine stable_id tm d)" if "nd_routine d \<noteq> []"
    using compacted_items(1) [OF assms(1) that assms(2)] only_routine_valid [OF assms(1) that assms(2)]
    by (simp add: routine_part_def valid_digest_def only_routine_def)
  ultimately show ?thesis by (simp add: digest_deliveries_def comp_def)
qed

text \<open>a valid digest is always split into jobs: each urgent item alone, and the routine items together,
  rolled up when there are more than five. Every event of the digest is in exactly one job, none is lost
  by the roll-up, and every part is a valid digest.\<close>

theorem deliveries_cover_digest:
  assumes "valid_digest d" "\<forall>xs. \<not> has_control (stable_id xs)"
  shows "\<exists>ds. digest_deliveries stable_id tm d = Inr ds \<and>
    mset (concat (map (\<lambda>p. event_ids (digest_items (snd p))) ds)) = mset (event_ids (digest_items d)) \<and>
    (\<forall>(c, p)\<in>set ds. valid_digest p \<and>
       (c = ''urgent'' \<and> nd_routine p = [] \<and> (\<exists>i\<in>set (nd_urgent d). nd_urgent p = [i]) \<or>
        c = ''routine'' \<and> nd_urgent p = [] \<and> 1 \<le> length (nd_routine p) \<and> length (nd_routine p) \<le> 5))"
proof -
  let ?ds = "map (\<lambda>i. (''urgent'', only_urgent d i)) (nd_urgent d) @
    (if nd_routine d = [] then [] else [(''routine'', only_routine stable_id tm d)])"
  have u: "concat (map (\<lambda>p. event_ids (digest_items (snd p))) (map (\<lambda>i. (''urgent'', only_urgent d i)) us)) = event_ids us" for us
    by (induction us) (simp_all add: only_urgent_def digest_items_def)
  have r: "mset (event_ids (digest_items (only_routine stable_id tm d))) = mset (event_ids (nd_routine d))" if "nd_routine d \<noteq> []"
    using compacted_items(3) [OF assms(1) that assms(2)] by (simp add: only_routine_def digest_items_def)
  have "mset (concat (map (\<lambda>p. event_ids (digest_items (snd p))) ?ds)) = mset (event_ids (digest_items d))"
    using r unfolding map_append concat_append u by (simp add: digest_items_def)
  moreover have "\<forall>(c, p)\<in>set ?ds. valid_digest p \<and>
       (c = ''urgent'' \<and> nd_routine p = [] \<and> (\<exists>i\<in>set (nd_urgent d). nd_urgent p = [i]) \<or>
        c = ''routine'' \<and> nd_urgent p = [] \<and> 1 \<le> length (nd_routine p) \<and> length (nd_routine p) \<le> 5)"
    using only_urgent_valid [OF assms(1)] only_routine_valid [OF assms(1) _ assms(2)] compacted_items(5) [OF assms(1) _ assms(2)]
    by (auto simp: only_urgent_def only_routine_def)
  ultimately show ?thesis using digest_deliveries_valid [OF assms] by blast
qed

lemma clean_text_last: "clean_text s \<Longrightarrow> \<not> py_isspace (last s)"
  using py_rstrip_last [of "py_lstrip s"] by (simp add: clean_text_def py_strip_def)

lemma clean_digest_valid: "clean_digest d \<Longrightarrow> valid_digest d"
  by (simp add: clean_digest_def valid_digest_def clean_item_def)

lemma only_urgent_clean:
  assumes "clean_digest d" "i \<in> set (nd_urgent d)"
  shows "clean_digest (only_urgent d i)"
  using assms only_urgent_valid [OF clean_digest_valid [OF assms(1)] assms(2)]
  by (simp add: clean_digest_def valid_digest_def) (simp add: only_urgent_def digest_items_def)

lemma rollup_item_clean:
  assumes "\<forall>i\<in>set items. clean_item i \<and> di_workspace_id i = ws" "items \<noteq> []" "distinct (event_ids items)"
    and sid: "\<forall>xs. clean_text (stable_id xs)"
  shows "clean_item (rollup_item stable_id tm ws start end_at items)"
proof -
  let ?i = "rollup_item stable_id tm ws start end_at items"
  have v: "\<forall>i\<in>set items. digest_item_init i = Inr i" using assms(1) by (simp add: clean_item_def)
  have "\<forall>xs. \<not> has_control (stable_id xs)" using sid by (simp add: clean_text_def)
  with assms have a: "digest_item_init ?i = Inr ?i" by (intro rollup_item_valid) (simp_all add: clean_item_def)
  have b: "clean_text (''notification-rollup:'' @ stable_id xs)" for xs
    using sid clean_text_last [of "stable_id xs"]
    by (intro clean_textI) (auto simp: clean_text_def py_isspace_def code_of_def)
  have c: "clean_text (rollup_summary items)"
    using items_counts [OF v] by (intro rollup_summary_clean) linarith+
  have w: "clean_text ws" using assms(1,2) by (metis clean_item_def hd_in_set)
  have e: "\<forall>e\<in>set (event_ids items). clean_text e" "\<forall>r\<in>set (concat (map di_evidence_refs items)). clean_ref r"
    using assms(1) unfolding event_ids_def set_concat set_map clean_item_def by blast+
  show ?thesis using a b c w e by (simp add: clean_item_def) (simp add: rollup_item_def)
qed

lemma only_routine_clean:
  assumes "clean_digest d" "nd_routine d \<noteq> []" "\<forall>xs. clean_text (stable_id xs)"
  shows "clean_digest (only_routine stable_id tm d)"
proof -
  note v = clean_digest_valid [OF assms(1)]
  have r: "\<forall>i\<in>set (nd_routine d). clean_item i \<and> di_workspace_id i = nd_workspace_id d" "distinct (event_ids (nd_routine d))"
    using assms(1) v by (auto simp: clean_digest_def valid_digest_iff digest_items_def)
  have "\<forall>i\<in>set (compacted stable_id tm d). clean_item i"
    using r rollup_item_clean [OF r(1) assms(2) r(2) assms(3)] by (simp add: compacted_def)
  moreover have "valid_digest (only_routine stable_id tm d)"
    using only_routine_valid [OF v assms(2)] assms(3) by (simp add: clean_text_def)
  ultimately show ?thesis
    by (simp add: clean_digest_def valid_digest_def) (simp add: only_routine_def digest_items_def)
qed

text \<open>The job a worker claims carries the identity, the namespace and the payload it was queued with.\<close>

definition job_matches :: "enqueue_request \<Rightarrow> job_queue_item \<Rightarrow> bool" where
  "job_matches r j \<longleftrightarrow> jq_job_id j = rq_job_id r \<and> jq_namespace j = rq_namespace r \<and> jq_entity_kind j = rq_entity_kind r \<and>
     jq_entity_id j = rq_entity_id r \<and> jq_job_kind j = rq_job_kind r \<and> jq_payload j = rq_payload r"

lemma prepared_job_parses:
  assumes "prepare_delivery stable_id tm ws recipient n (cls, p) = Inr r" "job_matches r j"
    and "nd_workspace_id p = ws" "clean_digest p" "clean_text recipient"
    and "iso_parse tm (iso_format tm (nd_window_start p)) = Some (nd_window_start p)"
    and "iso_parse tm (iso_format tm (nd_window_end p)) = Some (nd_window_end p)"
    and "cls = ''urgent'' \<and> length (nd_urgent p) = 1 \<and> nd_routine p = [] \<or>
         cls = ''routine'' \<and> nd_urgent p = [] \<and> nd_routine p \<noteq> []"
  shows "parse_job tm ws j = Inr (recipient, p)"
proof -
  note d = deserialize_serialize [OF assms(4,6,7), unfolded assms(3)]
  from assms(1,2) have j: "jq_payload j = delivery_payload tm ws recipient (cls, p)" "jq_entity_kind j = ''notification_delivery''"
    "jq_entity_id j = jq_job_id j" "jq_job_kind j = job_kind_name"
    "jq_namespace j = (if cls = ''urgent'' then urgent_notification_jobs ws else notification_jobs ws)"
    by (auto simp: prepare_delivery_def Let_def job_matches_def)
  from assms(8) show ?thesis
    by (elim disjE conjE) (simp_all add: parse_job_def Let_def j delivery_payload_def d assms(5))
qed

text \<open>C33: what the scheduler queues, the worker can read. For a digest whose texts are free of control
  characters and surrounding white space, every job prepared from it is accepted by the worker's
  validation and yields the same recipient and the same part of the digest.\<close>

theorem queued_job_read_back:
  assumes "clean_digest d" "clean_text recipient" "\<forall>xs. clean_text (stable_id xs)"
    and "iso_parse tm (iso_format tm (nd_window_start d)) = Some (nd_window_start d)"
    and "iso_parse tm (iso_format tm (nd_window_end d)) = Some (nd_window_end d)"
    and "digest_deliveries stable_id tm d = Inr ds" "(cls, p) \<in> set ds"
    and "prepare_delivery stable_id tm (nd_workspace_id d) recipient n (cls, p) = Inr r" "job_matches r j"
  shows "parse_job tm (nd_workspace_id d) j = Inr (recipient, p)"
proof (rule prepared_job_parses [OF assms(8,9)])
  note v = clean_digest_valid [OF assms(1)]
  have sid: "\<forall>xs. \<not> has_control (stable_id xs)" using assms(3) by (simp add: clean_text_def)
  from assms(6,7) digest_deliveries_valid [OF v sid] consider
      (u) i where "cls = ''urgent''" "p = only_urgent d i" "i \<in> set (nd_urgent d)"
    | (r) "cls = ''routine''" "p = only_routine stable_id tm d" "nd_routine d \<noteq> []"
    by (auto split: if_splits)
  then have "clean_digest p \<and> nd_workspace_id p = nd_workspace_id d \<and> nd_window_start p = nd_window_start d \<and>
    nd_window_end p = nd_window_end d \<and> (cls = ''urgent'' \<and> length (nd_urgent p) = 1 \<and> nd_routine p = [] \<or>
         cls = ''routine'' \<and> nd_urgent p = [] \<and> nd_routine p \<noteq> [])"
  proof cases
    case u
    with only_urgent_clean [OF assms(1) u(3)] show ?thesis by (simp add: only_urgent_def)
  next
    case r
    with only_routine_clean [OF assms(1) r(3) assms(3)] compacted_items(5) [OF v r(3) sid, of tm]
    show ?thesis by (auto simp: only_routine_def)
  qed
  then show "nd_workspace_id p = nd_workspace_id d" "clean_digest p"
    "iso_parse tm (iso_format tm (nd_window_start p)) = Some (nd_window_start p)"
    "iso_parse tm (iso_format tm (nd_window_end p)) = Some (nd_window_end p)"
    "cls = ''urgent'' \<and> length (nd_urgent p) = 1 \<and> nd_routine p = [] \<or>
         cls = ''routine'' \<and> nd_urgent p = [] \<and> nd_routine p \<noteq> []"
    using assms(4,5) by simp_all
qed (rule assms(2))

section \<open>Only authorized deliveries\<close>

text \<open>C32: the adapter is called only for deliveries that the access callbacks allow at that moment: two
  adapters that agree on those behave the same in every run of the worker, whatever they would do with
  a delivery that is denied, revoked or invalid.\<close>

theorem delivery_only_authorized:
  assumes "\<And>t recipient d key. authorize acl t recipient d = None \<Longrightarrow> deliver t recipient d key = deliver' t recipient d key"
  shows "process_pending_jobs q tm acl deliver ws limit lease s = process_pending_jobs q tm acl deliver' ws limit lease s"
proof -
  have j: "process_job q tm acl deliver w j t = process_job q tm acl deliver' w j t" for w j t
    unfolding process_job_def
    by (cases "res_bind (parse_job tm w j) (\<lambda>(recipient, d). check_then (authorize acl t recipient d) (Inr (recipient, d)))")
      (use assms in \<open>auto split: prod.splits\<close>)
  have "process_jobs q tm acl deliver w js t = process_jobs q tm acl deliver' w js t" for w js t
    by (induction js arbitrary: t) (simp_all add: j cong: prod.case_cong sum.case_cong)
  then have "process_jobs q tm acl deliver = process_jobs q tm acl deliver'" by (intro ext)
  then show ?thesis unfolding process_pending_jobs_def by (rule arg_cong)
qed

lemma process_job_id: "process_job q tm acl deliver ws j s = (s', Inr out) \<Longrightarrow> do_job_id out = jq_job_id j"
  by (auto simp: process_job_def refuse_job_def job_outcome_def
      split: sum.splits prod.splits option.splits py_error.splits if_splits)

text \<open>A run of the worker that completes reports exactly one outcome for every job it claimed, in the
  order of the claims: first the urgent jobs, then routine ones up to the limit.\<close>

theorem outcomes_match_claims:
  assumes "process_pending_jobs q tm acl deliver ws limit lease s = (s', Inr outs)"
  shows "\<exists>t urgent routine. map do_job_id outs = map jq_job_id (urgent @ routine) \<and>
    q_claim q s (urgent_notification_jobs (py_strip ws)) limit lease = (t, Inr urgent) \<and>
    (if int (length urgent) < limit
     then \<exists>t'. q_claim q t (notification_jobs (py_strip ws)) (limit - int (length urgent)) lease = (t', Inr routine)
     else routine = [])"
proof -
  have ids: "map do_job_id outs = map jq_job_id js" if "process_jobs q tm acl deliver w js t = (t', Inr outs)" for w js t t' outs
    using that by (induction js arbitrary: t outs) (auto split: prod.splits sum.splits dest: process_job_id)
  from assms obtain t jobs where c: "claim_jobs q (py_strip ws) limit lease s = (t, Inr jobs)"
    "process_jobs q tm acl deliver (py_strip ws) jobs t = (s', Inr outs)"
    by (auto simp: process_pending_jobs_def required_text_def split: sum.splits prod.splits)
  from c(1) obtain t1 urgent where u: "q_claim q s (urgent_notification_jobs (py_strip ws)) limit lease = (t1, Inr urgent)"
    by (auto simp: claim_jobs_def split: sum.splits prod.splits)
  show ?thesis
  proof (cases "int (length urgent) < limit")
    case True
    with c(1) u obtain routine where
      "q_claim q t1 (notification_jobs (py_strip ws)) (limit - int (length urgent)) lease = (t, Inr routine)" "jobs = urgent @ routine"
      by (auto simp: claim_jobs_def split: sum.splits prod.splits)
    with True u ids [OF c(2)] show ?thesis by auto
  next
    case False
    with c(1) u have "jobs = urgent @ []" by (simp add: claim_jobs_def)
    with False u ids [OF c(2)] show ?thesis by auto
  qed
qed

section \<open>Examples\<close>

text \<open>A queue that holds its pending jobs in a list, beside the deliveries made.\<close>

type_synonym example_queue = "job_queue_item list \<times> (string \<times> string) list"

definition example_job :: "enqueue_request \<Rightarrow> job_queue_item" where
  "example_job r = \<lparr>jq_job_id = rq_job_id r, jq_namespace = rq_namespace r, jq_entity_kind = rq_entity_kind r,
     jq_entity_id = rq_entity_id r, jq_job_kind = rq_job_kind r, jq_payload = rq_payload r, jq_claim_token = None,
     jq_status = ''PENDING'', jq_created_at_ms = None, jq_updated_at_ms = None, jq_retry_count = 0,
     jq_max_retries = rq_max_retries r, jq_claim_attempts = 0, jq_last_error = None\<rparr>"

definition example_queue_ops :: "example_queue queue_ops" where
  "example_queue_ops = \<lparr>q_require_enqueue = (\<lambda>_. None), q_require_claim = (\<lambda>_. None),
     q_enqueue = (\<lambda>s r. ((fst s @ [example_job r], snd s), Inr (rq_job_id r))),
     q_claim = (\<lambda>s ns limit _. ((filter (\<lambda>j. jq_namespace j \<noteq> ns) (fst s), snd s),
        Inr (take (nat limit) (filter (\<lambda>j. jq_namespace j = ns) (fst s))))),
     q_mark_failed = (\<lambda>s _ _ _. (s, None)), q_retry_or_fail = (\<lambda>s _ _. (s, None)),
     q_mark_done = (\<lambda>s _ _. (s, Inr True)),
     q_uow = Some \<lparr>uow_commit = (\<lambda>_ s. (s, None)), uow_abort = (\<lambda>s _. s)\<rparr>\<rparr>"

definition example_time :: iso_time where
  "example_time = \<lparr>iso_format = int_str, iso_parse = int_of_string\<rparr>"

definition example_acl :: "example_queue delivery_acl" where
  "example_acl = \<lparr>acl_recipient = (\<lambda>_ w r. Inr (r = ''ann'')), acl_source = (\<lambda>_ w r s. Inr (s = ''s''))\<rparr>"

definition example_deliver :: "example_queue adapter" where
  "example_deliver s recipient d key = ((fst s, snd s @ [(recipient, key)]), None)"

definition example_built :: notification_digest where
  "example_built = (case example_digest of Inr d \<Rightarrow> d
     | Inl _ \<Rightarrow> \<lparr>nd_workspace_id = [], nd_window_start = 0, nd_window_end = 0, nd_routine = [], nd_urgent = []\<rparr>)"

definition example_enqueued :: "example_queue \<times> string list result" where
  "example_enqueued = enqueue_digest example_queue_ops (\<lambda>_. ''id'') example_time example_acl ''ann'' example_built 5 ([], [])"

lemma example_built_clean: "clean_digest example_built"
  by code_simp

lemma example_ids_clean: "\<forall>xs. clean_text ((\<lambda>_::string list. ''id'') xs)"
  by (simp, code_simp)

theorem deliveries_cover_digest_witness:
  "\<exists>ds. digest_deliveries (\<lambda>_. ''id'') example_time example_built = Inr ds \<and>
     mset (concat (map (\<lambda>p. event_ids (digest_items (snd p))) ds)) = {#''a'', ''b'', ''c''#}"
proof -
  have "event_ids (digest_items example_built) = [''a'', ''b'', ''c'']" by code_simp
  then have "mset (event_ids (digest_items example_built)) = {#''a'', ''b'', ''c''#}" by simp
  moreover have "\<forall>xs. \<not> has_control ((\<lambda>_::string list. ''id'') xs)" using example_ids_clean by (simp add: clean_text_def)
  ultimately show ?thesis
    using deliveries_cover_digest [OF clean_digest_valid [OF example_built_clean], of "\<lambda>_. ''id''" example_time] by metis
qed

definition example_part :: "string \<times> notification_digest" where
  "example_part = (''urgent'', only_urgent example_built (hd (nd_urgent example_built)))"

theorem queued_job_read_back_witness:
  "\<exists>r. prepare_delivery (\<lambda>_. ''id'') example_time ''w'' ''ann'' 5 example_part = Inr r \<and>
     parse_job example_time ''w'' (example_job r) = Inr (''ann'', snd example_part)"
proof -
  have w: "nd_workspace_id example_built = ''w''" by code_simp
  have t: "iso_parse example_time (iso_format example_time (nd_window_start example_built)) = Some (nd_window_start example_built)"
    "iso_parse example_time (iso_format example_time (nd_window_end example_built)) = Some (nd_window_end example_built)"
    by code_simp+
  have a: "clean_text ''ann''" by code_simp
  have ds: "\<exists>ds. digest_deliveries (\<lambda>_. ''id'') example_time example_built = Inr ds \<and> example_part \<in> set ds"
  proof -
    have "hd (nd_urgent example_built) \<in> set (nd_urgent example_built)" by code_simp
    with digest_deliveries_valid [OF clean_digest_valid [OF example_built_clean], of "\<lambda>_. ''id''" example_time] example_ids_clean
    show ?thesis by (auto simp: clean_text_def example_part_def)
  qed
  have "case prepare_delivery (\<lambda>_. ''id'') example_time ''w'' ''ann'' 5 example_part of Inl _ \<Rightarrow> False | Inr _ \<Rightarrow> True"
    by code_simp
  then obtain r where r: "prepare_delivery (\<lambda>_. ''id'') example_time ''w'' ''ann'' 5 example_part = Inr r"
    by (auto split: sum.splits)
  have m: "job_matches r (example_job r)" by (simp add: job_matches_def example_job_def)
  from ds r queued_job_read_back [OF example_built_clean a example_ids_clean t, unfolded w, OF _ _ _ m]
  show ?thesis by (metis prod.collapse)
qed

theorem delivery_only_authorized_witness:
  "process_pending_jobs example_queue_ops example_time example_acl example_deliver ''w'' 3 60 (fst example_enqueued) =
   process_pending_jobs example_queue_ops example_time example_acl
     (\<lambda>t recipient d key. if authorize example_acl t recipient d = None then example_deliver t recipient d key
        else (t, Some (RuntimeError ''leak''))) ''w'' 3 60 (fst example_enqueued)"
  by (rule delivery_only_authorized) simp

definition example_pending :: example_queue where
  "example_pending = (map (\<lambda>(i, ns). example_job \<lparr>rq_job_id = i, rq_namespace = ns,
     rq_entity_kind = ''notification_delivery'', rq_entity_id = i, rq_job_kind = job_kind_name, rq_op = ''DELIVER'',
     rq_payload = [], rq_max_retries = 5\<rparr>)
     [(''r'', notification_jobs ''w''), (''u'', urgent_notification_jobs ''w'')], [])"

theorem outcomes_match_claims_witness:
  "\<exists>t urgent routine. [''u'', ''r''] = map jq_job_id (urgent @ routine) \<and>
     q_claim example_queue_ops example_pending (urgent_notification_jobs (py_strip ''w'')) 3 60 = (t, Inr urgent)"
proof -
  have "map_sum (\<lambda>_. ()) (map do_job_id) (snd (process_pending_jobs example_queue_ops example_time example_acl example_deliver ''w'' 3 60
     example_pending)) = Inr [''u'', ''r'']" by code_simp
  then obtain s' outs where "process_pending_jobs example_queue_ops example_time example_acl example_deliver ''w'' 3 60
     example_pending = (s', Inr outs)" "map do_job_id outs = [''u'', ''r'']"
    by (cases "process_pending_jobs example_queue_ops example_time example_acl example_deliver ''w'' 3 60 example_pending")
      (auto simp: map_sum_def split: sum.splits)
  with outcomes_match_claims [OF this(1)] show ?thesis by metis
qed

text \<open>A digest may hold an event whose identifier has surrounding white space, and the scheduler queues it;
  the worker strips the identifier in the evidence references but not in the list of events, finds that
  they disagree and fails the job for good. The notification is never delivered.\<close>

definition padded_digest :: "notification_digest result" where
  "padded_digest = build_notification_digest (\<lambda>s. s) (\<lambda>t. []) (\<lambda>w s. True) ''w'' 0 9 5 [example_event '' a'' SevHigh 3]"

theorem padded_event_undeliverable:
  "(case padded_digest of Inl _ \<Rightarrow> False | Inr d \<Rightarrow>
     (case enqueue_digest example_queue_ops (\<lambda>_. ''id'') example_time example_acl ''ann'' d 5 ([], []) of
        (s, Inr [i]) \<Rightarrow> (case process_pending_jobs example_queue_ops example_time example_acl example_deliver ''w'' 3 60 s of
            (s', Inr [out]) \<Rightarrow> snd s' = [] \<and> do_status out = ''failed'' \<and> do_error_code out = Some ''invalid_job''
          | _ \<Rightarrow> False)
      | _ \<Rightarrow> False))"
  by code_simp

end
