(* ===== verification/Json_Reader.thy ===== *)
theory Json_Reader
  imports Json_Text
begin

text \<open>
  The values \<^verbatim>\<open>json.loads\<close> reads, and that it inverts \<^verbatim>\<open>json.dumps\<close>. The reader takes \<^verbatim>\<open>parse_float\<close> as
  an argument. Its recursion is bounded by the length of the text, which every call shortens. A character
  is one of the first 256 code points, so a longer escape is refused, and so are the constants
  \<^verbatim>\<open>NaN\<close> and \<^verbatim>\<open>Infinity\<close>, which are not rational.
\<close>

section \<open>The reader\<close>

definition quote_char :: char where "quote_char = char_of (34::nat)"
definition escape_char :: char where "escape_char = char_of (92::nat)"

definition json_space :: "char \<Rightarrow> bool" where
  "json_space c \<longleftrightarrow> c \<in> {CHR '' '', CHR 0x09, CHR 0x0A, CHR 0x0D}"

definition skip_space :: "string \<Rightarrow> string" where
  "skip_space s = dropWhile json_space s"

definition hex_value :: "char \<Rightarrow> nat option" where
  "hex_value c = (let n = code_of c in
     if 48 \<le> n \<and> n \<le> 57 then Some (n - 48) else if 97 \<le> n \<and> n \<le> 102 then Some (n - 87)
     else if 65 \<le> n \<and> n \<le> 70 then Some (n - 55) else None)"

definition hex_char :: "char \<Rightarrow> char \<Rightarrow> char \<Rightarrow> char \<Rightarrow> char option" where
  "hex_char a b c d = (case (hex_value a, hex_value b, hex_value c, hex_value d) of
       (Some x, Some y, Some z, Some w) \<Rightarrow> if x = 0 \<and> y = 0 then Some (char_of (z * 16 + w)) else None
     | _ \<Rightarrow> None)"

text \<open>The character an escape stands for, and what follows it.\<close>

definition simple_escapes :: "(char \<times> char) list" where
  "simple_escapes = [(quote_char, quote_char), (escape_char, escape_char), (CHR ''/'', CHR ''/''), (CHR ''b'', CHR 0x08),
     (CHR ''f'', CHR 0x0C), (CHR ''n'', CHR 0x0A), (CHR ''r'', CHR 0x0D), (CHR ''t'', CHR 0x09)]"

definition json_escape :: "string \<Rightarrow> (char \<times> string) option" where
  "json_escape s = (case s of [] \<Rightarrow> None
     | c # cs \<Rightarrow> (if c = CHR ''u''
         then (case cs of h1 # h2 # h3 # h4 # rest \<Rightarrow> map_option (\<lambda>x. (x, rest)) (hex_char h1 h2 h3 h4) | _ \<Rightarrow> None)
         else map_option (\<lambda>x. (x, cs)) (map_of simple_escapes c)))"

lemma json_escape_shorter: "json_escape s = Some (c, rest) \<Longrightarrow> length rest < length s"
  by (auto simp: json_escape_def split: list.splits if_splits)

text \<open>The rest of a string literal after its opening quote.\<close>

function json_chars :: "string \<Rightarrow> (string \<times> string) option" where
  "json_chars s = (case s of [] \<Rightarrow> None
     | c # cs \<Rightarrow> (if c = quote_char then Some ([], cs)
         else if c = escape_char then (case json_escape cs of None \<Rightarrow> None
           | Some (x, rest) \<Rightarrow> map_option (apfst (Cons x)) (json_chars rest))
         else if code_of c < 32 then None
         else map_option (apfst (Cons c)) (json_chars cs)))"
  by pat_completeness auto
termination by (relation "measure length") (auto dest: json_escape_shorter)

declare json_chars.simps [simp del]

definition digits_nat :: "string \<Rightarrow> nat" where
  "digits_nat ds = foldl (\<lambda>a d. a * 10 + (code_of d - 48)) 0 ds"

text \<open>The digits after a decimal point or an exponent, if the text goes on with at least one.\<close>

definition fraction_part :: "string \<Rightarrow> string" where
  "fraction_part s = (case s of c # cs \<Rightarrow> if c = CHR ''.'' \<and> cs \<noteq> [] \<and> is_digit (hd cs) then c # takeWhile is_digit cs else []
     | [] \<Rightarrow> [])"

definition exponent_part :: "string \<Rightarrow> string" where
  "exponent_part s = (case s of c # cs \<Rightarrow> (if c \<in> {CHR ''e'', CHR ''E''} then
       (let sign = takeWhile (\<lambda>d. d \<in> {CHR ''+'', CHR ''-''}) (take 1 cs); ds = takeWhile is_digit (drop (length sign) cs) in
        if ds = [] then [] else c # sign @ ds) else []) | [] \<Rightarrow> [])"

definition leading_digits :: "string \<Rightarrow> string" where
  "leading_digits s = (case s of d # _ \<Rightarrow> if d = CHR ''0'' then [d] else takeWhile is_digit s | [] \<Rightarrow> [])"

definition json_number :: "(string \<Rightarrow> pyfloat) \<Rightarrow> string \<Rightarrow> (json \<times> string) option" where
  "json_number pf s = (let sign = takeWhile (\<lambda>d. d = CHR ''-'') (take 1 s); body = drop (length sign) s;
       ds = leading_digits body;
       frac = fraction_part (drop (length ds) body);
       expo = exponent_part (drop (length ds + length frac) body);
       rest = drop (length ds + length frac + length expo) body in
     if ds = [] then None
     else if frac = [] \<and> expo = [] then Some (JInt (if sign = [] then int (digits_nat ds) else - int (digits_nat ds)), rest)
     else Some (JFloat (pf (sign @ ds @ frac @ expo)), rest))"

text \<open>A constant, and what follows it.\<close>

definition json_constant :: "string \<Rightarrow> (json \<times> string) option" where
  "json_constant s = (if py_startswith s ''null'' then Some (JNull, drop 4 s)
     else if py_startswith s ''true'' then Some (JBool True, drop 4 s)
     else if py_startswith s ''false'' then Some (JBool False, drop 5 s) else None)"

text \<open>A repeated key keeps its place and takes the last value.\<close>

definition dict_from :: "json_object \<Rightarrow> json_object" where
  "dict_from kvs = fold (\<lambda>kv d. AList.update (fst kv) (snd kv) d) kvs []"

fun json_value :: "(string \<Rightarrow> pyfloat) \<Rightarrow> nat \<Rightarrow> string \<Rightarrow> (json \<times> string) option"
  and json_items :: "(string \<Rightarrow> pyfloat) \<Rightarrow> nat \<Rightarrow> string \<Rightarrow> (json list \<times> string) option"
  and json_pairs :: "(string \<Rightarrow> pyfloat) \<Rightarrow> nat \<Rightarrow> string \<Rightarrow> (json_object \<times> string) option" where
  "json_value pf 0 s = None"
| "json_value pf (Suc n) s = (case s of [] \<Rightarrow> None
     | c # cs \<Rightarrow>
       if c = quote_char then map_option (apfst JStr) (json_chars cs)
       else if c = CHR ''['' then (case skip_space cs of
           d # rest \<Rightarrow> if d = CHR '']'' then Some (JArr [], rest) else map_option (apfst JArr) (json_items pf n (d # rest))
         | [] \<Rightarrow> None)
       else if c = CHR ''{'' then (case skip_space cs of
           d # rest \<Rightarrow> if d = CHR ''}'' then Some (JObj [], rest)
             else map_option (apfst (JObj \<circ> dict_from)) (json_pairs pf n (d # rest))
         | [] \<Rightarrow> None)
       else (case json_constant s of Some r \<Rightarrow> Some r | None \<Rightarrow> json_number pf s))"
| "json_items pf 0 s = None"
| "json_items pf (Suc n) s = (case json_value pf n s of None \<Rightarrow> None
     | Some (v, t) \<Rightarrow> (case skip_space t of [] \<Rightarrow> None
       | c # cs \<Rightarrow> if c = CHR '','' then map_option (apfst (Cons v)) (json_items pf n (skip_space cs))
           else if c = CHR '']'' then Some ([v], cs) else None))"
| "json_pairs pf 0 s = None"
| "json_pairs pf (Suc n) s = (case s of [] \<Rightarrow> None
     | q # qs \<Rightarrow> if q \<noteq> quote_char then None else (case json_chars qs of None \<Rightarrow> None
       | Some (k, t) \<Rightarrow> (case skip_space t of [] \<Rightarrow> None
         | c # cs \<Rightarrow> if c \<noteq> CHR '':'' then None else (case json_value pf n (skip_space cs) of None \<Rightarrow> None
           | Some (v, u) \<Rightarrow> (case skip_space u of [] \<Rightarrow> None
             | d # ds \<Rightarrow> if d = CHR '','' then map_option (apfst (Cons (k, v))) (json_pairs pf n (skip_space ds))
                 else if d = CHR ''}'' then Some ([(k, v)], ds) else None)))))"

definition json_loads :: "(string \<Rightarrow> pyfloat) \<Rightarrow> string \<Rightarrow> json option" where
  "json_loads pf s = (case json_value pf (2 * length s + 2) (skip_space s) of None \<Rightarrow> None
     | Some (v, rest) \<Rightarrow> if skip_space rest = [] then Some v else None)"

section \<open>Reading what was written\<close>

lemma code_of_inject: "code_of c = code_of d \<longleftrightarrow> c = d"
  by (simp add: code_of_def of_char_eq_iff)

lemma code_of_char_of [simp]: "n < 256 \<Longrightarrow> code_of (char_of n) = n"
  by (simp add: code_of_def)

lemma char_of_code_of [simp]: "char_of (code_of c) = c"
  by (simp add: code_of_def)

lemma code_of_less: "code_of c < 256"
  by (simp add: code_of_def of_char_def)

lemma hex_value_digit: "d < 16 \<Longrightarrow> hex_value (hex_digit d) = Some d"
  by (auto simp: hex_value_def hex_digit_def Let_def)

lemma code_quote: "c = quote_char \<longleftrightarrow> code_of c = 34" "c = escape_char \<longleftrightarrow> code_of c = 92"
  by (simp_all add: quote_char_def escape_char_def flip: code_of_inject)

lemma json_chars_plain:
  "c \<noteq> quote_char \<Longrightarrow> c \<noteq> escape_char \<Longrightarrow> 32 \<le> code_of c \<Longrightarrow>
   json_chars (c # rest) = map_option (apfst (Cons c)) (json_chars rest)"
  by (subst json_chars.simps) simp

lemma json_chars_escape:
  "json_escape cs = Some (x, rest) \<Longrightarrow> json_chars (escape_char # cs) = map_option (apfst (Cons x)) (json_chars rest)"
  by (subst json_chars.simps) (simp add: code_quote escape_char_def)

lemma char_values:
  "char_of (34::nat) = CHR 0x22" "char_of (92::nat) = CHR 0x5C" "char_of (10::nat) = CHR 0x0A" "char_of (13::nat) = CHR 0x0D"
  "char_of (9::nat) = CHR 0x09" "char_of (8::nat) = CHR 0x08" "char_of (12::nat) = CHR 0x0C"
  by code_simp+

lemmas escape_defs = json_escape_def simple_escapes_def quote_char_def escape_char_def json_char_def Let_def char_values code_of_def

lemma json_chars_char: "json_chars (json_char c @ rest) = map_option (apfst (Cons c)) (json_chars rest)"
proof -
  let ?n = "code_of c"
  have chr: "c = char_of m" if "?n = m" for m
    using char_of_code_of [of c] unfolding that by (rule sym)
  show ?thesis
  proof (cases "?n = 34 \<or> ?n = 92")
    case quote: True
    then have "json_escape (c # rest) = Some (c, rest)"
      using chr [of 34] chr [of 92] by (elim disjE) (simp_all add: escape_defs)
    then show ?thesis using quote json_chars_escape by (auto simp: json_char_def Let_def escape_char_def)
  next
    case not_quote: False
    show ?thesis
    proof (cases "?n = 10 \<or> ?n = 13 \<or> ?n = 9 \<or> ?n = 8 \<or> ?n = 12")
      case True
      then obtain d where d: "json_char c = [escape_char, d]" "json_escape (d # rest) = Some (c, rest)"
        using chr [of 10] chr [of 13] chr [of 9] chr [of 8] chr [of 12] by (elim disjE) (simp_all add: escape_defs)
      then show ?thesis using json_chars_escape by simp
    next
      case long: False
      have n: "?n div 16 < 16" "?n mod 16 < 16" using code_of_less [of c] by auto
      have "?n div 16 * 16 + ?n mod 16 = ?n" by simp
      then have "hex_char (CHR ''0'') (CHR ''0'') (hex_digit (?n div 16)) (hex_digit (?n mod 16)) = Some c"
        using hex_value_digit [OF n(1)] hex_value_digit [OF n(2)] by (simp add: hex_char_def) (simp add: hex_value_def code_of_def)
      then have "json_escape (CHR ''u'' # CHR ''0'' # CHR ''0'' # hex_digit (?n div 16) # hex_digit (?n mod 16) # rest) = Some (c, rest)"
        by (simp add: json_escape_def)
      note escaped = json_chars_escape [OF this]
      have "c \<noteq> quote_char" "c \<noteq> escape_char" using not_quote by (simp_all add: code_quote)
      from json_chars_plain [OF this, of rest] escaped not_quote long show ?thesis
        by (auto simp: json_char_def Let_def escape_char_def)
    qed
  qed
qed

lemma json_chars_raw: "json_chars (json_char_raw c @ rest) = map_option (apfst (Cons c)) (json_chars rest)"
  using json_chars_plain [of c rest] by (auto simp: json_char_raw_def json_chars_char code_quote)

definition escaper :: "(char \<Rightarrow> string) \<Rightarrow> bool" where
  "escaper esc \<longleftrightarrow> (\<forall>c rest. json_chars (esc c @ rest) = map_option (apfst (Cons c)) (json_chars rest))"

lemma escaper_json [simp]: "escaper json_char" "escaper json_char_raw"
  by (simp_all add: escaper_def json_chars_char json_chars_raw)

lemma json_chars_dump: "escaper esc \<Longrightarrow> json_chars (concat (map esc s) @ quote_char # rest) = Some (s, rest)"
proof (induction s)
  case Nil
  show ?case by (subst json_chars.simps) simp
qed (simp add: escaper_def)

section \<open>Numbers\<close>

text \<open>A text after which a number ends.\<close>

definition stops :: "string \<Rightarrow> bool" where
  "stops rest \<longleftrightarrow> rest = [] \<or> hd rest \<in> {CHR '','', CHR '']'', CHR ''}''}"

lemma digit_code: "d < 10 \<Longrightarrow> is_digit (char_of (48 + d)) \<and> code_of (char_of (48 + d)) - 48 = (d::nat)"
  by (simp add: is_digit_def)

lemma nat_str_all_digits: "\<forall>c\<in>set (nat_str n). is_digit c"
  by (induction n rule: nat_str.induct) (subst nat_str.simps, auto simp: digit_code)

lemma nat_str_not_empty: "nat_str n \<noteq> []"
  by (subst nat_str.simps) simp

lemma digits_nat_str: "digits_nat (nat_str n) = n"
proof (induction n rule: nat_str.induct)
  case (1 n)
  show ?case
  proof (cases "n < 10")
    case True
    then show ?thesis by (subst nat_str.simps) (simp add: digits_nat_def digit_code)
  next
    case False
    have "digits_nat (nat_str (n div 10) @ [char_of (48 + n mod 10)]) = digits_nat (nat_str (n div 10)) * 10 + n mod 10"
      by (simp add: digits_nat_def digit_code)
    with 1 False show ?thesis by (subst nat_str.simps) simp
  qed
qed

lemma nat_str_leading: "n \<noteq> 0 \<Longrightarrow> hd (nat_str n) \<noteq> CHR ''0''"
proof (induction n rule: nat_str.induct)
  case (1 n)
  show ?case
  proof (cases "n < 10")
    case True
    have "code_of (char_of (48 + n)) = 48 + n" "code_of (CHR ''0'') = 48" using True by (simp_all add: code_of_def)
    then have "char_of (48 + n) \<noteq> CHR ''0''" using 1(2) by (metis add_cancel_left_right)
    then show ?thesis using True by (subst nat_str.simps) simp
  next
    case False
    then have "n div 10 \<noteq> 0" by simp
    with 1(1) False show ?thesis by (subst nat_str.simps) (simp add: nat_str_not_empty)
  qed
qed

lemma not_digits: "\<not> is_digit (CHR '','')" "\<not> is_digit (CHR '']'')" "\<not> is_digit (CHR ''}'')" "\<not> is_digit (CHR ''-'')" "is_digit (CHR ''0'')"
  by (simp_all add: is_digit_def code_of_def)

lemma stops_parts: "stops rest \<Longrightarrow> takeWhile is_digit rest = [] \<and> fraction_part rest = [] \<and> exponent_part rest = []"
  by (cases rest) (auto simp: stops_def not_digits fraction_part_def exponent_part_def)

lemma nat_str_scanned:
  assumes "stops rest"
  shows "leading_digits (nat_str n @ rest) = nat_str n"
proof (cases "n = 0")
  case True
  have "nat_str 0 = ''0''" by (subst nat_str.simps) code_simp
  with True show ?thesis by (simp add: leading_digits_def)
next
  case False
  obtain d ds where d: "nat_str n = d # ds" by (cases "nat_str n") (auto simp: nat_str_not_empty)
  have "takeWhile is_digit (nat_str n @ rest) = nat_str n"
    using nat_str_all_digits stops_parts [OF assms] by (simp add: takeWhile_append2)
  with nat_str_leading [OF False] d show ?thesis by (simp add: leading_digits_def)
qed

lemma json_number_int:
  assumes "stops rest"
  shows "json_number pf (int_str i @ rest) = Some (JInt i, rest)"
proof (cases "i < 0")
  case True
  let ?ds = "nat_str (nat (- i))"
  have "json_number pf (CHR ''-'' # ?ds @ rest) = Some (JInt i, rest)"
    using True stops_parts [OF assms] nat_str_not_empty
    by (simp add: json_number_def Let_def nat_str_scanned [OF assms] digits_nat_str)
  with True show ?thesis by (simp add: int_str_def)
next
  case False
  let ?ds = "nat_str (nat i)"
  obtain d ds where d: "?ds = d # ds" by (cases ?ds) (auto simp: nat_str_not_empty)
  have "is_digit d" using nat_str_all_digits [of "nat i"] d by simp
  then have sign: "takeWhile (\<lambda>d. d = CHR ''-'') (take 1 (?ds @ rest)) = []" using d not_digits(4) by auto
  have "json_number pf (?ds @ rest) = Some (JInt i, rest)"
    unfolding json_number_def Let_def sign
    using False stops_parts [OF assms] nat_str_not_empty
    by (simp add: nat_str_scanned [OF assms] digits_nat_str)
  with False show ?thesis by (simp add: int_str_def)
qed

section \<open>Values\<close>

text \<open>What reading back gives: objects in the order of the text. A value has no floats and no repeated keys.\<close>

fun plain_json :: "json \<Rightarrow> bool"
  and plain_items :: "json list \<Rightarrow> bool"
  and plain_pairs :: "json_object \<Rightarrow> bool" where
  "plain_json (JFloat f) = False"
| "plain_json (JArr xs) = plain_items xs"
| "plain_json (JObj kvs) = (plain_pairs kvs \<and> distinct (map fst kvs))"
| "plain_json v = True"
| "plain_items [] = True"
| "plain_items (x # xs) = (plain_json x \<and> plain_items xs)"
| "plain_pairs [] = True"
| "plain_pairs ((k, v) # kvs) = (plain_json v \<and> plain_pairs kvs)"

fun ordered_json :: "bool \<Rightarrow> json \<Rightarrow> json"
  and ordered_items :: "bool \<Rightarrow> json list \<Rightarrow> json list"
  and ordered_pairs :: "bool \<Rightarrow> json_object \<Rightarrow> json_object" where
  "ordered_json srt (JArr xs) = JArr (ordered_items srt xs)"
| "ordered_json srt (JObj kvs) = JObj (if srt then sort_key fst (ordered_pairs srt kvs) else ordered_pairs srt kvs)"
| "ordered_json srt v = v"
| "ordered_items srt [] = []"
| "ordered_items srt (x # xs) = ordered_json srt x # ordered_items srt xs"
| "ordered_pairs srt [] = []"
| "ordered_pairs srt ((k, v) # kvs) = (k, ordered_json srt v) # ordered_pairs srt kvs"

lemma ordered_strings: "ordered_json srt (JArr (map JStr ss)) = JArr (map JStr ss)" "plain_json (JArr (map JStr ss))"
  by (induction ss) auto

lemma dict_from_distinct: "distinct (map fst kvs) \<Longrightarrow> dict_from kvs = kvs"
proof -
  have "fold (\<lambda>kv d. AList.update (fst kv) (snd kv) d) kvs d = d @ kvs"
    if "distinct (map fst (d @ kvs))" for d :: "(string \<times> json) list"
    using that
  proof (induction kvs arbitrary: d)
    case (Cons kv kvs)
    have "AList.update (fst kv) (snd kv) d = d @ [kv]"
      using Cons.prems by (induction d) auto
    with Cons.IH [of "d @ [kv]"] Cons.prems show ?case by simp
  qed simp
  from this [of "[]"] show "distinct (map fst kvs) \<Longrightarrow> dict_from kvs = kvs" by (simp add: dict_from_def)
qed

text \<open>No value begins with white space, and none with the end of a list or an object.\<close>

definition value_start :: "string \<Rightarrow> bool" where
  "value_start t \<longleftrightarrow> (\<exists>c cs. t = c # cs \<and> \<not> json_space c \<and> c \<noteq> CHR '']'' \<and> c \<noteq> CHR ''}'')"

lemma value_start_append: "value_start t \<Longrightarrow> value_start (t @ rest)"
  by (auto simp: value_start_def)

lemma skip_value_start [simp]: "value_start t \<Longrightarrow> skip_space t = t"
  by (auto simp: value_start_def skip_space_def)

lemma digit_start: "is_digit c \<Longrightarrow> \<not> json_space c \<and> c \<noteq> CHR '']'' \<and> c \<noteq> CHR ''}'' \<and> c \<noteq> quote_char \<and> c \<noteq> CHR ''['' \<and> c \<noteq> CHR ''{'' \<and>
    c \<noteq> CHR ''n'' \<and> c \<noteq> CHR ''t'' \<and> c \<noteq> CHR ''f''"
  by (auto simp: is_digit_def json_space_def code_of_def quote_char_def)

lemma int_str_start:
  "\<exists>c cs. int_str i = c # cs \<and> \<not> json_space c \<and> c \<noteq> CHR '']'' \<and> c \<noteq> CHR ''}'' \<and> c \<noteq> quote_char \<and> c \<noteq> CHR ''['' \<and> c \<noteq> CHR ''{'' \<and>
    c \<noteq> CHR ''n'' \<and> c \<noteq> CHR ''t'' \<and> c \<noteq> CHR ''f''"
proof (cases "i < 0")
  case True
  then show ?thesis by (simp add: int_str_def json_space_def quote_char_def char_values)
next
  case False
  obtain d ds where d: "nat_str (nat i) = d # ds" by (cases "nat_str (nat i)") (auto simp: nat_str_not_empty)
  with nat_str_all_digits [of "nat i"] digit_start [of d] False show ?thesis by (simp add: int_str_def)
qed

lemma dumps_start: "plain_json v \<Longrightarrow> value_start (json_dumps esc srt v)"
proof (cases v)
  case (JInt i)
  then show ?thesis using int_str_start [of i] by (auto simp: value_start_def)
qed (auto simp: value_start_def json_space_def dump_string_def quote_char_def char_values)

lemma dump_maps:
  "dump_items esc srt xs = map (json_dumps esc srt) xs" "ordered_items srt xs = map (ordered_json srt) xs"
  "dump_pairs esc srt kvs = map (\<lambda>(k, v). (k, json_dumps esc srt v)) kvs"
  "ordered_pairs srt kvs = map (\<lambda>(k, v). (k, ordered_json srt v)) kvs"
proof -
  show "dump_items esc srt xs = map (json_dumps esc srt) xs" "ordered_items srt xs = map (ordered_json srt) xs"
    by (induction xs) auto
  show "dump_pairs esc srt kvs = map (\<lambda>(k, v). (k, json_dumps esc srt v)) kvs"
    "ordered_pairs srt kvs = map (\<lambda>(k, v). (k, ordered_json srt v)) kvs"
    by (induction kvs) auto
qed

lemma plain_all: "plain_items xs \<longleftrightarrow> (\<forall>x\<in>set xs. plain_json x)" "plain_pairs kvs \<longleftrightarrow> (\<forall>(k, v)\<in>set kvs. plain_json v)"
proof -
  show "plain_items xs \<longleftrightarrow> (\<forall>x\<in>set xs. plain_json x)" by (induction xs) auto
  show "plain_pairs kvs \<longleftrightarrow> (\<forall>(k, v)\<in>set kvs. plain_json v)" by (induction kvs) auto
qed

lemma insort_map_snd:
  "insort_key fst (k, g v) (map (\<lambda>(k, v). (k, g v)) kvs) = map (\<lambda>(k, v). (k, g v)) (insort_key fst (k, v) kvs)"
  by (induction kvs) auto

lemma sort_map_snd: "sort_key fst (map (\<lambda>(k, v). (k, g v)) kvs) = map (\<lambda>(k, v). (k, g v)) (sort_key fst kvs)"
  by (induction kvs) (auto simp: insort_map_snd)

text \<open>A value is read back from its text, with fuel for twice the length of the text.\<close>

definition reads_back :: "(string \<Rightarrow> pyfloat) \<Rightarrow> (char \<Rightarrow> string) \<Rightarrow> bool \<Rightarrow> json \<Rightarrow> bool" where
  "reads_back pf esc srt v \<longleftrightarrow> (\<forall>n rest. stops rest \<longrightarrow> 2 * length (json_dumps esc srt v) < n \<longrightarrow>
     json_value pf n (json_dumps esc srt v @ rest) = Some (ordered_json srt v, rest))"

lemma skip_comma: "skip_space (CHR '','' # t) = CHR '','' # t" "skip_space (CHR '']'' # t) = CHR '']'' # t"
  "skip_space (CHR ''}'' # t) = CHR ''}'' # t" "skip_space (CHR '':'' # t) = CHR '':'' # t"
  by (simp_all add: skip_space_def json_space_def)

lemma json_items_back:
  assumes "\<forall>x\<in>set xs. reads_back pf esc srt x \<and> plain_json x" "xs \<noteq> []"
    and "2 * length (join_str '','' (map (json_dumps esc srt) xs)) + 1 < n"
  shows "json_items pf n (join_str '','' (map (json_dumps esc srt) xs) @ CHR '']'' # rest) = Some (map (ordered_json srt) xs, rest)"
  using assms
proof (induction xs arbitrary: n)
  case (Cons x xs)
  obtain m where n: "n = Suc m" using Cons.prems(3) by (cases n) auto
  have x: "reads_back pf esc srt x" using Cons.prems(1) by simp
  show ?case
  proof (cases xs)
    case Nil
    have "json_value pf m (json_dumps esc srt x @ CHR '']'' # rest) = Some (ordered_json srt x, CHR '']'' # rest)"
      using x Cons.prems(3) Nil by (auto simp: reads_back_def stops_def n)
    then show ?thesis by (simp add: Nil n skip_comma)
  next
    case (Cons y ys)
    let ?more = "join_str '','' (map (json_dumps esc srt) xs) @ CHR '']'' # rest"
    have len: "2 * length (json_dumps esc srt x) < m" "2 * length (join_str '','' (map (json_dumps esc srt) xs)) + 1 < m"
      using Cons.prems(3) Cons by (simp_all add: n)
    have "json_value pf m (json_dumps esc srt x @ CHR '','' # ?more) = Some (ordered_json srt x, CHR '','' # ?more)"
      using x len(1) by (auto simp: reads_back_def stops_def)
    moreover have "value_start ?more"
    proof -
      have "value_start (json_dumps esc srt y)" using Cons.prems(1) Cons by (intro dumps_start) simp
      then show ?thesis unfolding Cons by (cases ys) (simp_all add: value_start_append)
    qed
    moreover have "json_items pf m ?more = Some (map (ordered_json srt) xs, rest)"
      using Cons.prems(1) Cons len(2) by (intro Cons.IH) auto
    ultimately show ?thesis by (simp add: n Cons skip_comma)
  qed
qed simp

definition pair_text :: "(char \<Rightarrow> string) \<Rightarrow> bool \<Rightarrow> string \<times> json \<Rightarrow> string" where
  "pair_text esc srt kv = dump_string esc (fst kv) @ '':'' @ json_dumps esc srt (snd kv)"

lemma pair_text_chars:
  "pair_text esc srt (k, v) @ rest = quote_char # concat (map esc k) @ quote_char # CHR '':'' # json_dumps esc srt v @ rest"
  by (simp add: pair_text_def dump_string_def quote_char_def)

lemma pair_text_start: "value_start (pair_text esc srt kv)"
  by (simp add: value_start_def pair_text_def dump_string_def json_space_def char_values)

lemma json_pairs_back:
  assumes "\<forall>kv\<in>set kvs. reads_back pf esc srt (snd kv) \<and> plain_json (snd kv)" "kvs \<noteq> []" "escaper esc"
    and "2 * length (join_str '','' (map (pair_text esc srt) kvs)) + 1 < n"
  shows "json_pairs pf n (join_str '','' (map (pair_text esc srt) kvs) @ CHR ''}'' # rest) =
    Some (map (\<lambda>(k, v). (k, ordered_json srt v)) kvs, rest)"
  using assms
proof (induction kvs arbitrary: n)
  case (Cons kv kvs)
  obtain k v where kv: "kv = (k, v)" by (cases kv)
  obtain m where n: "n = Suc m" using Cons.prems(4) by (cases n) auto
  have v: "reads_back pf esc srt v" "value_start (json_dumps esc srt v @ t)" for t
    using Cons.prems(1) dumps_start [THEN value_start_append] by (auto simp: kv)
  note chars = json_chars_dump [OF Cons.prems(3), of k]
  have len_v: "length (json_dumps esc srt v) < length (pair_text esc srt kv)" by (simp add: pair_text_def kv)
  show ?case
  proof (cases kvs)
    case Nil
    have "json_value pf m (json_dumps esc srt v @ CHR ''}'' # rest) = Some (ordered_json srt v, CHR ''}'' # rest)"
      using v(1) Cons.prems(4) Nil len_v by (auto simp: reads_back_def stops_def n)
    then show ?thesis by (simp add: Nil n kv pair_text_chars chars skip_comma v(2))
  next
    case (Cons kv' kvs')
    let ?more = "join_str '','' (map (pair_text esc srt) kvs) @ CHR ''}'' # rest"
    have len: "2 * length (json_dumps esc srt v) < m" "2 * length (join_str '','' (map (pair_text esc srt) kvs)) + 1 < m"
      using Cons.prems(4) Cons len_v by (simp_all add: n)
    have "json_value pf m (json_dumps esc srt v @ CHR '','' # ?more) = Some (ordered_json srt v, CHR '','' # ?more)"
      using v(1) len(1) by (auto simp: reads_back_def stops_def)
    moreover have "value_start ?more"
      unfolding Cons by (cases kvs') (simp_all add: value_start_append pair_text_start)
    moreover have "json_pairs pf m ?more = Some (map (\<lambda>(k, v). (k, ordered_json srt v)) kvs, rest)"
      using Cons.prems(1,3) Cons len(2) by (intro Cons.IH) auto
    ultimately show ?thesis by (simp add: n Cons kv pair_text_chars chars skip_comma v(2))
  qed
qed simp

lemma reads_backI:
  assumes "\<And>m rest. stops rest \<Longrightarrow> json_value pf (Suc m) (json_dumps esc srt v @ rest) = Some (ordered_json srt v, rest)"
  shows "reads_back pf esc srt v"
  unfolding reads_back_def using assms by (metis gr0_conv_Suc less_zeroE not_gr_zero)

lemma value_reads_back:
  assumes "escaper esc" "plain_json v"
  shows "reads_back pf esc srt v"
  using assms(2)
proof (induction v)
  case (JInt i)
  obtain c cs where c: "int_str i = c # cs" "c \<noteq> quote_char" "c \<noteq> CHR ''[''" "c \<noteq> CHR ''{''" "c \<noteq> CHR ''n''" "c \<noteq> CHR ''t''" "c \<noteq> CHR ''f''"
    using int_str_start [of i] by blast
  show ?case
    unfolding reads_back_def
  proof (intro allI impI)
    fix n rest assume "stops rest" "2 * length (json_dumps esc srt (JInt i)) < n"
    moreover from this(2) obtain m where "n = Suc m" by (cases n) auto
    ultimately show "json_value pf n (json_dumps esc srt (JInt i) @ rest) = Some (ordered_json srt (JInt i), rest)"
      using json_number_int [of rest pf i] c by (simp add: json_constant_def)
  qed
next
  case (JStr s)
  show ?case
    unfolding reads_back_def
  proof (intro allI impI)
    fix n rest assume "2 * length (json_dumps esc srt (JStr s)) < n"
    then obtain m where "n = Suc m" by (cases n) auto
    then show "json_value pf n (json_dumps esc srt (JStr s) @ rest) = Some (ordered_json srt (JStr s), rest)"
      using json_chars_dump [OF assms(1), of s rest] by (simp add: dump_string_def quote_char_def)
  qed
next
  case (JArr xs)
  then have ok: "\<forall>x\<in>set xs. reads_back pf esc srt x \<and> plain_json x" by (auto simp: plain_all)
  show ?case
    unfolding reads_back_def
  proof (intro allI impI)
    fix n rest assume len: "2 * length (json_dumps esc srt (JArr xs)) < n"
    then obtain m where n: "n = Suc m" by (cases n) auto
    show "json_value pf n (json_dumps esc srt (JArr xs) @ rest) = Some (ordered_json srt (JArr xs), rest)"
    proof (cases xs)
      case Nil
      then show ?thesis by (simp add: n skip_comma quote_char_def char_values)
    next
      case (Cons x ys)
      let ?body = "join_str '','' (map (json_dumps esc srt) xs)"
      have "value_start (json_dumps esc srt x)" using ok Cons by (intro dumps_start) simp
      then have "value_start (?body @ CHR '']'' # rest)" unfolding Cons by (cases ys) (simp_all add: value_start_append)
      moreover from this obtain d ds where "?body @ CHR '']'' # rest = d # ds" "d \<noteq> CHR '']''" by (auto simp: value_start_def)
      moreover have "json_items pf m (?body @ CHR '']'' # rest) = Some (map (ordered_json srt) xs, rest)"
        using ok Cons len by (intro json_items_back) (auto simp: dump_maps n)
      ultimately show ?thesis by (simp add: n dump_maps quote_char_def char_values)
    qed
  qed
next
  case (JObj kvs)
  let ?ps = "if srt then sort_key fst kvs else kvs"
  have ok: "\<forall>kv\<in>set ?ps. reads_back pf esc srt (snd kv) \<and> plain_json (snd kv)"
  proof
    fix kv assume "kv \<in> set ?ps"
    then have kv: "kv \<in> set kvs" by (simp split: if_splits)
    moreover have "snd kv \<in> Basic_BNFs.snds kv" by (cases kv) simp
    moreover have "plain_json (snd kv)" using JObj.prems kv by (cases kv) (auto simp: plain_all)
    ultimately show "reads_back pf esc srt (snd kv) \<and> plain_json (snd kv)" using JObj.IH by blast
  qed
  have d: "json_dumps esc srt (JObj kvs) = CHR ''{'' # join_str '','' (map (pair_text esc srt) ?ps) @ ''}''"
  proof -
    have "map (\<lambda>(k, v). dump_string esc k @ '':'' @ v) (map (\<lambda>(k, v). (k, json_dumps esc srt v)) ps) =
        map (pair_text esc srt) ps" for ps by (simp add: pair_text_def split_def)
    then show ?thesis by (simp only: json_dumps.simps dump_maps sort_map_snd split: if_split) simp
  qed
  have o: "ordered_json srt (JObj kvs) = JObj (map (\<lambda>(k, v). (k, ordered_json srt v)) ?ps)"
    by (simp add: dump_maps sort_map_snd)
  have dist: "distinct (map fst (map (\<lambda>(k, v). (k, ordered_json srt v)) ?ps))"
  proof -
    have "mset (map fst ?ps) = mset (map fst kvs)" by simp
    from mset_eq_imp_distinct_iff [OF this] JObj.prems have "distinct (map fst ?ps)" by (simp only: plain_json.simps)
    then show ?thesis by (simp add: comp_def split_def)
  qed
  show ?case
    unfolding reads_back_def
  proof (intro allI impI)
    fix n rest assume len: "2 * length (json_dumps esc srt (JObj kvs)) < n"
    then obtain m where n: "n = Suc m" by (cases n) auto
    show "json_value pf n (json_dumps esc srt (JObj kvs) @ rest) = Some (ordered_json srt (JObj kvs), rest)"
    proof (cases ?ps)
      case Nil
      then show ?thesis unfolding d o by (simp add: n skip_comma quote_char_def char_values)
    next
      case (Cons kv ys)
      let ?body = "join_str '','' (map (pair_text esc srt) ?ps)"
      have "value_start (?body @ CHR ''}'' # rest)"
        unfolding Cons by (cases ys) (simp_all add: value_start_append pair_text_start)
      moreover from this obtain d ds where "?body @ CHR ''}'' # rest = d # ds" "d \<noteq> CHR ''}''" by (auto simp: value_start_def)
      moreover have "json_pairs pf m (?body @ CHR ''}'' # rest) = Some (map (\<lambda>(k, v). (k, ordered_json srt v)) ?ps, rest)"
        using ok Cons len assms(1) unfolding d by (intro json_pairs_back) (auto simp: n)
      ultimately show ?thesis unfolding d o using dict_from_distinct [OF dist] by (simp add: n quote_char_def char_values)
    qed
  qed
qed (rule reads_backI, auto simp: json_constant_def quote_char_def char_values)+

theorem json_loads_dumps:
  assumes "escaper esc" "plain_json v"
  shows "json_loads pf (json_dumps esc srt v) = Some (ordered_json srt v)"
proof -
  let ?t = "json_dumps esc srt v"
  have "json_value pf (2 * length ?t + 2) (?t @ []) = Some (ordered_json srt v, [])"
    using value_reads_back [OF assms, of pf srt] unfolding reads_back_def by (simp add: stops_def del: json_value.simps)
  then show ?thesis
    unfolding json_loads_def skip_value_start [OF dumps_start [OF assms(2), of esc srt]] by (simp add: skip_space_def del: json_value.simps)
qed

lemma json_loads_strings: "json_loads pf (json_strings ss) = Some (JArr (map JStr ss))"
proof -
  have "json_strings ss = json_dumps json_char False (JArr (map JStr ss))"
    by (simp add: json_strings_def dump_maps comp_def json_string_def [abs_def] dump_string_def)
  with json_loads_dumps [OF escaper_json(1) ordered_strings(2)] show ?thesis by (simp only: ordered_strings)
qed

end
