(* ===== verification/Notification_Outbox.thy ===== *)
theory Notification_Outbox
  imports Notification_Delivery Json_Reader
begin

text \<open>
  The delivery history a principal may read (\<^verbatim>\<open>app_contracts/notification_outbox.py\<close>): one page of
  the job queue, filtered by the access callbacks, and the opaque cursor that continues it. The cursor is
  JSON text in unpadded URL-safe Base64; Base64 is modelled in full, the JSON reader is a parameter, and
  the properties name what they need of it. The ordered job history of Kogwistar is the parameter
  \<open>read_page\<close>.
\<close>

section \<open>Base64\<close>

fun b64_groups :: "int list \<Rightarrow> int list" where
  "b64_groups [] = []"
| "b64_groups [a] = [a div 4, (a mod 4) * 16]"
| "b64_groups [a, b] = [a div 4, (a mod 4) * 16 + b div 16, (b mod 16) * 4]"
| "b64_groups (a # b # c # rest) =
     [a div 4, (a mod 4) * 16 + b div 16, (b mod 16) * 4 + c div 64, c mod 64] @ b64_groups rest"

fun b64_bytes :: "int list \<Rightarrow> int list" where
  "b64_bytes (w # x # y # z # rest) =
     [w * 4 + x div 16, (x mod 16) * 16 + y div 4, (y mod 4) * 64 + z] @ b64_bytes rest"
| "b64_bytes [w, x, y] = [w * 4 + x div 16, (x mod 16) * 16 + y div 4]"
| "b64_bytes [w, x] = [w * 4 + x div 16]"
| "b64_bytes _ = []"

text \<open>The URL-safe alphabet is \<^verbatim>\<open>A-Z\<close>, \<^verbatim>\<open>a-z\<close>, \<^verbatim>\<open>0-9\<close>, \<^verbatim>\<open>-\<close> and
  \<^verbatim>\<open>_\<close>. Decoding maps the last two to the standard alphabet first, so both spellings are
  accepted.\<close>

definition b64_char :: "int \<Rightarrow> char" where
  "b64_char n = char_of (if n < 26 then n + 65 else if n < 52 then n + 71 else if n < 62 then n - 4
     else if n = 62 then 45 else 95)"

definition b64_value :: "char \<Rightarrow> int option" where
  "b64_value c = (let n = char_int c in
     if 65 \<le> n \<and> n \<le> 90 then Some (n - 65) else if 97 \<le> n \<and> n \<le> 122 then Some (n - 71)
     else if 48 \<le> n \<and> n \<le> 57 then Some (n + 4) else if n = 45 \<or> n = 43 then Some 62
     else if n = 95 \<or> n = 47 then Some 63 else None)"

definition urlsafe_b64encode_unpadded :: "string \<Rightarrow> string" where
  "urlsafe_b64encode_unpadded s = map b64_char (b64_groups (map char_int s))"

definition b64decode_strict :: "string \<Rightarrow> string option" where
  "b64decode_strict token =
     (let text = token @ replicate (nat ((- int (length token)) mod 4)) (CHR ''='');
          data = takeWhile (\<lambda>c. c \<noteq> CHR ''='') text; pad = dropWhile (\<lambda>c. c \<noteq> CHR ''='') text in
      if (\<forall>c\<in>set pad. c = CHR ''='') \<and> length pad \<le> 2 \<and> (\<forall>c\<in>set data. b64_value c \<noteq> None)
      then Some (map char_of (b64_bytes (map (\<lambda>c. the (b64_value c)) data))) else None)"

section \<open>Entries\<close>

record outbox_digest_item =
  oi_summary :: string
  oi_severity :: severity
  oi_action_required :: bool
  oi_urgent :: bool
  oi_logical_event_count :: int
  oi_duplicate_copy_count :: int
  oi_evidence_ref_count :: nat

record outbox_entry =
  oe_delivery_id :: string
  oe_delivery_class :: string
  oe_status :: string
  oe_created_at_ms :: "int option"
  oe_updated_at_ms :: "int option"
  oe_retry_count :: int
  oe_max_retries :: int
  oe_claim_attempts :: int
  oe_failure_reported :: bool
  oe_summaries :: "string list"
  oe_digest_items :: "outbox_digest_item list"
  oe_severity :: severity
  oe_action_required :: bool
  oe_logical_event_count :: int
  oe_duplicate_copy_count :: int
  oe_evidence_ref_count :: nat

text \<open>\<^verbatim>\<open>str.split\<close> without an argument, then the bounded text: white space runs become single blanks
  and a longer text is cut to end in three dots.\<close>

function py_split :: "string \<Rightarrow> string list" where
  "py_split s = (case dropWhile py_isspace s of [] \<Rightarrow> []
     | t \<Rightarrow> takeWhile (\<lambda>c. \<not> py_isspace c) t # py_split (dropWhile (\<lambda>c. \<not> py_isspace c) t))"
  by auto
termination
proof (relation "measure length", simp)
  fix s c t
  assume t: "dropWhile py_isspace s = c # t"
  then have "\<not> py_isspace c" by (rule dropWhile_head)
  then have "length (dropWhile (\<lambda>c. \<not> py_isspace c) (c # t)) \<le> length t" by (simp add: length_dropWhile_le)
  also have "length t < length s" using t length_dropWhile_le [of py_isspace s] by simp
  finally show "(dropWhile (\<lambda>c. \<not> py_isspace c) (c # t), s) \<in> measure length" by simp
qed

declare py_split.simps [simp del]

definition bounded_text :: "string \<Rightarrow> nat \<Rightarrow> string" where
  "bounded_text v n = (let text = join_str '' '' (py_split v) in
     if length text \<le> n then text else py_rstrip (take (n - 3) text) @ ''...'')"

definition max_summary_chars :: nat where
  "max_summary_chars = 360"

definition outbox_item :: "digest_item \<Rightarrow> outbox_digest_item" where
  "outbox_item i = \<lparr>oi_summary = bounded_text (di_summary i) max_summary_chars, oi_severity = di_severity i,
     oi_action_required = di_action_required i, oi_urgent = di_urgent i,
     oi_logical_event_count = di_logical_event_count i, oi_duplicate_copy_count = di_duplicate_copy_count i,
     oi_evidence_ref_count = length (di_evidence_refs i)\<rparr>"

definition make_entry :: "job_queue_item \<Rightarrow> string \<Rightarrow> notification_digest \<Rightarrow> outbox_entry" where
  "make_entry j cls d = (let items = digest_items d in
     \<lparr>oe_delivery_id = jq_job_id j, oe_delivery_class = cls,
      oe_status = (if jq_status j \<in> {''PENDING'', ''DOING'', ''DONE'', ''FAILED''} then jq_status j else ''UNKNOWN''),
      oe_created_at_ms = jq_created_at_ms j, oe_updated_at_ms = jq_updated_at_ms j,
      oe_retry_count = jq_retry_count j, oe_max_retries = jq_max_retries j, oe_claim_attempts = jq_claim_attempts j,
      oe_failure_reported = (opt_str (jq_last_error j) \<noteq> []),
      oe_summaries = map (\<lambda>i. bounded_text (di_summary i) max_summary_chars) items,
      oe_digest_items = map outbox_item items,
      oe_severity = max_by severity_rank (di_severity (hd items)) (map di_severity (tl items)),
      oe_action_required = (\<exists>i\<in>set items. di_action_required i),
      oe_logical_event_count = sum_list (map di_logical_event_count items),
      oe_duplicate_copy_count = sum_list (map di_duplicate_copy_count items),
      oe_evidence_ref_count = sum_list (map (\<lambda>i. length (di_evidence_refs i)) items)\<rparr>)"

text \<open>The source checks in order: the first that is denied hides the entry, an exception propagates.\<close>

fun sources_allowed :: "(string \<Rightarrow> bool result) \<Rightarrow> string list \<Rightarrow> bool result" where
  "sources_allowed auth [] = Inr True"
| "sources_allowed auth (x # xs) = res_bind (auth x) (\<lambda>ok. if ok then sources_allowed auth xs else Inr False)"

record outbox_acl =
  oa_recipient :: "string \<Rightarrow> string \<Rightarrow> bool result"
  oa_source :: "string \<Rightarrow> string \<Rightarrow> string \<Rightarrow> bool result"

definition outbox_entry_of ::
    "iso_time \<Rightarrow> outbox_acl \<Rightarrow> string \<Rightarrow> string \<Rightarrow> string \<Rightarrow> string \<Rightarrow> job_queue_item \<Rightarrow> outbox_entry option result" where
  "outbox_entry_of tm acl ws who ns cls j =
     (if jq_namespace j \<noteq> ns \<or> jq_entity_kind j \<noteq> ''notification_delivery'' \<or> jq_entity_id j \<noteq> jq_job_id j \<or>
         jq_job_kind j \<noteq> ''notification_delivery'' then Inr None
      else case parse_job tm ws j of
        Inl e \<Rightarrow> (case e of KeyError _ \<Rightarrow> Inr None | TypeError _ \<Rightarrow> Inr None | ValueError _ \<Rightarrow> Inr None | _ \<Rightarrow> Inl e)
      | Inr (recipient, d) \<Rightarrow>
          if recipient \<noteq> who then Inr None
          else res_bind (sources_allowed (oa_source acl ws who) (sorted_list_of_set (source_ids d))) (\<lambda>ok.
            Inr (if ok then Some (make_entry j cls d) else None)))"

section \<open>The cursor\<close>

text \<open>A cursor as the queue returns it; its attributes are checked before they are used.\<close>

record raw_cursor =
  rc_created_at_us :: json
  rc_job_id :: json
  rc_filter_fingerprint :: json

record queue_cursor =
  qc_created_at_us :: int
  qc_job_id :: string
  qc_filter_fingerprint :: string

definition status_json :: "string option \<Rightarrow> json" where
  "status_json s = (case s of None \<Rightarrow> JNull | Some t \<Rightarrow> JStr t)"

definition cursor_binding :: "string \<Rightarrow> string \<Rightarrow> string \<Rightarrow> string option \<Rightarrow> json_object" where
  "cursor_binding ws who cls status =
     [(''v'', JInt 1), (''workspace_id'', JStr ws), (''principal_id'', JStr who),
      (''delivery_class'', JStr cls), (''status'', status_json status)]"

definition cursor_payload :: "raw_cursor \<Rightarrow> string \<Rightarrow> string \<Rightarrow> string \<Rightarrow> string option \<Rightarrow> json_object" where
  "cursor_payload c ws who cls status = cursor_binding ws who cls status @
     [(''created_at_us'', rc_created_at_us c), (''job_id'', rc_job_id c), (''filter_fingerprint'', rc_filter_fingerprint c)]"

definition is_int :: "json \<Rightarrow> bool" where
  "is_int v = (case v of JInt _ \<Rightarrow> True | _ \<Rightarrow> False)"

definition encode_cursor :: "raw_cursor \<Rightarrow> string \<Rightarrow> string \<Rightarrow> string \<Rightarrow> string option \<Rightarrow> string result" where
  "encode_cursor c ws who cls status =
     check_then (raise_if (\<not> is_int (rc_created_at_us c) \<or> \<not> is_str (rc_job_id c) \<or> \<not> is_str (rc_filter_fingerprint c))
       (NotificationOutboxUnavailableError ''Kogwistar returned an invalid ordered-job cursor''))
     (Inr (urlsafe_b64encode_unpadded (json_dumps json_char True (JObj (cursor_payload c ws who cls status)))))"

definition max_cursor_chars :: int where
  "max_cursor_chars = 4096"

text \<open>Equality of a decoded value with the expected one is Python's: \<^verbatim>\<open>1 == 1.0 == True\<close>.\<close>

definition py_eq :: "json \<Rightarrow> json \<Rightarrow> bool" where
  "py_eq a b = (a = b \<or> (b = JInt 1 \<and> (a = JBool True \<or> (case a of JFloat f \<Rightarrow> fl_val f = 1 | _ \<Rightarrow> False))))"

definition decode_cursor ::
    "(string \<Rightarrow> json option) \<Rightarrow> string option \<Rightarrow> string \<Rightarrow> string \<Rightarrow> string \<Rightarrow> string option \<Rightarrow> queue_cursor option result" where
  "decode_cursor loads token ws who cls status = (case token of None \<Rightarrow> Inr None
     | Some t \<Rightarrow>
       check_then (raise_if (t = [] \<or> int (length t) > max_cursor_chars) (ValueError ''notification outbox cursor is invalid''))
       (case Option.bind (b64decode_strict t) loads of
          None \<Rightarrow> Inl (ValueError ''notification outbox cursor is invalid'')
        | Some (JObj p) \<Rightarrow>
            if \<exists>(k, v)\<in>set (cursor_binding ws who cls status). \<not> py_eq (jget p k) v
            then Inl (ValueError ''notification outbox cursor does not match request'')
            else (case (jget p ''created_at_us'', jget p ''job_id'', jget p ''filter_fingerprint'') of
                (JInt n, JStr i, JStr f) \<Rightarrow>
                  check_then (raise_if (i = [] \<or> f = []) (ValueError ''notification outbox cursor is invalid''))
                  (Inr (Some \<lparr>qc_created_at_us = n, qc_job_id = i, qc_filter_fingerprint = f\<rparr>))
              | _ \<Rightarrow> Inl (ValueError ''notification outbox cursor is invalid''))
        | Some _ \<Rightarrow> Inl (ValueError ''notification outbox cursor does not match request'')))"

section \<open>A page\<close>

record outbox_page =
  op_items :: "outbox_entry list"
  op_next_cursor :: "string option"

type_synonym page_reader =
  "string \<Rightarrow> string option \<Rightarrow> string \<Rightarrow> string \<Rightarrow> int \<Rightarrow> queue_cursor option \<Rightarrow> (job_queue_item list \<times> raw_cursor option) result"

definition list_page ::
    "iso_time \<Rightarrow> (string \<Rightarrow> json option) \<Rightarrow> outbox_acl \<Rightarrow> page_reader option \<Rightarrow> string \<Rightarrow> string \<Rightarrow> string \<Rightarrow> string option \<Rightarrow> int \<Rightarrow>
     string option \<Rightarrow> outbox_page result" where
  "list_page tm loads acl reader workspace_id principal_id cls status limit cursor =
     res_bind (required_text workspace_id ''workspace_id'') (\<lambda>ws.
     res_bind (required_text principal_id ''principal_id'') (\<lambda>who.
     check_then (checks
       [raise_if (cls \<notin> {''routine'', ''urgent''}) (ValueError ''delivery_class must be routine or urgent''),
        raise_if (status \<notin> {None, Some ''PENDING'', Some ''DOING'', Some ''DONE'', Some ''FAILED''})
          (ValueError ''unsupported notification status''),
        raise_if (limit < 1 \<or> 100 < limit) (ValueError ''limit must be between 1 and 100'')])
     (res_bind (oa_recipient acl ws who) (\<lambda>ok.
      check_then (raise_if (\<not> ok) (PermissionError ''notification recipient is not authorized''))
      (let ns = (if cls = ''urgent'' then urgent_notification_jobs ws else notification_jobs ws) in
       (case reader of
          None \<Rightarrow> Inl (NotificationOutboxUnavailableError
            ''notification outbox requires ordered job history support from Kogwistar core'')
        | Some read_page \<Rightarrow>
          res_bind (decode_cursor loads cursor ws who cls status) (\<lambda>qc.
          res_bind (read_page ns status ''notification_delivery'' ''notification_delivery'' limit qc) (\<lambda>(jobs, next_cursor).
          res_bind (map_res (outbox_entry_of tm acl ws who ns cls) jobs) (\<lambda>entries.
          res_bind (case next_cursor of None \<Rightarrow> Inr None
              | Some c \<Rightarrow> res_bind (encode_cursor c ws who cls status) (\<lambda>t. Inr (Some t))) (\<lambda>tok.
            Inr \<lparr>op_items = List.map_filter id entries, op_next_cursor = tok\<rparr>))))))))))"

section \<open>The cursor is read back, for the same request only\<close>

lemma div_range:
  assumes "(0::int) \<le> b" "b < m * k" "0 < k"
  shows "0 \<le> b div k" "b div k < m"
proof -
  show "0 \<le> b div k" using assms by (simp add: pos_imp_zdiv_nonneg_iff)
  have "b div k * k \<le> b" using assms(3) by (simp add: floor_multiple)
  with assms(2) have "b div k * k < m * k" by linarith
  with assms(3) show "b div k < m" by (simp add: mult_less_cancel_right)
qed

lemma byte_parts:
  assumes "(0::int) \<le> b" "b < 256"
  shows "0 \<le> b div 4" "b div 4 < 64" "0 \<le> b div 16" "b div 16 < 16" "0 \<le> b div 64" "b div 64 < 4"
  using div_range [of b 64 4] div_range [of b 16 16] div_range [of b 4 64] assms by simp_all

lemma pack_range:
  "(0::int) \<le> x \<Longrightarrow> x < 4 \<Longrightarrow> 0 \<le> y \<Longrightarrow> y < 16 \<Longrightarrow> 0 \<le> x * 16 + y \<and> x * 16 + y < 64"
  "(0::int) \<le> x \<Longrightarrow> x < 16 \<Longrightarrow> 0 \<le> y \<Longrightarrow> y < 4 \<Longrightarrow> 0 \<le> x * 4 + y \<and> x * 4 + y < 64"
  by linarith+

lemma byte_small:
  assumes "(0::int) \<le> b" "b < 256"
  shows "b div 16 div 16 = 0" "b div 16 mod 16 = b div 16" "b div 64 div 4 = 0" "b div 64 mod 4 = b div 64"
  using byte_parts [OF assms]
  by (simp_all only: div_pos_pos_trivial mod_pos_pos_trivial)

lemma group_range:
  assumes "(0::int) \<le> b" "b < 256" "0 \<le> c" "c < 256"
  shows "0 \<le> a mod 4 * 16 + b div 16 \<and> a mod 4 * 16 + b div 16 < 64"
    "0 \<le> b mod 16 * 4 + c div 64 \<and> b mod 16 * 4 + c div 64 < 64"
  by (rule pack_range; simp add: byte_parts assms)+

lemma b64_groups_range: "\<forall>b\<in>set bs. 0 \<le> b \<and> b < 256 \<Longrightarrow> \<forall>n\<in>set (b64_groups bs). 0 \<le> n \<and> n < 64"
proof (induction bs rule: b64_groups.induct)
  case (2 a)
  then have "0 \<le> a" "a < 256" by simp_all
  then show ?case using group_range(1) [of 0 0 a] by (simp add: byte_parts(1,2))
next
  case (3 a b)
  then have "0 \<le> a" "a < 256" "0 \<le> b" "b < 256" by simp_all
  then show ?case using group_range(1) [of b 0 a] group_range(2) [of b 0] by (simp add: byte_parts(1,2))
next
  case (4 a b c rest)
  then have "0 \<le> a" "a < 256" "0 \<le> b" "b < 256" "0 \<le> c" "c < 256" "\<forall>n\<in>set (b64_groups rest). 0 \<le> n \<and> n < 64" by simp_all
  then show ?case using group_range(1) [of b c a] group_range(2) [of b c] by (simp add: byte_parts(1,2))
qed simp

lemma b64_groups_length: "length (b64_groups bs) mod 4 \<noteq> 1"
proof (induction bs rule: b64_groups.induct)
  case (4 a b c rest)
  have "length (b64_groups (a # b # c # rest)) = 4 + length (b64_groups rest)" by simp
  then show ?case using 4 by (metis mod_add_self1)
qed simp_all

lemma b64_bytes_groups: "\<forall>b\<in>set bs. 0 \<le> b \<and> b < 256 \<Longrightarrow> b64_bytes (b64_groups bs) = bs"
proof (induction bs rule: b64_groups.induct)
  case (3 a b)
  then have "0 \<le> b" "b < 256" by simp_all
  then show ?case by (simp add: byte_small)
next
  case (4 a b c rest)
  then have "0 \<le> b" "b < 256" "0 \<le> c" "c < 256" "b64_bytes (b64_groups rest) = rest" by simp_all
  then show ?case by (simp add: byte_small)
qed simp_all

lemma b64_value_char:
  assumes "0 \<le> n" "n < 64"
  shows "b64_value (b64_char n) = Some n" "b64_char n \<noteq> CHR ''=''"
proof -
  let ?m = "if n < 26 then n + 65 else if n < 52 then n + 71 else if n < 62 then n - 4 else if n = 62 then 45 else 95"
  have "?m mod 256 = ?m" using assms by (intro mod_pos_pos_trivial) auto
  then have m: "char_int (b64_char n) = ?m" by (simp only: b64_char_def char_int_def of_char_of)
  then show "b64_value (b64_char n) = Some n" using assms by (simp add: b64_value_def Let_def)
  have "char_int (b64_char n) \<noteq> 61" using assms m by simp
  moreover have "char_int (CHR ''='') = 61" by (simp add: char_int_def)
  ultimately show "b64_char n \<noteq> CHR ''=''" by metis
qed

lemma char_int_range: "0 \<le> char_int c" "char_int c < 256"
proof -
  have "code_of c < 256" by (simp add: code_of_def nat_of_char_less_256)
  then show "0 \<le> char_int c" "char_int c < 256" by (simp_all flip: int_code_of)
qed

lemma pad_length:
  assumes "n mod 4 \<noteq> (1::nat)"
  shows "nat ((- int n) mod 4) \<le> 2"
proof -
  have "int (n mod 4) = int n mod 4" by (simp add: zmod_int)
  with assms have "int n mod 4 \<noteq> 1" by linarith
  then have "(- int n) mod 4 \<noteq> 3" by presburger
  then show ?thesis using pos_mod_bound [of 4 "- int n"] by linarith
qed

lemma b64_round_trip: "b64decode_strict (urlsafe_b64encode_unpadded s) = Some s"
proof -
  let ?g = "b64_groups (map char_int s)" and ?e = "urlsafe_b64encode_unpadded s"
  let ?k = "nat ((- int (length ?e)) mod 4)"
  have r: "\<forall>n\<in>set ?g. 0 \<le> n \<and> n < 64" by (rule b64_groups_range) (simp add: char_int_range)
  have c: "\<forall>c\<in>set ?e. c \<noteq> CHR ''=''" "\<forall>c\<in>set ?e. b64_value c \<noteq> None"
    using r by (auto simp: urlsafe_b64encode_unpadded_def b64_value_char)
  have v: "map (\<lambda>c. the (b64_value c)) ?e = ?g"
    using r by (simp add: urlsafe_b64encode_unpadded_def b64_value_char map_idI)
  have "length ?e mod 4 \<noteq> 1" using b64_groups_length [of "map char_int s"] by (simp add: urlsafe_b64encode_unpadded_def)
  then have k: "?k \<le> 2" by (rule pad_length)
  have w: "takeWhile (\<lambda>c. c \<noteq> CHR ''='') (?e @ replicate ?k (CHR ''='')) = ?e"
    "dropWhile (\<lambda>c. c \<noteq> CHR ''='') (?e @ replicate ?k (CHR ''='')) = replicate ?k (CHR ''='')"
    using c(1) by (simp_all add: takeWhile_append dropWhile_append)
  have b: "map char_of (b64_bytes ?g) = s"
  proof -
    have "b64_bytes ?g = map char_int s" by (rule b64_bytes_groups) (simp add: char_int_range)
    moreover have "char_of (char_int c) = c" for c by (simp add: char_int_def)
    ultimately show ?thesis by (simp add: map_idI)
  qed
  show ?thesis
    unfolding b64decode_strict_def Let_def w v b using c k by simp
qed

lemma py_eq_str: "py_eq (JStr a) (JStr b) \<longleftrightarrow> a = b"
  by (auto simp: py_eq_def)

lemma py_eq_status: "py_eq (status_json a) (status_json b) \<longleftrightarrow> a = b"
  by (cases a; cases b) (auto simp: py_eq_def status_json_def)

lemma b64_groups_nonempty: "b64_groups bs = [] \<longleftrightarrow> bs = []"
  by (cases bs rule: b64_groups.cases) simp_all

lemma cursor_payload_ordered:
  "c = \<lparr>rc_created_at_us = JInt n, rc_job_id = JStr i, rc_filter_fingerprint = JStr f\<rparr> \<Longrightarrow>
   ordered_pairs True (cursor_payload c ws who cls status) = cursor_payload c ws who cls status"
  by (simp add: cursor_payload_def cursor_binding_def status_json_def split: option.split)

text \<open>C35: a cursor the reader handed out continues the same listing and no other: decoded for the
  workspace, principal, class and status it was issued for it yields the position in the queue, and for
  any other request it is refused.\<close>

theorem cursor_bound_to_request:
  assumes "encode_cursor c ws who cls status = Inr t" "int (length t) \<le> max_cursor_chars"
    and "c = \<lparr>rc_created_at_us = JInt n, rc_job_id = JStr i, rc_filter_fingerprint = JStr f\<rparr>" "i \<noteq> []" "f \<noteq> []"
  shows "decode_cursor (json_loads parse_float) (Some t) ws' who' cls' status' =
    (if ws' = ws \<and> who' = who \<and> cls' = cls \<and> status' = status
     then Inr (Some \<lparr>qc_created_at_us = n, qc_job_id = i, qc_filter_fingerprint = f\<rparr>)
     else Inl (ValueError ''notification outbox cursor does not match request''))"
proof -
  let ?text = "json_dumps json_char True (JObj (cursor_payload c ws who cls status))"
  from assms(1) have t: "t = urlsafe_b64encode_unpadded ?text" by (simp add: encode_cursor_def)
  have "plain_json (JObj (cursor_payload c ws who cls status))"
    by (simp add: cursor_payload_def cursor_binding_def assms(3) status_json_def split: option.split)
  from json_loads_dumps [OF escaper_json(1) this, of parse_float True]
  have "json_loads parse_float ?text = Some (JObj (sort_key fst (cursor_payload c ws who cls status)))"
    unfolding ordered_json.simps if_True cursor_payload_ordered [OF assms(3)] .
  moreover have "jget (sort_key fst kvs) k = jget kvs k" for kvs k by (simp add: jget_def)
  ultimately obtain p where p: "json_loads parse_float ?text = Some (JObj p)"
    and payload: "\<And>k. jget p k = jget (cursor_payload c ws who cls status) k" by metis
  have "t \<noteq> []" unfolding t urlsafe_b64encode_unpadded_def by (simp add: b64_groups_nonempty)
  moreover have "Option.bind (b64decode_strict t) (json_loads parse_float) = Some (JObj p)"
    unfolding t b64_round_trip Option.bind.bind_lunit by (rule p)
  moreover have "(\<exists>(k, v)\<in>set (cursor_binding ws' who' cls' status'). \<not> py_eq (jget p k) v) \<longleftrightarrow>
    \<not> (ws' = ws \<and> who' = who \<and> cls' = cls \<and> status' = status)"
    by (simp add: cursor_binding_def payload cursor_payload_def py_eq_str py_eq_status) (auto simp: py_eq_def)
  ultimately show ?thesis
    using assms(2,4,5) by (simp add: decode_cursor_def payload) (simp add: cursor_payload_def cursor_binding_def assms(3))
qed

section \<open>What a page shows\<close>

lemma sources_allowed_True: "sources_allowed auth xs = Inr True \<longleftrightarrow> (\<forall>x\<in>set xs. auth x = Inr True)"
  by (induction xs) (auto simp: res_bind_def split: sum.splits if_splits)

lemma length_join_take: "length (bounded_text v n) \<le> max n 3"
proof -
  have "length (py_rstrip s) \<le> length s" for s
    using length_dropWhile_le [of py_isspace "rev s"] by (simp add: py_rstrip_def)
  then have "length (py_rstrip (take (n - 3) s)) \<le> n - 3" for s
    by (metis le_trans length_take min.cobounded2)
  from this [of "join_str '' '' (py_split v)"] show ?thesis by (auto simp: bounded_text_def Let_def max_def)
qed

text \<open>C34: a page is returned only to a principal who is authorized, and every entry of it is a delivery
  job of the requested class addressed to this principal, all of whose sources the principal may read;
  its summaries are bounded.\<close>

theorem outbox_page_authorized:
  assumes "list_page tm loads acl reader ws who cls status limit cursor = Inr page"
  shows "oa_recipient acl (py_strip ws) (py_strip who) = Inr True \<and>
    (\<forall>e\<in>set (op_items page). \<exists>j d. e = make_entry j cls d \<and> parse_job tm (py_strip ws) j = Inr (py_strip who, d) \<and>
       (\<forall>src\<in>source_ids d. oa_source acl (py_strip ws) (py_strip who) src = Inr True) \<and>
       (\<forall>s\<in>set (oe_summaries e). length s \<le> 360))"
proof -
  have fin: "finite (source_ids d)" for d by (simp add: source_ids_def)
  from assms obtain ns jobs entries where a: "oa_recipient acl (py_strip ws) (py_strip who) = Inr True"
    and m: "map_res (outbox_entry_of tm acl (py_strip ws) (py_strip who) ns cls) jobs = Inr entries"
    and p: "op_items page = List.map_filter id entries"
    by (auto simp: list_page_def required_text_def Let_def split: option.splits)
  have "\<exists>j d. e = make_entry j cls d \<and> parse_job tm (py_strip ws) j = Inr (py_strip who, d) \<and>
       (\<forall>src\<in>source_ids d. oa_source acl (py_strip ws) (py_strip who) src = Inr True) \<and>
       (\<forall>s\<in>set (oe_summaries e). length s \<le> 360)" if "e \<in> set (op_items page)" for e
  proof -
    from that have "Some e \<in> set entries" by (auto simp: p List.map_filter_def)
    then obtain j where "outbox_entry_of tm acl (py_strip ws) (py_strip who) ns cls j = Inr (Some e)"
      using map_res_Inr_set [OF m] by auto
    then obtain d where d: "e = make_entry j cls d" "parse_job tm (py_strip ws) j = Inr (py_strip who, d)"
      "sources_allowed (oa_source acl (py_strip ws) (py_strip who)) (sorted_list_of_set (source_ids d)) = Inr True"
      by (auto simp: outbox_entry_of_def split: if_splits sum.splits py_error.splits prod.splits)
    have "\<forall>s\<in>set (oe_summaries e). length s \<le> 360"
      using length_join_take [of _ max_summary_chars] by (simp add: d(1) make_entry_def max_summary_chars_def Let_def)
    with d show ?thesis by (auto simp: sources_allowed_True fin)
  qed
  with a show ?thesis by blast
qed

section \<open>Examples\<close>

definition example_cursor :: raw_cursor where
  "example_cursor = \<lparr>rc_created_at_us = JInt 5, rc_job_id = JStr ''j'', rc_filter_fingerprint = JStr ''f''\<rparr>"

definition example_loads :: "string \<Rightarrow> json option" where
  "example_loads = json_loads (\<lambda>t. PyFloat 0 t)"

theorem cursor_bound_to_request_witness:
  "\<exists>t. encode_cursor example_cursor ''w'' ''ann'' ''urgent'' None = Inr t \<and>
     decode_cursor example_loads (Some t) ''w'' ''ann'' ''urgent'' None =
       Inr (Some \<lparr>qc_created_at_us = 5, qc_job_id = ''j'', qc_filter_fingerprint = ''f''\<rparr>) \<and>
     decode_cursor example_loads (Some t) ''w'' ''bob'' ''urgent'' None =
       Inl (ValueError ''notification outbox cursor does not match request'')"
proof -
  have "(case encode_cursor example_cursor ''w'' ''ann'' ''urgent'' None of Inl _ \<Rightarrow> False
      | Inr t \<Rightarrow> int (length t) \<le> max_cursor_chars)" by code_simp
  then obtain t where t: "encode_cursor example_cursor ''w'' ''ann'' ''urgent'' None = Inr t" "int (length t) \<le> max_cursor_chars"
    by (auto split: sum.splits)
  have ne: "''j'' \<noteq> ([]::string)" "''f'' \<noteq> ([]::string)" by simp_all
  have c: "decode_cursor example_loads (Some t) ''w'' who ''urgent'' None = (if ''w'' = ''w'' \<and> who = ''ann'' \<and> ''urgent'' = ''urgent'' \<and>
      None = (None::string option) then Inr (Some \<lparr>qc_created_at_us = 5, qc_job_id = ''j'', qc_filter_fingerprint = ''f''\<rparr>)
      else Inl (ValueError ''notification outbox cursor does not match request''))" for who
    unfolding example_loads_def by (rule cursor_bound_to_request [OF t example_cursor_def ne])
  have "''ann'' \<noteq> ''bob''" by simp
  with t(1) c [of "''ann''"] c [of "''bob''"] show ?thesis by auto
qed

definition example_reader :: page_reader where
  "example_reader ns status ek jk limit c = Inr (filter (\<lambda>j. jq_namespace j = ns) (fst (fst example_enqueued)), None)"

definition example_outbox_acl :: outbox_acl where
  "example_outbox_acl = \<lparr>oa_recipient = (\<lambda>w r. Inr (r = ''ann'')), oa_source = (\<lambda>w r s. Inr (s = ''s''))\<rparr>"

theorem outbox_page_authorized_witness:
  "\<exists>j d. parse_job example_time ''w'' j = Inr (''ann'', d) \<and>
     (\<exists>page. list_page example_time example_loads example_outbox_acl (Some example_reader) ''w'' ''ann'' ''urgent'' None 5 None =
        Inr page \<and> op_items page = [make_entry j ''urgent'' d])"
proof -
  have "(case list_page example_time example_loads example_outbox_acl (Some example_reader) ''w'' ''ann'' ''urgent'' None 5 None of
      Inr page \<Rightarrow> length (op_items page) = 1 | Inl _ \<Rightarrow> False)" by code_simp
  then obtain page e where p: "list_page example_time example_loads example_outbox_acl (Some example_reader) ''w'' ''ann'' ''urgent'' None 5 None = Inr page"
    "op_items page = [e]" by (auto split: sum.splits simp: length_Suc_conv)
  have "py_strip ''w'' = ''w''" "py_strip ''ann'' = ''ann''" by code_simp+
  with outbox_page_authorized [OF p(1)] p show ?thesis by auto
qed

end
