(* ===== verification/Disambiguation.thy ===== *)
theory Disambiguation
  imports Patch_Model
begin

text \<open>
  Entity disambiguation: the artifact contracts (disambiguation/disambiguation\_contracts.py), the
  reconciliation of a pending question with new evidence and its lowering to a maintenance patch
  (disambiguation/reconciliation.py), and the policy that picks the questions to surface
  (disambiguation/selection.py). Kogwistar's \<^verbatim>\<open>stable_id\<close> is an argument. A score is a float
  between 0 and 1, so the rounding of a product or a sum to the nearest double is a function from
  rationals to rationals, the argument \<open>rnd\<close>.
\<close>

section \<open>Contracts\<close>

datatype artifact_status =
    DasPending | DasResolved | DasSuperseded | DasStale | DasInsufficientEvidence
  | DasNeedsMoreEvidenceCollection | DasChallenged

fun artifact_status_value :: "artifact_status \<Rightarrow> string" where
  "artifact_status_value DasPending = ''pending''"
| "artifact_status_value DasResolved = ''resolved''"
| "artifact_status_value DasSuperseded = ''superseded''"
| "artifact_status_value DasStale = ''stale''"
| "artifact_status_value DasInsufficientEvidence = ''insufficient_evidence''"
| "artifact_status_value DasNeedsMoreEvidenceCollection = ''needs_more_evidence_collection''"
| "artifact_status_value DasChallenged = ''challenged''"

datatype resolution_source = DrsNone | DrsUser | DrsPolicy | DrsNewEvidence | DrsPriorDecision

fun resolution_source_value :: "resolution_source \<Rightarrow> string" where
  "resolution_source_value DrsNone = ''none''"
| "resolution_source_value DrsUser = ''user''"
| "resolution_source_value DrsPolicy = ''policy''"
| "resolution_source_value DrsNewEvidence = ''new_evidence''"
| "resolution_source_value DrsPriorDecision = ''prior_decision''"

datatype decision_kind =
    DdkSameEntity | DdkDistinctEntities | DdkAmbiguous | DdkIllFormedCandidate | DdkInsufficientEvidence

fun decision_kind_value :: "decision_kind \<Rightarrow> string" where
  "decision_kind_value DdkSameEntity = ''same_entity''"
| "decision_kind_value DdkDistinctEntities = ''distinct_entities''"
| "decision_kind_value DdkAmbiguous = ''ambiguous''"
| "decision_kind_value DdkIllFormedCandidate = ''ill_formed_candidate''"
| "decision_kind_value DdkInsufficientEvidence = ''insufficient_evidence''"

record score_bundle =
  sb_merge_likelihood :: pyfloat
  sb_distinction_pressure :: pyfloat
  sb_review_priority :: pyfloat
  sb_usage_frequency :: int
  sb_answer_risk :: pyfloat

definition unit_interval :: "pyfloat \<Rightarrow> bool" where
  "unit_interval f \<longleftrightarrow> 0 \<le> fl_val f \<and> fl_val f \<le> 1"

definition validate_score_bundle :: "score_bundle \<Rightarrow> check" where
  "validate_score_bundle b = checks
     [raise_if (\<not> unit_interval (sb_merge_likelihood b)) (ValueError ''merge_likelihood''),
      raise_if (\<not> unit_interval (sb_distinction_pressure b)) (ValueError ''distinction_pressure''),
      raise_if (\<not> unit_interval (sb_review_priority b)) (ValueError ''review_priority''),
      raise_if (sb_usage_frequency b < 0) (ValueError ''usage_frequency''),
      raise_if (\<not> unit_interval (sb_answer_risk b)) (ValueError ''answer_risk'')]"

record disambiguation_candidate =
  dc_artifact_id :: string
  dc_workspace_id :: string
  dc_candidate_key :: string
  dc_entity_ids :: "string list"
  dc_evidence_snapshot_id :: string
  dc_evidence_cutoff_ms :: int
  dc_last_reconciled_evidence_version :: int
  dc_artifact_status :: artifact_status
  dc_resolution_source :: resolution_source
  dc_semantic_decision :: decision_kind
  dc_question :: string
  dc_question_is_concrete :: bool
  dc_evidence_summary :: string
  dc_canonical_entity_id :: "string option"
  dc_related_entity_ids :: "string list"
  dc_replacement_question :: "string option"
  dc_source_document_ids :: "string list"
  dc_source_span_ids :: "string list"
  dc_score_bundle :: score_bundle
  dc_metadata :: json_object

definition stripped :: "string list \<Rightarrow> string list" where
  "stripped ids = filter (\<lambda>i. i \<noteq> []) (map py_strip ids)"

definition validate_candidate :: "disambiguation_candidate \<Rightarrow> check" where
  "validate_candidate c = (let entity_ids = stripped (dc_entity_ids c) in checks
     [raise_if (length (dc_entity_ids c) < 2) (ValueError ''entity_ids''),
      validate_score_bundle (dc_score_bundle c),
      raise_if (length entity_ids < 2)
        (ValueError ''disambiguation candidate requires at least two entity_ids''),
      raise_if (card (set entity_ids) \<noteq> length entity_ids)
        (ValueError ''disambiguation candidate entity_ids must be unique''),
      raise_if (py_strip (dc_question c) = [])
        (ValueError ''disambiguation candidate requires a non-empty question''),
      (case dc_canonical_entity_id c of None \<Rightarrow> None
       | Some k \<Rightarrow> raise_if (py_strip k \<notin> set entity_ids)
           (ValueError ''canonical_entity_id must be one of entity_ids'')),
      raise_if (\<exists>i\<in>set (stripped (dc_related_entity_ids c)). i \<notin> set entity_ids)
        (ValueError ''related_entity_ids must be a subset of entity_ids'')])"

record evidence_update =
  eu_evidence_version :: int
  eu_question_is_concrete :: bool
  eu_resolves_equivalence :: bool
  eu_resolves_distinction :: bool
  eu_user_decision :: "decision_kind option"
  eu_policy_decision :: "decision_kind option"
  eu_candidate_group_size :: "int option"
  eu_replacement_question :: "string option"
  eu_evidence_summary :: "string option"
  eu_missing_evidence :: "string list"
  eu_merge_likelihood :: "pyfloat option"
  eu_distinction_pressure :: "pyfloat option"
  eu_review_priority :: "pyfloat option"
  eu_decision_challenged :: bool
  eu_challenge_reason :: "string option"

definition opt_unit_interval :: "pyfloat option \<Rightarrow> bool" where
  "opt_unit_interval v = (case v of None \<Rightarrow> True | Some f \<Rightarrow> unit_interval f)"

definition validate_update :: "evidence_update \<Rightarrow> check" where
  "validate_update u = checks
     [raise_if (eu_evidence_version u < 0) (ValueError ''evidence_version''),
      raise_if (case eu_candidate_group_size u of None \<Rightarrow> False | Some n \<Rightarrow> n < 0) (ValueError ''candidate_group_size''),
      raise_if (\<not> opt_unit_interval (eu_merge_likelihood u)) (ValueError ''merge_likelihood''),
      raise_if (\<not> opt_unit_interval (eu_distinction_pressure u)) (ValueError ''distinction_pressure''),
      raise_if (\<not> opt_unit_interval (eu_review_priority u)) (ValueError ''review_priority''),
      raise_if (eu_resolves_equivalence u \<and> eu_resolves_distinction u)
        (ValueError ''an evidence update cannot resolve equivalence and distinction at the same time''),
      raise_if (eu_user_decision u \<noteq> None \<and> eu_policy_decision u \<noteq> None)
        (ValueError ''an evidence update can only carry one explicit decision source'')]"

record reconciliation_result =
  rr_candidate :: disambiguation_candidate
  rr_status :: artifact_status
  rr_resolution_source :: resolution_source
  rr_semantic_decision :: decision_kind
  rr_should_surface_to_user :: bool
  rr_reason :: string
  rr_new_evidence_version :: int
  rr_replacement_question :: "string option"
  rr_challenge_required :: bool

section \<open>Reconciliation\<close>

definition is_review_request_fresh :: "disambiguation_candidate \<Rightarrow> int \<Rightarrow> bool" where
  "is_review_request_fresh c latest \<longleftrightarrow>
     dc_artifact_status c = DasPending \<and> dc_question_is_concrete c \<and> dc_semantic_decision c = DdkAmbiguous \<and>
     latest = dc_last_reconciled_evidence_version c \<and> py_strip (dc_question c) \<noteq> []"

definition opt_default :: "'a option \<Rightarrow> 'a \<Rightarrow> 'a" where
  "opt_default v d = (case v of None \<Rightarrow> d | Some x \<Rightarrow> x)"

definition updated_score_bundle :: "disambiguation_candidate \<Rightarrow> evidence_update \<Rightarrow> score_bundle" where
  "updated_score_bundle c u = (let b = dc_score_bundle c in
     b\<lparr>sb_merge_likelihood := opt_default (eu_merge_likelihood u) (sb_merge_likelihood b),
       sb_distinction_pressure := opt_default (eu_distinction_pressure u) (sb_distinction_pressure b),
       sb_review_priority := opt_default (eu_review_priority u) (sb_review_priority b)\<rparr>)"

text \<open>What every branch does to the copy of the candidate first, and how a branch closes: the three
  lifecycle fields are set and repeated in the result.\<close>

definition refreshed_candidate :: "disambiguation_candidate \<Rightarrow> evidence_update \<Rightarrow> disambiguation_candidate" where
  "refreshed_candidate c u = c\<lparr>
     dc_last_reconciled_evidence_version := max (dc_last_reconciled_evidence_version c) (eu_evidence_version u),
     dc_score_bundle := updated_score_bundle c u,
     dc_evidence_summary := opt_default (eu_evidence_summary u) (dc_evidence_summary c),
     dc_replacement_question := (if eu_replacement_question u = None then dc_replacement_question c
       else eu_replacement_question u),
     dc_question_is_concrete := (if eu_question_is_concrete u then dc_question_is_concrete c else False)\<rparr>"

definition close_with ::
    "evidence_update \<Rightarrow> artifact_status \<Rightarrow> resolution_source \<Rightarrow> decision_kind \<Rightarrow> string \<Rightarrow>
     disambiguation_candidate \<Rightarrow> reconciliation_result" where
  "close_with u status source decision reason c = (let c' = c\<lparr>dc_artifact_status := status,
       dc_resolution_source := source, dc_semantic_decision := decision\<rparr> in
     \<lparr>rr_candidate = c', rr_status = status, rr_resolution_source = source, rr_semantic_decision = decision,
      rr_should_surface_to_user = False, rr_reason = reason, rr_new_evidence_version = eu_evidence_version u,
      rr_replacement_question = dc_replacement_question c', rr_challenge_required = False\<rparr>)"

definition supersede_candidate ::
    "evidence_update \<Rightarrow> disambiguation_candidate \<Rightarrow> reconciliation_result" where
  "supersede_candidate u c = close_with u DasSuperseded DrsNewEvidence DdkIllFormedCandidate
     ''candidate set changed and the old question is no longer well formed''
     (c\<lparr>dc_question_is_concrete := False\<rparr>)"

definition challenge_candidate ::
    "decision_kind \<Rightarrow> evidence_update \<Rightarrow> disambiguation_candidate \<Rightarrow> reconciliation_result" where
  "challenge_candidate prior u c =
     (close_with u DasChallenged DrsPriorDecision
       (if prior \<noteq> DdkAmbiguous then prior else DdkInsufficientEvidence)
       (if opt_truthy (eu_challenge_reason u) then opt_str (eu_challenge_reason u)
        else ''a prior decision now conflicts with newer evidence'')
       (c\<lparr>dc_question_is_concrete := False\<rparr>))
     \<lparr>rr_replacement_question := None, rr_challenge_required := True\<rparr>"

definition collect_more_evidence ::
    "int \<Rightarrow> evidence_update \<Rightarrow> disambiguation_candidate \<Rightarrow> reconciliation_result" where
  "collect_more_evidence version u c = close_with u
     (if version \<le> eu_evidence_version u then DasNeedsMoreEvidenceCollection else DasInsufficientEvidence)
     DrsNone DdkInsufficientEvidence ''evidence is still incomplete and more collection is needed''
     (c\<lparr>dc_replacement_question := opt_or (eu_replacement_question u) (dc_replacement_question c)\<rparr>)"

definition keep_pending :: "evidence_update \<Rightarrow> disambiguation_candidate \<Rightarrow> reconciliation_result" where
  "keep_pending u c = (let r = close_with u DasPending DrsNone DdkAmbiguous
       ''candidate remains ambiguous but the question is still concrete'' c in
     r\<lparr>rr_should_surface_to_user := is_review_request_fresh (rr_candidate r) (eu_evidence_version u)\<rparr>)"

definition group_changed :: "disambiguation_candidate \<Rightarrow> evidence_update \<Rightarrow> bool" where
  "group_changed c u = (case eu_candidate_group_size u of None \<Rightarrow> False
     | Some n \<Rightarrow> n \<noteq> int (length (dc_entity_ids c)))"

definition reconcile_disambiguation_candidate ::
    "disambiguation_candidate \<Rightarrow> evidence_update \<Rightarrow> reconciliation_result" where
  "reconcile_disambiguation_candidate c u = (let n = refreshed_candidate c u in
     if group_changed c u then supersede_candidate u n
     else if eu_decision_challenged u then challenge_candidate (dc_semantic_decision c) u n
     else if eu_resolves_equivalence u then close_with u DasResolved DrsNewEvidence DdkSameEntity
       ''new evidence explicitly proves the entities are equivalent'' n
     else if eu_resolves_distinction u then close_with u DasResolved DrsNewEvidence DdkDistinctEntities
       ''new evidence explicitly proves the entities are distinct'' n
     else (case eu_user_decision u of
       Some d \<Rightarrow> close_with u DasResolved DrsUser d ''the user resolved the disambiguation question'' n
     | None \<Rightarrow> (case eu_policy_decision u of
         Some d \<Rightarrow> close_with u DasResolved DrsPolicy d ''policy resolved the disambiguation question'' n
       | None \<Rightarrow>
           if \<not> eu_question_is_concrete u then close_with u DasStale DrsNewEvidence DdkAmbiguous
             ''evidence changed but the old question is no longer concrete enough to ask'' n
           else if eu_missing_evidence u \<noteq> [] then
             collect_more_evidence (dc_last_reconciled_evidence_version c) u n
           else keep_pending u n)))"

subsection \<open>Lowering to a maintenance patch\<close>

definition provenance_for_disambiguation ::
    "disambiguation_candidate \<Rightarrow> string \<Rightarrow> string option \<Rightarrow> string list \<Rightarrow> pyfloat \<Rightarrow> maintenance_provenance" where
  "provenance_for_disambiguation c run doc spans confidence =
     \<lparr>mp_source_document_id = opt_or doc
        (case dc_source_document_ids c of [] \<Rightarrow> None | d # _ \<Rightarrow> Some d),
      mp_source_span_ids = (if spans \<noteq> [] then spans else dc_source_span_ids c),
      mp_source_pointers = [], mp_maintenance_run_id = run, mp_confidence = confidence\<rparr>"

definition canonical_or_first :: "disambiguation_candidate \<Rightarrow> string result" where
  "canonical_or_first c = (if opt_truthy (dc_canonical_entity_id c) then Inr (opt_str (dc_canonical_entity_id c))
     else (case dc_entity_ids c of [] \<Rightarrow> Inl (IndexError ''tuple index out of range'') | e # _ \<Rightarrow> Inr e))"

definition decision_edge ::
    "stable_id_fn \<Rightarrow> string \<Rightarrow> string \<Rightarrow> disambiguation_candidate \<Rightarrow> reconciliation_result \<Rightarrow>
     maintenance_provenance \<Rightarrow> string list \<Rightarrow> string \<Rightarrow> string \<Rightarrow> patch_operation" where
  "decision_edge sid tag relation c r prov parts from_id to_id =
     \<lparr>op_operation_id = ''ws:'' @ dc_workspace_id c @ '':op:'' @ sid (tag # dc_artifact_id c # parts),
      op_kind = ADD_EDGE, op_target_id = None, op_node_id = None,
      op_edge_id = Some (''ws:'' @ dc_workspace_id c @ '':edge:'' @ sid ((tag @ ''_record'') # dc_artifact_id c # parts)),
      op_from_node_id = Some from_id, op_to_node_id = Some to_id,
      op_relation = Some relation, op_label = Some relation, op_node_type = None,
      op_properties =
        [(''artifact_kind'', JStr ''entity_disambiguation_decision''),
         (''candidate_key'', JStr (dc_candidate_key c)),
         (''disambiguation_decision'', JStr (decision_kind_value (rr_semantic_decision r))),
         (''evidence_snapshot_id'', JStr (dc_evidence_snapshot_id c)),
         (''evidence_version'', JInt (rr_new_evidence_version r))],
      op_supersedes_ids = [], op_provenance = Some prov, op_reason = None\<rparr>"

definition alias_operations ::
    "stable_id_fn \<Rightarrow> disambiguation_candidate \<Rightarrow> reconciliation_result \<Rightarrow> maintenance_provenance \<Rightarrow>
     string \<Rightarrow> patch_operation list" where
  "alias_operations sid c r prov canonical =
     map (\<lambda>e. decision_edge sid ''disambiguation_alias_edge'' ''alias_of'' c r prov [canonical, e] e canonical)
       (filter (\<lambda>e. e \<noteq> canonical) (dc_entity_ids c))"

definition distinct_operations ::
    "stable_id_fn \<Rightarrow> disambiguation_candidate \<Rightarrow> reconciliation_result \<Rightarrow> maintenance_provenance \<Rightarrow>
     string \<Rightarrow> patch_operation list" where
  "distinct_operations sid c r prov left =
     map (\<lambda>e. decision_edge sid ''disambiguation_distinct_edge'' ''disambiguates_from'' c r prov [left, e] left e)
       (drop 1 (dc_entity_ids c))"

definition review_operation ::
    "stable_id_fn \<Rightarrow> disambiguation_candidate \<Rightarrow> reconciliation_result \<Rightarrow> patch_operation" where
  "review_operation sid c r =
     \<lparr>op_operation_id = ''ws:'' @ dc_workspace_id c @ '':op:'' @
        sid [''disambiguation_review_request'', dc_artifact_id c, int_str (rr_new_evidence_version r)],
      op_kind = REQUEST_REVIEW, op_target_id = None, op_node_id = None, op_edge_id = None,
      op_from_node_id = None, op_to_node_id = None, op_relation = None, op_label = None, op_node_type = None,
      op_properties = [], op_supersedes_ids = [], op_provenance = None, op_reason = Some (rr_reason r)\<rparr>"

definition disambiguation_operations ::
    "stable_id_fn \<Rightarrow> disambiguation_candidate \<Rightarrow> reconciliation_result \<Rightarrow> maintenance_provenance \<Rightarrow>
     (maintenance_intent \<times> patch_operation list) result" where
  "disambiguation_operations sid c r prov =
     (if rr_status r = DasResolved \<and> rr_semantic_decision r = DdkSameEntity then
        res_bind (canonical_or_first c) (\<lambda>k. Inr (MERGE_NODES, alias_operations sid c r prov k))
      else if rr_status r = DasResolved \<and> rr_semantic_decision r = DdkDistinctEntities then
        res_bind (canonical_or_first c) (\<lambda>k. Inr (CORRECT_FACT, distinct_operations sid c r prov k))
      else Inr (INTENT_REQUEST_REVIEW, [review_operation sid c r]))"

definition build_disambiguation_patch ::
    "stable_id_fn \<Rightarrow> disambiguation_candidate \<Rightarrow> reconciliation_result \<Rightarrow> string \<Rightarrow> string option \<Rightarrow>
     string list \<Rightarrow> pyfloat \<Rightarrow> maintenance_patch result" where
  "build_disambiguation_patch sid c r run doc spans confidence =
     (let prov = provenance_for_disambiguation c run doc spans confidence in
      check_then (validate_provenance prov)
       (res_bind (disambiguation_operations sid c r prov) (\<lambda>(intent, ops).
          let p = \<lparr>mp_patch_id = sid [''disambiguation_patch'', dc_artifact_id c,
                 decision_kind_value (rr_semantic_decision r), artifact_status_value (rr_status r),
                 int_str (rr_new_evidence_version r)],
               mp_intent = intent,
               mp_scope = \<lparr>sc_workspace_id = dc_workspace_id c, sc_scope_kind = ScopeWorkspace,
                 sc_conversation_id = None, sc_thread_id = None\<rparr>,
               mp_operations = ops, mp_status = PROPOSED, mp_rationale = Some (rr_reason r),
               mp_requires_atomic_group = False\<rparr> in
          check_then (validate_patch_model p) (Inr p))))"

section \<open>Selection of review requests\<close>

text \<open>A threshold of the policy is not validated, so it may be any float; \<open>below\<close> is \<^verbatim>\<open><\<close> with a
  score on the left.\<close>

datatype threshold = TFin rat | TInf | TNegInf | TNaN

fun below :: "rat \<Rightarrow> threshold \<Rightarrow> bool" where
  "below q (TFin t) = (q < t)" | "below q TInf = True" | "below q TNegInf = False" | "below q TNaN = False"

text \<open>The format \<^verbatim>\<open>.3f\<close>: three decimals of the exact value, ties to even.\<close>

definition round_half_even :: "rat \<Rightarrow> int" where
  "round_half_even q = (let f = \<lfloor>q\<rfloor>; d = q - of_int f in
     if d < 1 / 2 then f else if 1 / 2 < d then f + 1 else if even f then f else f + 1)"

definition fmt3 :: "rat \<Rightarrow> string" where
  "fmt3 q = (let n = nat (round_half_even (\<bar>q\<bar> * 1000)); m = n mod 1000 in
     (if q < 0 then ''-'' else []) @ nat_str (n div 1000) @ ''.'' @
     nat_str (m div 100) @ nat_str (m div 10 mod 10) @ nat_str (m mod 10))"

fun fmt3_threshold :: "threshold \<Rightarrow> string" where
  "fmt3_threshold (TFin q) = fmt3 q"
| "fmt3_threshold TInf = ''inf''" | "fmt3_threshold TNegInf = ''-inf''" | "fmt3_threshold TNaN = ''nan''"

record review_policy =
  rp_max_reviews_per_tick :: int
  rp_min_review_priority :: threshold
  rp_min_answer_risk :: threshold
  rp_min_usage_frequency :: int
  rp_allow_non_pending :: bool
  rp_allow_non_concrete :: bool

definition default_review_policy :: review_policy where
  "default_review_policy = \<lparr>rp_max_reviews_per_tick = 5, rp_min_review_priority = TFin (1 / 2),
     rp_min_answer_risk = TFin (3152519739159347 / 9007199254740992), rp_min_usage_frequency = 0,
     rp_allow_non_pending = False, rp_allow_non_concrete = False\<rparr>"

record review_pick =
  pk_candidate :: disambiguation_candidate
  pk_priority_score :: rat
  pk_reason :: string

record review_selection =
  rs_selected :: "review_pick list"
  rs_deferred :: "review_pick list"
  rs_skipped :: "review_pick list"

definition is_eligible :: "disambiguation_candidate \<Rightarrow> review_policy \<Rightarrow> bool" where
  "is_eligible c pol \<longleftrightarrow>
     (rp_allow_non_pending pol \<or> dc_artifact_status c = DasPending) \<and>
     (rp_allow_non_concrete pol \<or> dc_question_is_concrete c) \<and>
     dc_semantic_decision c = DdkAmbiguous \<and>
     rp_min_usage_frequency pol \<le> sb_usage_frequency (dc_score_bundle c) \<and>
     py_strip (dc_question c) \<noteq> []"

text \<open>The weights 0.60 and 0.15 are the nearest doubles.\<close>

definition priority_score_of :: "(rat \<Rightarrow> rat) \<Rightarrow> score_bundle \<Rightarrow> rat" where
  "priority_score_of rnd b = rnd (rnd
     (rnd (fl_val (sb_review_priority b) * (5404319552844595 / 9007199254740992)) +
      rnd (fl_val (sb_answer_risk b) * (1 / 4))) +
      rnd (max (fl_val (sb_merge_likelihood b)) (fl_val (sb_distinction_pressure b)) *
        (5404319552844595 / 36028797018963968)))"

definition score_candidate :: "(rat \<Rightarrow> rat) \<Rightarrow> disambiguation_candidate \<Rightarrow> review_pick" where
  "score_candidate rnd c = (let b = dc_score_bundle c in
     \<lparr>pk_candidate = c, pk_priority_score = priority_score_of rnd b,
      pk_reason = ''pending ambiguous question with '' @
        ''review_priority='' @ fmt3 (fl_val (sb_review_priority b)) @ '', '' @
        ''answer_risk='' @ fmt3 (fl_val (sb_answer_risk b)) @ '', '' @
        ''usage_frequency='' @ int_str (sb_usage_frequency b)\<rparr>)"

definition answer_risk_of :: "disambiguation_candidate \<Rightarrow> rat" where
  "answer_risk_of c = fl_val (sb_answer_risk (dc_score_bundle c))"

definition priority_below_reason :: "rat \<Rightarrow> threshold \<Rightarrow> string" where
  "priority_below_reason q t =
     ''review priority is below the configured threshold ('' @ fmt3 q @ '' < '' @ fmt3_threshold t @ '')''"

definition risk_below_reason :: "rat \<Rightarrow> threshold \<Rightarrow> string" where
  "risk_below_reason q t =
     ''answer risk is below the configured threshold ('' @ fmt3 q @ '' < '' @ fmt3_threshold t @ '')''"

fun triage ::
    "(rat \<Rightarrow> rat) \<Rightarrow> review_policy \<Rightarrow> disambiguation_candidate list \<Rightarrow>
     review_pick list \<times> review_pick list \<times> review_pick list" where
  "triage rnd pol [] = ([], [], [])"
| "triage rnd pol (c # cs) = (case triage rnd pol cs of (scored, deferred, skipped) \<Rightarrow>
     let pick = score_candidate rnd c in
     if \<not> is_eligible c pol then (scored, deferred, pick # skipped)
     else if below (pk_priority_score pick) (rp_min_review_priority pol) then
       (scored, pick\<lparr>pk_reason := priority_below_reason (pk_priority_score pick) (rp_min_review_priority pol)\<rparr>
          # deferred, skipped)
     else if below (answer_risk_of c) (rp_min_answer_risk pol) then
       (scored, pick\<lparr>pk_reason := risk_below_reason (answer_risk_of c) (rp_min_answer_risk pol)\<rparr>
          # deferred, skipped)
     else (pick # scored, deferred, skipped))"

definition review_key :: "review_pick \<Rightarrow> rat \<times> rat \<times> int \<times> string" where
  "review_key p = (pk_priority_score p, answer_risk_of (pk_candidate p),
     sb_usage_frequency (dc_score_bundle (pk_candidate p)), dc_candidate_key (pk_candidate p))"

text \<open>A stable sort in descending order keeps equal elements in their order.\<close>

definition sort_reverse :: "('a \<Rightarrow> 'k::linorder) \<Rightarrow> 'a list \<Rightarrow> 'a list" where
  "sort_reverse key xs = rev (sort_key key (rev xs))"

definition select_disambiguation_review_requests ::
    "(rat \<Rightarrow> rat) \<Rightarrow> disambiguation_candidate list \<Rightarrow> review_policy option \<Rightarrow> review_selection" where
  "select_disambiguation_review_requests rnd cs policy =
     (let pol = opt_default policy default_review_policy in
      case triage rnd pol cs of (scored, deferred, skipped) \<Rightarrow>
        let ranked = sort_reverse review_key scored; limit = nat (max 0 (rp_max_reviews_per_tick pol)) in
        \<lparr>rs_selected = take limit ranked, rs_deferred = deferred @ drop limit ranked, rs_skipped = skipped\<rparr>)"

definition review_service_select ::
    "(rat \<Rightarrow> rat) \<Rightarrow> review_policy \<Rightarrow> disambiguation_candidate list \<Rightarrow> review_policy option \<Rightarrow> review_selection" where
  "review_service_select rnd own cs policy =
     select_disambiguation_review_requests rnd cs (Some (opt_default policy own))"

section \<open>Lifecycle of a question\<close>

lemmas branch_defs = supersede_candidate_def challenge_candidate_def collect_more_evidence_def
  keep_pending_def close_with_def Let_def

lemma reconcile_cases:
  fixes c u
  defines "n \<equiv> refreshed_candidate c u"
  obtains (supersede) "group_changed c u"
      "reconcile_disambiguation_candidate c u = supersede_candidate u n"
  | (challenge) "\<not> group_changed c u" "eu_decision_challenged u"
      "reconcile_disambiguation_candidate c u = challenge_candidate (dc_semantic_decision c) u n"
  | (resolve) src d reason where "\<not> group_changed c u" "\<not> eu_decision_challenged u"
      "eu_resolves_equivalence u \<or> eu_resolves_distinction u \<or> eu_user_decision u \<noteq> None \<or> eu_policy_decision u \<noteq> None"
      "reconcile_disambiguation_candidate c u = close_with u DasResolved src d reason n"
  | (stale) reason where "\<not> eu_question_is_concrete u"
      "reconcile_disambiguation_candidate c u = close_with u DasStale DrsNewEvidence DdkAmbiguous reason n"
  | (collect) "eu_question_is_concrete u" "eu_missing_evidence u \<noteq> []"
      "reconcile_disambiguation_candidate c u = collect_more_evidence (dc_last_reconciled_evidence_version c) u n"
  | (pending) "\<not> group_changed c u" "\<not> eu_decision_challenged u" "\<not> eu_resolves_equivalence u"
      "\<not> eu_resolves_distinction u" "eu_user_decision u = None" "eu_policy_decision u = None"
      "eu_question_is_concrete u" "eu_missing_evidence u = []"
      "reconcile_disambiguation_candidate c u = keep_pending u n"
proof -
  note d = reconcile_disambiguation_candidate_def [of c u, unfolded Let_def, folded n_def]
  consider "group_changed c u" | "\<not> group_changed c u" "eu_decision_challenged u"
    | "\<not> group_changed c u" "\<not> eu_decision_challenged u" "eu_resolves_equivalence u"
    | "\<not> group_changed c u" "\<not> eu_decision_challenged u" "\<not> eu_resolves_equivalence u" "eu_resolves_distinction u"
    | v where "\<not> group_changed c u" "\<not> eu_decision_challenged u" "\<not> eu_resolves_equivalence u"
        "\<not> eu_resolves_distinction u" "eu_user_decision u = Some v"
    | v where "\<not> group_changed c u" "\<not> eu_decision_challenged u" "\<not> eu_resolves_equivalence u"
        "\<not> eu_resolves_distinction u" "eu_user_decision u = None" "eu_policy_decision u = Some v"
    | "\<not> group_changed c u" "\<not> eu_decision_challenged u" "\<not> eu_resolves_equivalence u"
        "\<not> eu_resolves_distinction u" "eu_user_decision u = None" "eu_policy_decision u = None"
    by blast
  then show thesis
  proof cases
    case 1
    then show thesis by (intro supersede) (simp_all add: d)
  next
    case 2
    then show thesis by (intro challenge) (simp_all add: d)
  next
    case 7
    then show thesis
      by (cases "eu_question_is_concrete u"; cases "eu_missing_evidence u = []")
        (auto intro: stale collect pending simp: d)
  qed (auto intro: resolve simp: d)
qed

text \<open>An update that carries no verdict: nothing in it changes the group, settles the question,
  challenges a decision or asks for more evidence.\<close>

definition open_update :: "disambiguation_candidate \<Rightarrow> evidence_update \<Rightarrow> bool" where
  "open_update c u \<longleftrightarrow> \<not> group_changed c u \<and> \<not> eu_decision_challenged u \<and> \<not> eu_resolves_equivalence u \<and>
     \<not> eu_resolves_distinction u \<and> eu_user_decision u = None \<and> eu_policy_decision u = None \<and>
     eu_question_is_concrete u \<and> eu_missing_evidence u = []"

lemma not_surfaced:
  "\<not> rr_should_surface_to_user (close_with u s src d reason c)"
  "\<not> rr_should_surface_to_user (supersede_candidate u c)"
  "\<not> rr_should_surface_to_user (challenge_candidate k u c)"
  "\<not> rr_should_surface_to_user (collect_more_evidence v u c)"
  by (simp_all add: branch_defs)

lemma reconcile_open:
  "open_update c u \<Longrightarrow> reconcile_disambiguation_candidate c u = keep_pending u (refreshed_candidate c u)"
  by (simp add: open_update_def reconcile_disambiguation_candidate_def)

lemma surfaced_iff:
  "rr_should_surface_to_user (reconcile_disambiguation_candidate c u) \<longleftrightarrow>
     open_update c u \<and> dc_last_reconciled_evidence_version c \<le> eu_evidence_version u \<and>
     dc_question_is_concrete c \<and> py_strip (dc_question c) \<noteq> []"
proof (cases "open_update c u")
  case True
  then show ?thesis
    by (auto simp: reconcile_open branch_defs is_review_request_fresh_def refreshed_candidate_def open_update_def)
next
  case False
  then show ?thesis
    by (cases rule: reconcile_cases [of c u]) (auto simp: not_surfaced open_update_def)
qed

text \<open>a reconciled question is surfaced to the user exactly when the update carries no verdict, its
  evidence is not older than what the question was reconciled with, and the question is concrete and
  not blank.\<close>

theorem question_surfaced_iff:
  "rr_should_surface_to_user (reconcile_disambiguation_candidate c u) \<longleftrightarrow>
     open_update c u \<and> dc_last_reconciled_evidence_version c \<le> eu_evidence_version u \<and>
     dc_question_is_concrete c \<and> py_strip (dc_question c) \<noteq> []"
  by (rule surfaced_iff)

text \<open>Reconciling one question with a sequence of updates.\<close>

inductive evidence_run ::
    "disambiguation_candidate \<Rightarrow> evidence_update list \<Rightarrow> disambiguation_candidate \<Rightarrow> bool" where
  run_start: "evidence_run c [] c"
| run_step: "evidence_run c us c' \<Longrightarrow> validate_update u = None \<Longrightarrow>
     evidence_run c (us @ [u]) (rr_candidate (reconcile_disambiguation_candidate c' u))"

text \<open>What an update never touches.\<close>

definition question_identity ::
    "disambiguation_candidate \<Rightarrow> string list \<times> string list \<times> int \<times> string option \<times> string list \<times> string list \<times> json_object" where
  "question_identity c = ([dc_artifact_id c, dc_workspace_id c, dc_candidate_key c, dc_evidence_snapshot_id c, dc_question c],
     dc_entity_ids c, dc_evidence_cutoff_ms c, dc_canonical_entity_id c, dc_related_entity_ids c,
     dc_source_document_ids c @ dc_source_span_ids c, dc_metadata c)"

lemma reconcile_result_consistent:
  "(let r = reconcile_disambiguation_candidate c u in
     dc_artifact_status (rr_candidate r) = rr_status r \<and>
     dc_resolution_source (rr_candidate r) = rr_resolution_source r \<and>
     dc_semantic_decision (rr_candidate r) = rr_semantic_decision r)"
  by (cases rule: reconcile_cases [of c u]) (simp_all add: branch_defs)

lemma reconcile_candidate_fields:
  "question_identity (rr_candidate (reconcile_disambiguation_candidate c u)) = question_identity c"
  "dc_last_reconciled_evidence_version (rr_candidate (reconcile_disambiguation_candidate c u)) =
     max (dc_last_reconciled_evidence_version c) (eu_evidence_version u)"
  "dc_score_bundle (rr_candidate (reconcile_disambiguation_candidate c u)) = updated_score_bundle c u"
  by (cases rule: reconcile_cases [of c u];
      simp add: branch_defs refreshed_candidate_def question_identity_def)+

lemma reconcile_concrete:
  "dc_question_is_concrete (rr_candidate (reconcile_disambiguation_candidate c u)) \<Longrightarrow>
     dc_question_is_concrete c \<and> eu_question_is_concrete u"
  by (cases rule: reconcile_cases [of c u]) (auto simp: branch_defs refreshed_candidate_def split: if_splits)

lemma updated_score_bundle_valid:
  assumes "validate_score_bundle (dc_score_bundle c) = None" "validate_update u = None"
  shows "validate_score_bundle (updated_score_bundle c u) = None"
  using assms
  by (auto simp: validate_score_bundle_def validate_update_def updated_score_bundle_def Let_def
      opt_default_def opt_unit_interval_def split: option.splits)

lemma validate_candidate_split:
  "validate_candidate c = None \<longleftrightarrow> validate_score_bundle (dc_score_bundle c) = None \<and>
     2 \<le> length (stripped (dc_entity_ids c)) \<and> distinct (stripped (dc_entity_ids c)) \<and>
     py_strip (dc_question c) \<noteq> [] \<and>
     (\<forall>k. dc_canonical_entity_id c = Some k \<longrightarrow> py_strip k \<in> set (stripped (dc_entity_ids c))) \<and>
     set (stripped (dc_related_entity_ids c)) \<subseteq> set (stripped (dc_entity_ids c))"
proof -
  have l: "length (stripped xs) \<le> length xs" for xs
    unfolding stripped_def by (metis length_filter_le length_map)
  show ?thesis
    using l [of "dc_entity_ids c"]
    by (auto simp: validate_candidate_def Let_def card_distinct distinct_card split: option.split)
qed

lemma reconcile_keeps_valid:
  assumes "validate_candidate c = None" "validate_update u = None"
  shows "validate_candidate (rr_candidate (reconcile_disambiguation_candidate c u)) = None"
proof -
  let ?c' = "rr_candidate (reconcile_disambiguation_candidate c u)"
  have "dc_entity_ids ?c' = dc_entity_ids c" "dc_question ?c' = dc_question c"
    "dc_canonical_entity_id ?c' = dc_canonical_entity_id c" "dc_related_entity_ids ?c' = dc_related_entity_ids c"
    using reconcile_candidate_fields(1) [of c u] by (simp_all add: question_identity_def)
  with assms show ?thesis
    by (simp add: validate_candidate_split reconcile_candidate_fields updated_score_bundle_valid)
qed

text \<open>C25: over any sequence of validated updates a question keeps its identity and stays a valid
  artifact, its evidence version is the largest it has seen, and once an update has called it not
  concrete no later update surfaces it to the user.\<close>

theorem evidence_run_invariant:
  assumes "evidence_run c us c'" "validate_candidate c = None"
  shows "question_identity c' = question_identity c \<and> validate_candidate c' = None \<and>
    dc_last_reconciled_evidence_version c' = foldl max (dc_last_reconciled_evidence_version c) (map eu_evidence_version us) \<and>
    (\<not> list_all eu_question_is_concrete us \<longrightarrow>
       (\<forall>u. \<not> rr_should_surface_to_user (reconcile_disambiguation_candidate c' u)))"
proof -
  have "question_identity c' = question_identity c \<and> validate_candidate c' = None \<and>
    dc_last_reconciled_evidence_version c' = foldl max (dc_last_reconciled_evidence_version c) (map eu_evidence_version us) \<and>
    (dc_question_is_concrete c' \<longrightarrow> list_all eu_question_is_concrete us)"
    using assms
    by (induction rule: evidence_run.induct)
      (auto simp: reconcile_candidate_fields reconcile_keeps_valid dest: reconcile_concrete)
  then show ?thesis by (auto simp: surfaced_iff)
qed

section \<open>Patches of resolved questions\<close>

definition clean_candidate :: "disambiguation_candidate \<Rightarrow> bool" where
  "clean_candidate c \<longleftrightarrow> (\<forall>e\<in>set (dc_entity_ids c). e \<noteq> [] \<and> py_strip e = e) \<and>
     (\<forall>k. dc_canonical_entity_id c = Some k \<longrightarrow> py_strip k = k)"

text \<open>The identifiers of the edges of one candidate do not collide.\<close>

definition edge_tags :: "string list" where
  "edge_tags = [''disambiguation_alias_edge'', ''disambiguation_alias_edge_record'',
     ''disambiguation_distinct_edge'', ''disambiguation_distinct_edge_record'']"

definition collision_free :: "stable_id_fn \<Rightarrow> disambiguation_candidate \<Rightarrow> string \<Rightarrow> bool" where
  "collision_free sid c k \<longleftrightarrow>
     list_all (\<lambda>tag. inj_on (\<lambda>e. sid [tag, dc_artifact_id c, k, e]) (set (dc_entity_ids c))) edge_tags"

definition edge_ends :: "maintenance_patch \<Rightarrow> (string \<times> string) set" where
  "edge_ends p = (\<lambda>op. (opt_str (op_from_node_id op), opt_str (op_to_node_id op))) ` set (mp_operations p)"

lemma stripped_clean:
  "(\<forall>e\<in>set es. e \<noteq> [] \<and> py_strip e = e) \<Longrightarrow> stripped es = es"
  by (induction es) (auto simp: stripped_def)

lemma clean_ids:
  assumes "validate_candidate c = None" "clean_candidate c"
  shows "distinct (dc_entity_ids c)" "2 \<le> length (dc_entity_ids c)"
    "\<And>e. e \<in> set (dc_entity_ids c) \<Longrightarrow> e \<noteq> []"
    "\<And>k. dc_canonical_entity_id c = Some k \<Longrightarrow> k \<in> set (dc_entity_ids c)"
  using assms stripped_clean [of "dc_entity_ids c"]
  by (auto simp: validate_candidate_split clean_candidate_def)


text \<open>A patch made of decision edges between known nodes validates.\<close>

lemma decision_edges_valid:
  fixes sid tag relation c r prov k and f g :: "string \<Rightarrow> string"
  defines "E \<equiv> \<lambda>e. decision_edge sid tag relation c r prov [k, e] (f e) (g e)"
  assumes ops: "mp_operations p = map E es" and es: "distinct es" "es \<noteq> []"
    and ends: "\<And>e. e \<in> set es \<Longrightarrow> f e \<in> vc_nodes vc \<and> g e \<in> vc_nodes vc \<and> f e \<noteq> [] \<and> g e \<noteq> []"
    and inj: "inj_on (\<lambda>e. sid [tag, dc_artifact_id c, k, e]) (set es)"
      "inj_on (\<lambda>e. sid [tag @ ''_record'', dc_artifact_id c, k, e]) (set es)"
    and rest: "\<not> is_crosslink_intent (mp_intent p)" "relation \<noteq> []" "sc_scope_kind (mp_scope p) = ScopeWorkspace"
      "mp_source_pointers prov = []" "validate_provenance prov = None"
      "vc_prefix vc \<in> {None, Some (''ws:'' @ dc_workspace_id c @ '':'')}"
  shows "validate_patch_model p = None \<and> vr_valid (validate_maintenance_patch pu p vc) \<and>
    edge_ends p = (\<lambda>e. (f e, g e)) ` set es"
proof -
  have "distinct (map op_operation_id (map E es))" "distinct (created_ids (map E es))"
    using es(1) inj
    by (auto simp: E_def decision_edge_def distinct_map created_ids_def created_id_def created_node_id_def
        created_edge_id_def opt_or_def opt_truthy_def opt_str_def comp_def inj_on_def filter_map)
  moreover have "well_formed_operation pu p vc (E e)" if "e \<in> set es" for e
    using ends [OF that] rest
    by (auto simp: well_formed_operation_def E_def decision_edge_def created_id_def created_node_id_def
        created_edge_id_def opt_or_def opt_truthy_def opt_str_def py_str_opt_def py_startswith_iff)
  moreover have "validate_operation (E e) = None" if "e \<in> set es" for e
    using ends [OF that] rest
    by (auto simp: validate_operation_def E_def decision_edge_def shape_matches_kind_def opt_truthy_def)
  ultimately show ?thesis
    using es(2) rest
    by (auto simp: validate_maintenance_patch_valid validate_patch_model_def validate_scope_def ops
        edge_ends_def E_def decision_edge_def opt_str_def image_iff)
qed

lemma build_links:
  fixes sid tag relation c r k and f g :: "string \<Rightarrow> string"
  assumes c: "validate_candidate c = None" "clean_candidate c"
    and prov: "validate_provenance (provenance_for_disambiguation c run doc spans conf) = None"
    and ops: "disambiguation_operations sid c r (provenance_for_disambiguation c run doc spans conf) = Inr (intent,
      map (\<lambda>e. decision_edge sid tag relation c r (provenance_for_disambiguation c run doc spans conf) [k, e] (f e) (g e)) es)"
    and es: "distinct es" "es \<noteq> []" "set es \<subseteq> set (dc_entity_ids c)"
    and ends: "\<And>e. e \<in> set es \<Longrightarrow> f e \<in> set (dc_entity_ids c) \<and> g e \<in> set (dc_entity_ids c)"
    and ids: "collision_free sid c k" "tag \<in> set edge_tags" "tag @ ''_record'' \<in> set edge_tags"
    and kinds: "relation \<noteq> []" "\<not> is_crosslink_intent intent"
    and vc: "set (dc_entity_ids c) \<subseteq> vc_nodes vc" "vc_prefix vc \<in> {None, Some (''ws:'' @ dc_workspace_id c @ '':'')}"
  shows "\<exists>p. build_disambiguation_patch sid c r run doc spans conf = Inr p \<and>
    vr_valid (validate_maintenance_patch pu p vc) \<and> edge_ends p = (\<lambda>e. (f e, g e)) ` set es"
proof -
  have inj: "inj_on (\<lambda>e. sid [t, dc_artifact_id c, k, e]) (set es)" if "t \<in> set edge_tags" for t
    using ids(1) that es(3) by (auto simp: collision_free_def list_all_iff intro: inj_on_subset)
  have known: "f e \<in> vc_nodes vc \<and> g e \<in> vc_nodes vc \<and> f e \<noteq> [] \<and> g e \<noteq> []" if "e \<in> set es" for e
    using ends [OF that] vc(1) clean_ids(3) [OF c] by blast
  have "validate_patch_model p = None \<and> vr_valid (validate_maintenance_patch pu p vc) \<and>
      edge_ends p = (\<lambda>e. (f e, g e)) ` set es"
    if "mp_operations p = map (\<lambda>e. decision_edge sid tag relation c r
          (provenance_for_disambiguation c run doc spans conf) [k, e] (f e) (g e)) es"
      "mp_intent p = intent" "sc_scope_kind (mp_scope p) = ScopeWorkspace" for p
    using that(2,3) kinds vc(2) prov
    by (intro decision_edges_valid [OF that(1) es(1,2) known inj [OF ids(2)] inj [OF ids(3)]])
      (auto simp: provenance_for_disambiguation_def)
  then show ?thesis
    by (auto simp: build_disambiguation_patch_def Let_def prov ops)
qed


text \<open>C40: when the canonical entity of a distinction is not the first one, the patch is built and
  validates, but it declares the canonical entity distinct from itself and leaves out the first
  entity.\<close>

theorem distinct_patch_self_edge:
  assumes "validate_candidate c = None" "clean_candidate c" "rr_status r = DasResolved"
    and "rr_semantic_decision r = DdkDistinctEntities"
    and "dc_canonical_entity_id c = Some k" "k \<noteq> hd (dc_entity_ids c)"
    and "validate_provenance (provenance_for_disambiguation c run doc spans conf) = None"
    and "collision_free sid c k" "set (dc_entity_ids c) \<subseteq> vc_nodes vc"
      "vc_prefix vc \<in> {None, Some (''ws:'' @ dc_workspace_id c @ '':'')}"
  shows "\<exists>p. build_disambiguation_patch sid c r run doc spans conf = Inr p \<and>
    vr_valid (validate_maintenance_patch pu p vc) \<and> (k, k) \<in> edge_ends p \<and>
    hd (dc_entity_ids c) \<notin> fst ` edge_ends p \<union> snd ` edge_ends p"
proof -
  let ?ids = "dc_entity_ids c"
  note ids = clean_ids [OF assms(1,2)]
  have k: "k \<in> set ?ids" "k \<noteq> []" using ids(3,4) assms(5) by auto
  from ids(1,2) obtain a b rest where l: "?ids = a # b # rest" "distinct (a # b # rest)"
    by (metis One_nat_def Suc_1 Suc_le_length_iff)
  have "canonical_or_first c = Inr k" using k(2) by (simp add: canonical_or_first_def opt_truthy_def opt_str_def assms(5))
  then have "\<exists>p. build_disambiguation_patch sid c r run doc spans conf = Inr p \<and>
      vr_valid (validate_maintenance_patch pu p vc) \<and> edge_ends p = Pair k ` set (drop 1 ?ids)"
    by (intro build_links [OF assms(1,2,7) _ _ _ _ _ assms(8) _ _ _ _ assms(9,10),
          where tag = "''disambiguation_distinct_edge''" and relation = "''disambiguates_from''" and intent = CORRECT_FACT])
      (use l k in \<open>auto simp: disambiguation_operations_def assms(3,4) distinct_operations_def edge_tags_def
          is_crosslink_intent_def\<close>)
  moreover have "k \<in> set (drop 1 ?ids)" "hd ?ids \<notin> set (drop 1 ?ids)" using l k assms(6) by auto
  ultimately show ?thesis using assms(6) by auto
qed

section \<open>What the selection promises\<close>

definition surfaceable :: "(rat \<Rightarrow> rat) \<Rightarrow> review_policy \<Rightarrow> disambiguation_candidate \<Rightarrow> bool" where
  "surfaceable rnd pol c \<longleftrightarrow> is_eligible c pol \<and>
     \<not> below (priority_score_of rnd (dc_score_bundle c)) (rp_min_review_priority pol) \<and>
     \<not> below (answer_risk_of c) (rp_min_answer_risk pol)"

lemma score_candidate_fields [simp]:
  "pk_candidate (score_candidate rnd c) = c"
  "pk_priority_score (score_candidate rnd c) = priority_score_of rnd (dc_score_bundle c)"
  by (simp_all add: score_candidate_def Let_def)

lemma triage_buckets:
  assumes "triage rnd pol cs = (scored, deferred, skipped)"
  shows "scored = map (score_candidate rnd) (filter (surfaceable rnd pol) cs)"
    "map pk_candidate deferred = filter (\<lambda>c. is_eligible c pol \<and> \<not> surfaceable rnd pol c) cs"
    "skipped = map (score_candidate rnd) (filter (\<lambda>c. \<not> is_eligible c pol) cs)"
  using assms
proof (induction cs arbitrary: scored deferred skipped)
  case (Cons c cs)
  obtain sc de sk where t: "triage rnd pol cs = (sc, de, sk)" by (cases "triage rnd pol cs")
  note IH = Cons.IH [OF t]
  {
    case 1
    from 1 t IH show ?case by (auto simp: surfaceable_def Let_def split: if_splits)
  next
    case 2
    from 2 t IH show ?case by (auto simp: surfaceable_def Let_def split: if_splits)
  next
    case 3
    from 3 t IH show ?case by (auto simp: surfaceable_def Let_def split: if_splits)
  }
qed simp_all

lemma sort_reverse_props:
  "mset (sort_reverse key xs) = mset xs" "sorted_wrt (\<lambda>x y. key y \<le> key x) (sort_reverse key xs)"
  using sorted_sort_key [of key "rev xs"] by (simp_all add: sort_reverse_def sorted_wrt_rev sorted_map)

lemma sorted_take_drop:
  "sorted_wrt R xs \<Longrightarrow> sorted_wrt R (take n xs) \<and> (\<forall>x\<in>set (take n xs). \<forall>y\<in>set (drop n xs). R x y)"
  by (metis append_take_drop_id sorted_wrt_append)

lemma partition_mset:
  "mset (filter P xs) + (mset (filter (\<lambda>x. Q x \<and> \<not> P x) xs) + mset (filter (\<lambda>x. \<not> Q x) xs)) = mset xs"
  if "\<And>x. P x \<Longrightarrow> Q x"
  using that by (induction xs) auto

text \<open>C27: every candidate of a selection is in exactly one bucket; the surfaced ones are eligible, meet
  both thresholds, are at most as many as the policy allows and come in descending order of urgency,
  and no candidate that could have been surfaced instead is more urgent; exactly the ineligible ones
  are skipped.\<close>

theorem review_selection_exact:
  fixes rnd cs policy
  defines "s \<equiv> select_disambiguation_review_requests rnd cs policy"
  defines "pol \<equiv> opt_default policy default_review_policy"
  shows "mset (map pk_candidate (rs_selected s @ rs_deferred s @ rs_skipped s)) = mset cs \<and>
    length (rs_selected s) = min (length (filter (surfaceable rnd pol) cs)) (nat (rp_max_reviews_per_tick pol)) \<and>
    (\<forall>p\<in>set (rs_selected s). surfaceable rnd pol (pk_candidate p) \<and> p = score_candidate rnd (pk_candidate p)) \<and>
    sorted_wrt (\<lambda>p q. review_key q \<le> review_key p) (rs_selected s) \<and>
    (\<forall>p\<in>set (rs_selected s). \<forall>q\<in>set (rs_deferred s). surfaceable rnd pol (pk_candidate q) \<longrightarrow>
       review_key (score_candidate rnd (pk_candidate q)) \<le> review_key p) \<and>
    map pk_candidate (rs_skipped s) = filter (\<lambda>c. \<not> is_eligible c pol) cs"
proof -
  obtain sc de sk where t: "triage rnd pol cs = (sc, de, sk)" by (cases "triage rnd pol cs")
  define n where "n = nat (max 0 (rp_max_reviews_per_tick pol))"
  define rk where "rk = sort_reverse review_key sc"
  have s: "s = \<lparr>rs_selected = take n rk, rs_deferred = de @ drop n rk, rs_skipped = sk\<rparr>"
    using t by (simp add: s_def select_disambiguation_review_requests_def pol_def n_def rk_def Let_def)
  note b = triage_buckets [OF t]
  have m: "mset rk = mset sc" by (simp add: rk_def sort_reverse_props)
  then have set_rk: "set rk = score_candidate rnd ` set (filter (surfaceable rnd pol) cs)"
    using b(1) by (metis list.set_map set_mset_mset)
  have ord: "sorted_wrt (\<lambda>p q. review_key q \<le> review_key p) (take n rk)"
    "\<forall>p\<in>set (take n rk). \<forall>q\<in>set (drop n rk). review_key q \<le> review_key p"
    using sorted_take_drop [OF sort_reverse_props(2) [of review_key sc], of n] by (simp_all add: rk_def)
  have sel: "surfaceable rnd pol (pk_candidate p) \<and> p = score_candidate rnd (pk_candidate p)" if "p \<in> set rk" for p
    using that set_rk by auto
  have all: "mset (map pk_candidate (take n rk)) + mset (map pk_candidate (drop n rk)) = mset (filter (surfaceable rnd pol) cs)"
    by (metis (no_types, lifting) append_take_drop_id b(1) list.map_comp m map_append map_idI mset_append mset_map
        comp_apply score_candidate_fields(1))
  have sk: "map pk_candidate sk = filter (\<lambda>c. \<not> is_eligible c pol) cs"
    using b(3) by (simp add: comp_def)
  have "mset (map pk_candidate (rs_selected s @ rs_deferred s @ rs_skipped s)) =
      mset (map pk_candidate (take n rk)) + mset (map pk_candidate (drop n rk)) +
      (mset (map pk_candidate de) + mset (map pk_candidate sk))"
    by (simp add: s ac_simps del: mset_map)
  then have part: "mset (map pk_candidate (rs_selected s @ rs_deferred s @ rs_skipped s)) = mset cs"
    unfolding all b(2) sk by (simp only:) (rule partition_mset, simp add: surfaceable_def)
  have not_surf: "\<not> surfaceable rnd pol (pk_candidate q)" if "q \<in> set de" for q
  proof -
    have "pk_candidate q \<in> set (map pk_candidate de)" using that by simp
    then show ?thesis by (simp add: b(2))
  qed
  have "length rk = length (filter (surfaceable rnd pol) cs)"
    using m b(1) by (metis length_map size_mset)
  then have len: "length (take n rk) = min (length (filter (surfaceable rnd pol) cs)) (nat (rp_max_reviews_per_tick pol))"
    by (simp add: n_def)
  show ?thesis
    using part len ord sel not_surf sk by (auto simp: s dest: in_set_takeD in_set_dropD) (metis in_set_dropD sel)
qed

section \<open>Examples\<close>

definition example_bundle :: "rat \<Rightarrow> score_bundle" where
  "example_bundle q = \<lparr>sb_merge_likelihood = PyFloat q ''m'', sb_distinction_pressure = PyFloat 0 ''0.0'',
     sb_review_priority = PyFloat q ''p'', sb_usage_frequency = 1, sb_answer_risk = PyFloat q ''r''\<rparr>"

definition example_candidate :: "string \<Rightarrow> rat \<Rightarrow> string option \<Rightarrow> disambiguation_candidate" where
  "example_candidate key q canonical = \<lparr>dc_artifact_id = key, dc_workspace_id = ''w'', dc_candidate_key = key,
     dc_entity_ids = [''a'', ''b''], dc_evidence_snapshot_id = ''s'', dc_evidence_cutoff_ms = 0,
     dc_last_reconciled_evidence_version = 0, dc_artifact_status = DasPending, dc_resolution_source = DrsNone,
     dc_semantic_decision = DdkAmbiguous, dc_question = ''same?'', dc_question_is_concrete = True,
     dc_evidence_summary = [], dc_canonical_entity_id = canonical, dc_related_entity_ids = [],
     dc_replacement_question = None, dc_source_document_ids = [''d''], dc_source_span_ids = [],
     dc_score_bundle = example_bundle q, dc_metadata = []\<rparr>"

definition plain_update :: "int \<Rightarrow> evidence_update" where
  "plain_update v = \<lparr>eu_evidence_version = v, eu_question_is_concrete = True, eu_resolves_equivalence = False,
     eu_resolves_distinction = False, eu_user_decision = None, eu_policy_decision = None,
     eu_candidate_group_size = None, eu_replacement_question = None, eu_evidence_summary = None,
     eu_missing_evidence = [], eu_merge_likelihood = None, eu_distinction_pressure = None,
     eu_review_priority = None, eu_decision_challenged = False, eu_challenge_reason = None\<rparr>"

lemmas example_defs = example_candidate_def example_bundle_def plain_update_def

lemma example_candidate_ok:
  "validate_candidate (example_candidate ''x'' 1 (Some ''b'')) = None \<and> clean_candidate (example_candidate ''x'' 1 (Some ''b''))"
  "validate_candidate (example_candidate ''x'' 1 None) = None \<and> clean_candidate (example_candidate ''x'' 1 None)"
  by (simp add: clean_candidate_def example_defs; code_simp)+

theorem evidence_run_invariant_witness:
  "\<not> rr_should_surface_to_user (reconcile_disambiguation_candidate (rr_candidate
     (reconcile_disambiguation_candidate (example_candidate ''x'' 1 None)
       (plain_update 1\<lparr>eu_question_is_concrete := False\<rparr>))) (plain_update 2))"
proof -
  let ?c = "example_candidate ''x'' 1 None" and ?u = "plain_update 1\<lparr>eu_question_is_concrete := False\<rparr>"
  have "evidence_run ?c ([] @ [?u]) (rr_candidate (reconcile_disambiguation_candidate ?c ?u))"
    by (rule run_step [OF run_start]) code_simp
  from evidence_run_invariant [OF this conjunct1 [OF example_candidate_ok(2)]] show ?thesis
    by simp
qed

text \<open>A question that new evidence has resolved is opened and shown again by the next update that
  says nothing about it.\<close>

theorem resolved_question_reopened:
  "let r = reconcile_disambiguation_candidate (example_candidate ''x'' 1 None) (plain_update 1\<lparr>eu_resolves_equivalence := True\<rparr>);
       r' = reconcile_disambiguation_candidate (rr_candidate r) (plain_update 2)
   in rr_status r = DasResolved \<and> rr_semantic_decision r = DdkSameEntity \<and>
      rr_status r' = DasPending \<and> rr_semantic_decision r' = DdkAmbiguous \<and> rr_should_surface_to_user r'"
  by code_simp

definition join_id :: stable_id_fn where
  "join_id parts = join_str ''|'' parts"

definition example_result :: "decision_kind \<Rightarrow> string option \<Rightarrow> reconciliation_result" where
  "example_result d canonical = reconcile_disambiguation_candidate (example_candidate ''x'' 1 canonical)
     (plain_update 1\<lparr>eu_user_decision := Some d\<rparr>)"

lemma example_result_fields:
  "rr_status (example_result d k) = DasResolved" "rr_semantic_decision (example_result d k) = d"
  by (simp_all add: example_result_def reconcile_disambiguation_candidate_def close_with_def Let_def
      group_changed_def plain_update_def)

lemma join_id_free: "collision_free join_id (example_candidate ''x'' q k) v"
  by (simp add: collision_free_def edge_tags_def join_id_def example_defs inj_on_def)

lemma example_provenance_ok:
  "validate_provenance (provenance_for_disambiguation (example_candidate ''x'' 1 k) ''run'' None [] (PyFloat 1 ''1.0'')) = None"
  by (simp add: validate_provenance_def provenance_for_disambiguation_def example_defs opt_or_def opt_truthy_def)


theorem distinct_patch_self_edge_witness:
  "\<exists>p. build_disambiguation_patch join_id (example_candidate ''x'' 1 (Some ''b'')) (example_result DdkDistinctEntities (Some ''b''))
      ''run'' None [] (PyFloat 1 ''1.0'') = Inr p \<and>
    vr_valid (validate_maintenance_patch no_pointers p \<lparr>vc_nodes = {''a'', ''b''}, vc_edges = {}, vc_prefix = None\<rparr>) \<and>
    (''b'', ''b'') \<in> edge_ends p"
proof -
  let ?c = "example_candidate ''x'' 1 (Some ''b'')" and ?vc = "\<lparr>vc_nodes = {''a'', ''b''}, vc_edges = {}, vc_prefix = None\<rparr>"
  have "dc_canonical_entity_id ?c = Some ''b''" "''b'' \<noteq> hd (dc_entity_ids ?c)"
    "set (dc_entity_ids ?c) \<subseteq> vc_nodes ?vc" "vc_prefix ?vc \<in> {None, Some (''ws:'' @ dc_workspace_id ?c @ '':'')}"
    by (simp_all add: example_defs)
  from distinct_patch_self_edge [OF conjunct1 [OF example_candidate_ok(1)] conjunct2 [OF example_candidate_ok(1)]
      example_result_fields(1,2) this(1,2) example_provenance_ok join_id_free this(3,4)]
  show ?thesis by blast
qed

theorem review_selection_exact_witness:
  "map (dc_candidate_key \<circ> pk_candidate) (rs_selected (select_disambiguation_review_requests id
     [example_candidate ''x'' (1 / 8) None, example_candidate ''y'' 1 None] None)) = [''y'']"
proof -
  let ?cs = "[example_candidate ''x'' (1 / 8) None, example_candidate ''y'' 1 None]"
  let ?s = "select_disambiguation_review_requests id ?cs None"
  have f: "filter (surfaceable id (opt_default None default_review_policy)) ?cs = [example_candidate ''y'' 1 None]"
    by code_simp
  have n: "nat (rp_max_reviews_per_tick (opt_default None default_review_policy)) = 5" by code_simp
  note ex = review_selection_exact [of id ?cs None, unfolded f n]
  then have "length (rs_selected ?s) = 1" by simp
  then obtain p where p: "rs_selected ?s = [p]" by (auto simp: length_Suc_conv)
  have "set (map pk_candidate (rs_selected ?s @ rs_deferred ?s @ rs_skipped ?s)) = set ?cs"
    using conjunct1 [OF ex] by (rule mset_eq_setD)
  then have "pk_candidate p \<in> set ?cs" using p by auto
  moreover have "surfaceable id (opt_default None default_review_policy) (pk_candidate p)"
    using ex p by simp
  ultimately have "pk_candidate p \<in> set (filter (surfaceable id (opt_default None default_review_policy)) ?cs)" unfolding set_filter by blast
  with p show ?thesis unfolding f by (simp add: example_candidate_def)
qed

end
