(* ===== verification/Sequence_Matcher.thy ===== *)
theory Sequence_Matcher
  imports Wiki_Prelude
begin

text \<open>
  The part of \<^verbatim>\<open>difflib.SequenceMatcher\<close> that the contact matching calls: \<^verbatim>\<open>ratio\<close> of two strings
  without a junk function. The index of the second string leaves out popular characters when it has 200
  characters or more; the longest match is found row by row and extended at both ends; the parts left and
  right of it are searched in turn. \<^verbatim>\<open>get_matching_blocks\<close> merges adjacent blocks, which does not
  change the sum of their sizes. \<open>rnd\<close> rounds a quotient to the nearest double.
\<close>

section \<open>Definitions\<close>

definition popular :: "string \<Rightarrow> char \<Rightarrow> bool" where
  "popular b c \<longleftrightarrow> 200 \<le> length b \<and> length b div 100 + 1 < count_list b c"

definition b2j :: "string \<Rightarrow> char \<Rightarrow> nat list" where
  "b2j b c = (if popular b c then [] else filter (\<lambda>j. b ! j = c) [0..<length b])"

type_synonym block = "nat \<times> nat \<times> nat"

fun scan_row :: "(nat \<Rightarrow> nat) \<Rightarrow> nat \<Rightarrow> nat list \<Rightarrow> (nat \<Rightarrow> nat) \<Rightarrow> block \<Rightarrow> (nat \<Rightarrow> nat) \<times> block" where
  "scan_row j2len i [] new best = (new, best)"
| "scan_row j2len i (j # js) new best =
     (let k = (if j = 0 then 0 else j2len (j - 1)) + 1 in
      scan_row j2len i js (new(j := k)) (if snd (snd best) < k then (Suc i - k, Suc j - k, k) else best))"

fun scan_rows :: "string \<Rightarrow> string \<Rightarrow> nat \<Rightarrow> nat \<Rightarrow> nat list \<Rightarrow> (nat \<Rightarrow> nat) \<Rightarrow> block \<Rightarrow> block" where
  "scan_rows a b blo bhi [] j2len best = best"
| "scan_rows a b blo bhi (i # is) j2len best =
     (case scan_row j2len i (filter (\<lambda>j. blo \<le> j \<and> j < bhi) (b2j b (a ! i))) (\<lambda>_. 0) best of
        (new, best') \<Rightarrow> scan_rows a b blo bhi is new best')"

fun extend_back :: "string \<Rightarrow> string \<Rightarrow> nat \<Rightarrow> nat \<Rightarrow> nat \<Rightarrow> nat \<Rightarrow> nat \<Rightarrow> block" where
  "extend_back a b alo blo i j k =
     (if alo < i \<and> blo < j \<and> a ! (i - 1) = b ! (j - 1) then extend_back a b alo blo (i - 1) (j - 1) (k + 1)
      else (i, j, k))"

function extend_forward :: "string \<Rightarrow> string \<Rightarrow> nat \<Rightarrow> nat \<Rightarrow> nat \<Rightarrow> nat \<Rightarrow> nat \<Rightarrow> nat" where
  "extend_forward a b ahi bhi i j k =
     (if i + k < ahi \<and> j + k < bhi \<and> a ! (i + k) = b ! (j + k) then extend_forward a b ahi bhi i j (k + 1)
      else k)"
  by pat_completeness auto
termination by (relation "measure (\<lambda>(a, b, ahi, bhi, i, j, k). ahi - (i + k))") auto

declare extend_back.simps [simp del] extend_forward.simps [simp del]

definition find_longest_match :: "string \<Rightarrow> string \<Rightarrow> nat \<Rightarrow> nat \<Rightarrow> nat \<Rightarrow> nat \<Rightarrow> block" where
  "find_longest_match a b alo ahi blo bhi =
     (case scan_rows a b blo bhi [alo..<ahi] (\<lambda>_. 0) (alo, blo, 0) of (i, j, k) \<Rightarrow>
      case extend_back a b alo blo i j k of (i', j', k') \<Rightarrow>
        (i', j', extend_forward a b ahi bhi i' j' k'))"

section \<open>A match lies in the searched box\<close>

definition in_box :: "nat \<Rightarrow> nat \<Rightarrow> nat \<Rightarrow> nat \<Rightarrow> block \<Rightarrow> bool" where
  "in_box alo ahi blo bhi m = (case m of (i, j, k) \<Rightarrow>
     alo \<le> i \<and> i + k \<le> max alo ahi \<and> blo \<le> j \<and> j + k \<le> max blo bhi)"

lemma scan_row_box:
  assumes "scan_row j2len i js new best = (new', best')"
    and "in_box alo ahi blo bhi best" "alo \<le> i" "i < ahi"
    and "\<forall>j\<in>set js. blo \<le> j \<and> j < bhi"
    and "\<forall>j. j2len j \<le> i - alo \<and> (j2len j = 0 \<or> j2len j + blo \<le> Suc j)"
    and "\<forall>j. new j \<le> Suc i - alo \<and> (new j = 0 \<or> new j + blo \<le> Suc j)"
  shows "in_box alo ahi blo bhi best' \<and> (\<forall>j. new' j \<le> Suc i - alo \<and> (new' j = 0 \<or> new' j + blo \<le> Suc j))"
  using assms
proof (induction js arbitrary: new best)
  case (Cons j js)
  define k where "k = (if j = 0 then 0 else j2len (j - 1)) + 1"
  from Cons.prems(5) have j: "blo \<le> j" "j < bhi" by auto
  have kb: "k \<le> Suc i - alo" "k + blo \<le> Suc j"
    using Cons.prems(3,6) j by (auto simp: k_def Suc_diff_le dest: spec [where x = "j - 1"])
  have box: "in_box alo ahi blo bhi (if snd (snd best) < k then (Suc i - k, Suc j - k, k) else best)"
    using Cons.prems(2,3,4) kb j unfolding in_box_def by auto
  have new: "\<forall>j'. (new(j := k)) j' \<le> Suc i - alo \<and> ((new(j := k)) j' = 0 \<or> (new(j := k)) j' + blo \<le> Suc j')"
    using Cons.prems(7) kb by simp
  have s: "scan_row j2len i js (new(j := k)) (if snd (snd best) < k then (Suc i - k, Suc j - k, k) else best) = (new', best')"
    using Cons.prems(1) by (simp only: scan_row.simps Let_def k_def)
  show ?case
    by (rule Cons.IH [OF s box Cons.prems(3,4) _ Cons.prems(6) new]) (use Cons.prems(5) in simp)
qed simp

lemma scan_rows_box:
  assumes "in_box alo ahi blo bhi best" "alo \<le> i" "i \<le> ahi"
    and "\<forall>j. j2len j \<le> i - alo \<and> (j2len j = 0 \<or> j2len j + blo \<le> Suc j)"
  shows "in_box alo ahi blo bhi (scan_rows a b blo bhi [i..<ahi] j2len best)"
  using assms
proof (induction "ahi - i" arbitrary: i j2len best)
  case (Suc n)
  then have i: "i < ahi" by simp
  obtain new best' where r: "scan_row j2len i (filter (\<lambda>j. blo \<le> j \<and> j < bhi) (b2j b (a ! i))) (\<lambda>_. 0) best = (new, best')"
    by (metis surj_pair)
  have "in_box alo ahi blo bhi best' \<and> (\<forall>j. new j \<le> Suc i - alo \<and> (new j = 0 \<or> new j + blo \<le> Suc j))"
    by (rule scan_row_box [OF r Suc.prems(1,2) i _ Suc.prems(4)]) auto
  then have "in_box alo ahi blo bhi (scan_rows a b blo bhi [Suc i..<ahi] new best')"
    using Suc i by (intro Suc.hyps(1)) auto
  with r show ?case by (simp add: upt_conv_Cons i)
qed simp

lemma extend_back_box:
  "in_box alo ahi blo bhi (i, j, k) \<Longrightarrow> in_box alo ahi blo bhi (extend_back a b alo blo i j k)"
proof (induction a b alo blo i j k rule: extend_back.induct)
  case (1 a b alo blo i j k)
  show ?case
  proof (cases "alo < i \<and> blo < j \<and> a ! (i - 1) = b ! (j - 1)")
    case True
    moreover from True 1(2) have "in_box alo ahi blo bhi (i - 1, j - 1, k + 1)" by (auto simp: in_box_def)
    ultimately show ?thesis using 1(1) by (subst extend_back.simps) simp
  next
    case False
    then show ?thesis using 1(2) by (subst extend_back.simps) auto
  qed
qed

lemma extend_forward_box:
  "in_box alo ahi blo bhi (i, j, k) \<Longrightarrow> in_box alo ahi blo bhi (i, j, extend_forward a b ahi bhi i j k)"
proof (induction a b ahi bhi i j k rule: extend_forward.induct)
  case (1 a b ahi bhi i j k)
  show ?case
  proof (cases "i + k < ahi \<and> j + k < bhi \<and> a ! (i + k) = b ! (j + k)")
    case True
    moreover from True 1(2) have "in_box alo ahi blo bhi (i, j, k + 1)" by (auto simp: in_box_def)
    ultimately show ?thesis using 1(1) by (subst extend_forward.simps) simp
  next
    case False
    then show ?thesis using 1(2) by (subst extend_forward.simps) auto
  qed
qed

lemma find_longest_match_box: "in_box alo ahi blo bhi (find_longest_match a b alo ahi blo bhi)"
proof -
  have "in_box alo ahi blo bhi (scan_rows a b blo bhi [alo..<ahi] (\<lambda>_. 0) (alo, blo, 0))"
  proof (cases "alo \<le> ahi")
    case True
    then show ?thesis by (intro scan_rows_box) (auto simp: in_box_def)
  qed (simp add: in_box_def)
  then show ?thesis
    unfolding find_longest_match_def
    by (auto split: prod.split) (metis extend_back_box extend_forward_box)
qed

text \<open>An empty box has no match, so the search of the remaining parts ends.\<close>

lemma find_longest_match_smaller:
  assumes "find_longest_match a b alo ahi blo bhi = (i, j, k)" "k \<noteq> 0"
  shows "alo \<le> i" "i + k \<le> ahi" "blo \<le> j" "j + k \<le> bhi"
  using find_longest_match_box [of alo ahi blo bhi a b] assms by (auto simp: in_box_def max_def split: if_splits)

function match_count :: "string \<Rightarrow> string \<Rightarrow> nat \<Rightarrow> nat \<Rightarrow> nat \<Rightarrow> nat \<Rightarrow> nat" where
  "match_count a b alo ahi blo bhi =
     (case find_longest_match a b alo ahi blo bhi of (i, j, k) \<Rightarrow>
       if k = 0 then 0 else k
         + (if alo < i \<and> blo < j then match_count a b alo i blo j else 0)
         + (if i + k < ahi \<and> j + k < bhi then match_count a b (i + k) ahi (j + k) bhi else 0))"
  by pat_completeness auto
termination
  by (relation "measure (\<lambda>(a, b, alo, ahi, blo, bhi). ahi - alo)")
    (auto dest: find_longest_match_smaller [OF sym])

declare match_count.simps [simp del]

definition ratio :: "(rat \<Rightarrow> rat) \<Rightarrow> string \<Rightarrow> string \<Rightarrow> rat" where
  "ratio rnd a b = (let n = length a + length b in
     if n = 0 then 1 else rnd (of_nat (2 * match_count a b 0 (length a) 0 (length b)) / of_nat n))"

text \<open>The quotient the caller computes before it runs the matcher.\<close>

definition maximum_ratio :: "(rat \<Rightarrow> rat) \<Rightarrow> string \<Rightarrow> string \<Rightarrow> rat" where
  "maximum_ratio rnd a b = rnd (of_nat (2 * min (length a) (length b)) / of_nat (length a + length b))"

lemma match_count_bound:
  "alo \<le> ahi \<Longrightarrow> blo \<le> bhi \<Longrightarrow> match_count a b alo ahi blo bhi \<le> min (ahi - alo) (bhi - blo)"
proof (induction a b alo ahi blo bhi rule: match_count.induct)
  case (1 a b alo ahi blo bhi)
  obtain i j k where f: "find_longest_match a b alo ahi blo bhi = (i, j, k)" by (metis surj_pair)
  show ?case
  proof (cases "k = 0")
    case True
    then show ?thesis by (subst match_count.simps) (simp add: f)
  next
    case False
    note s = find_longest_match_smaller [OF f False]
    let ?l = "if alo < i \<and> blo < j then match_count a b alo i blo j else 0"
    let ?r = "if i + k < ahi \<and> j + k < bhi then match_count a b (i + k) ahi (j + k) bhi else 0"
    have "?l \<le> min (i - alo) (j - blo)" using 1(1) [OF f [symmetric]] False s by auto
    moreover have "?r \<le> min (ahi - (i + k)) (bhi - (j + k))" using 1(2) [OF f [symmetric]] False s by auto
    moreover have "match_count a b alo ahi blo bhi = k + ?l + ?r"
      using False by (subst match_count.simps) (simp add: f)
    ultimately show ?thesis using s by linarith
  qed
qed

lemma ratio_le_maximum:
  assumes "mono rnd" "a \<noteq> [] \<or> b \<noteq> []"
  shows "ratio rnd a b \<le> maximum_ratio rnd a b"
proof -
  have "match_count a b 0 (length a) 0 (length b) \<le> min (length a) (length b)"
    using match_count_bound [of 0 "length a" 0 "length b" a b] by simp
  then have "of_nat (2 * match_count a b 0 (length a) 0 (length b)) \<le> (of_nat (2 * min (length a) (length b)) :: rat)"
    by (simp only: of_nat_le_iff mult_le_mono2)
  then have "rnd (of_nat (2 * match_count a b 0 (length a) 0 (length b)) / of_nat (length a + length b)) \<le>
      rnd (of_nat (2 * min (length a) (length b)) / of_nat (length a + length b))"
    by (intro monoD [OF assms(1)] divide_right_mono) simp_all
  with assms(2) show ?thesis by (auto simp: ratio_def maximum_ratio_def Let_def)
qed

lemma maximum_ratio_sym: "maximum_ratio rnd a b = maximum_ratio rnd b a"
  by (simp add: maximum_ratio_def add.commute min.commute)

end
