(* ===== verification/Contact_Matching.thy ===== *)
theory Contact_Matching
  imports Disambiguation Sequence_Matcher Json_Text
begin

text \<open>
  Discovery of contact records that may be the same person (disambiguation/contact\_matching.py). The
  Unicode database is an argument: normalization, case folding, and the letters and names of characters.
  So are the digest \<^verbatim>\<open>sha256\<close> of a text and, in \<open>contact_floats\<close>, the rounding of a float
  operation, \<^verbatim>\<open>round(x, 4)\<close> and \<^verbatim>\<open>repr\<close> of a float.
\<close>

section \<open>Observations\<close>

record unicode_db =
  ud_nfkc :: "string \<Rightarrow> string"
  ud_casefold :: "string \<Rightarrow> string"
  ud_isalpha :: "char \<Rightarrow> bool"
  ud_name :: "char \<Rightarrow> string"

text \<open>\<^verbatim>\<open>str.split\<close> at runs of white space, and \<^verbatim>\<open>dict.fromkeys\<close>, which keeps the first of equal keys.\<close>

fun split_words :: "string \<Rightarrow> string \<Rightarrow> string list" where
  "split_words word [] = (if word = [] then [] else [rev word])"
| "split_words word (c # cs) =
     (if py_isspace c then (if word = [] then [] else [rev word]) @ split_words [] cs
      else split_words (c # word) cs)"

definition py_split :: "string \<Rightarrow> string list" where
  "py_split s = split_words [] s"

definition unique_first :: "'a list \<Rightarrow> 'a list" where
  "unique_first xs = rev (remdups (rev xs))"

definition has_control :: "string \<Rightarrow> bool" where
  "has_control s \<longleftrightarrow> (\<exists>c\<in>set s. code_of c < 32 \<or> code_of c = 127)"

datatype verification = VerClaimed | VerProvider | VerUser

fun verification_value :: "verification \<Rightarrow> string" where
  "verification_value VerClaimed = ''claimed''"
| "verification_value VerProvider = ''provider_verified''"
| "verification_value VerUser = ''user_confirmed''"

fun trust_rank :: "verification \<Rightarrow> nat" where
  "trust_rank VerClaimed = 0" | "trust_rank VerProvider = 1" | "trust_rank VerUser = 2"

record contact_point =
  cp_channel :: string
  cp_value :: string
  cp_provider :: "string option"
  cp_verification :: verification

text \<open>The pattern \<^verbatim>\<open>[a-z][a-z0-9_.-]{0,63}\<close>.\<close>

definition lower_letter :: "char \<Rightarrow> bool" where
  "lower_letter c \<longleftrightarrow> 97 \<le> code_of c \<and> code_of c \<le> 122"

definition channel_pattern :: "string \<Rightarrow> bool" where
  "channel_pattern s = (case s of [] \<Rightarrow> False
     | c # cs \<Rightarrow> lower_letter c \<and> length cs \<le> 63 \<and>
         list_all (\<lambda>d. lower_letter d \<or> is_digit d \<or> d \<in> set ''_.-'') cs)"

definition too_long :: "nat \<Rightarrow> string option \<Rightarrow> bool" where
  "too_long n v = (case v of None \<Rightarrow> False | Some s \<Rightarrow> n < length s)"

definition contact_point_claim :: "unicode_db \<Rightarrow> contact_point \<Rightarrow> contact_point result" where
  "contact_point_claim db p =
     (let channel = ud_casefold db (py_strip (cp_channel p));
          val = py_strip (cp_value p);
          prov = ud_casefold db (py_strip (opt_str (cp_provider p)));
          provider = (if prov = [] then None else Some prov) in
      check_then (checks
        [raise_if (cp_value p = [] \<or> 512 < length (cp_value p)) (ValueError ''value''),
         raise_if (too_long 128 (cp_provider p)) (ValueError ''provider''),
         raise_if (\<not> channel_pattern channel) (ValueError ''contact channel must be a normalized identifier''),
         raise_if (val = []) (ValueError ''contact point value must not be empty''),
         raise_if (has_control val \<or> has_control (opt_str provider))
           (ValueError ''contact point values must not contain control characters'')])
      (Inr (p\<lparr>cp_channel := channel, cp_value := val, cp_provider := provider\<rparr>)))"

record contact_observation =
  co_workspace_id :: string
  co_stream_id :: string
  co_entity_id :: string
  co_source_document_ids :: "string list"
  co_evidence_revision_ids :: "string list"
  co_source_document_count :: "int option"
  co_evidence_revision_count :: "int option"
  co_observed_at_ms :: int
  co_display_names :: "string list"
  co_display_name_count :: "int option"
  co_evidence_fingerprint :: "string option"
  co_contact_points :: "contact_point list"

fun clean_loop :: "string \<Rightarrow> string list \<Rightarrow> string list \<Rightarrow> string list result" where
  "clean_loop name cleaned [] = Inr cleaned"
| "clean_loop name cleaned (v # vs) = (let item = py_strip v in
     if item = [] \<or> 512 < length item \<or> has_control item
     then Inl (ValueError (name @ '' contains an invalid identifier''))
     else clean_loop name (if item \<in> set cleaned then cleaned else cleaned @ [item]) vs)"

definition clean_identifiers :: "string list \<Rightarrow> string \<Rightarrow> string list result" where
  "clean_identifiers vs name = clean_loop name [] vs"

definition point_row :: "contact_point \<Rightarrow> string list" where
  "point_row p = [cp_channel p, opt_str (cp_provider p), cp_value p, verification_value (cp_verification p)]"

definition json_list :: "string list \<Rightarrow> json" where
  "json_list xs = JArr (map JStr xs)"

definition sorted_set :: "'a::linorder list \<Rightarrow> 'a list" where
  "sorted_set xs = sort (remdups xs)"

definition point_rows_json :: "contact_point list \<Rightarrow> json" where
  "point_rows_json ps = JArr (map json_list (sort (map point_row ps)))"

definition contact_observation_evidence_fingerprint ::
    "hash_fn \<Rightarrow> string list \<Rightarrow> string list \<Rightarrow> string list \<Rightarrow> contact_point list \<Rightarrow> (string \<times> int) list \<Rightarrow> string" where
  "contact_observation_evidence_fingerprint sha docs revs names points last_seen =
     sha (json_dumps json_char True (JObj
       [(''source_documents'', json_list (sorted_set docs)),
        (''evidence_revisions'', json_list (sorted_set revs)),
        (''display_names'', json_list (sort names)),
        (''display_name_last_seen_ms'', JObj (map (map_prod id JInt) (sort last_seen))),
        (''contact_points'', point_rows_json points)]))"

definition hex_fingerprint :: "string \<Rightarrow> bool" where
  "hex_fingerprint s \<longleftrightarrow> length s = 64 \<and> list_all (\<lambda>c. is_digit c \<or> (97 \<le> code_of c \<and> code_of c \<le> 102)) s"

definition length_between :: "nat \<Rightarrow> nat \<Rightarrow> 'a list \<Rightarrow> bool" where
  "length_between lo hi xs \<longleftrightarrow> lo \<le> length xs \<and> length xs \<le> hi"

definition opt_below :: "int \<Rightarrow> int option \<Rightarrow> bool" where
  "opt_below n v = (case v of None \<Rightarrow> False | Some i \<Rightarrow> i < n)"

definition validate_observation_fields :: "contact_observation \<Rightarrow> check" where
  "validate_observation_fields o1 = checks
     [raise_if (\<not> length_between 1 256 (co_workspace_id o1)) (ValueError ''workspace_id''),
      raise_if (\<not> length_between 1 256 (co_stream_id o1)) (ValueError ''stream_id''),
      raise_if (\<not> length_between 1 512 (co_entity_id o1)) (ValueError ''entity_id''),
      raise_if (\<not> length_between 1 64 (co_source_document_ids o1)) (ValueError ''source_document_ids''),
      raise_if (\<not> length_between 1 64 (co_evidence_revision_ids o1)) (ValueError ''evidence_revision_ids''),
      raise_if (opt_below 1 (co_source_document_count o1)) (ValueError ''source_document_count''),
      raise_if (opt_below 1 (co_evidence_revision_count o1)) (ValueError ''evidence_revision_count''),
      raise_if (co_observed_at_ms o1 < 0) (ValueError ''observed_at_ms''),
      raise_if (32 < length (co_display_names o1)) (ValueError ''display_names''),
      raise_if (opt_below 0 (co_display_name_count o1)) (ValueError ''display_name_count''),
      raise_if (case co_evidence_fingerprint o1 of None \<Rightarrow> False | Some f \<Rightarrow> \<not> hex_fingerprint f)
        (ValueError ''evidence_fingerprint''),
      raise_if (128 < length (co_contact_points o1)) (ValueError ''contact_points'')]"

definition required_text :: "string \<Rightarrow> string \<Rightarrow> check" where
  "required_text name v = raise_if (py_strip v = [] \<or> has_control (py_strip v)) (ValueError (name @ '' must not be empty''))"

definition count_or_length :: "int option \<Rightarrow> string list \<Rightarrow> int" where
  "count_or_length v xs = (case v of None \<Rightarrow> int (length xs) | Some n \<Rightarrow> if n = 0 then int (length xs) else n)"

definition contact_identity_observation :: "hash_fn \<Rightarrow> contact_observation \<Rightarrow> contact_observation result" where
  "contact_identity_observation sha o1 =
     check_then (checks [validate_observation_fields o1, required_text ''workspace_id'' (co_workspace_id o1),
         required_text ''stream_id'' (co_stream_id o1), required_text ''entity_id'' (co_entity_id o1)])
     (res_bind (clean_identifiers (co_source_document_ids o1) ''source_document_ids'') (\<lambda>documents.
      let document_count = count_or_length (co_source_document_count o1) documents in
      check_then (checks
         [raise_if (documents = []) (ValueError ''contact observation requires source document evidence''),
          raise_if (document_count < int (length documents))
            (ValueError ''source_document_count cannot be smaller than its sample'')])
      (res_bind (clean_identifiers (co_evidence_revision_ids o1) ''evidence_revision_ids'') (\<lambda>revisions.
       let revision_count = count_or_length (co_evidence_revision_count o1) revisions;
           names = unique_first (filter (\<lambda>n. n \<noteq> []) (map py_strip (co_display_names o1)));
           name_count = (case co_display_name_count o1 of None \<Rightarrow> int (length names) | Some n \<Rightarrow> n) in
       check_then (checks
          [raise_if (revisions = []) (ValueError ''contact observation requires immutable evidence revision IDs''),
           raise_if (revision_count < int (length revisions))
             (ValueError ''evidence_revision_count cannot be smaller than its sample''),
           raise_if (\<exists>n\<in>set names. 256 < length n \<or> has_control n)
             (ValueError ''display names exceed the bound or contain control characters''),
           raise_if (name_count < int (length names))
             (ValueError ''display_name_count cannot be smaller than its sample''),
           raise_if (names = [] \<and> co_contact_points o1 = [])
             (ValueError ''contact observation requires a name or contact point''),
           raise_if (co_evidence_fingerprint o1 = None \<and>
               (int (length documents) < document_count \<or> int (length revisions) < revision_count \<or>
                int (length names) < name_count))
             (ValueError ''truncated contact evidence requires a full evidence_fingerprint'')])
       (Inr (o1\<lparr>co_workspace_id := py_strip (co_workspace_id o1), co_stream_id := py_strip (co_stream_id o1),
          co_entity_id := py_strip (co_entity_id o1), co_source_document_ids := documents,
          co_source_document_count := Some document_count, co_evidence_revision_ids := revisions,
          co_evidence_revision_count := Some revision_count, co_display_names := names,
          co_display_name_count := Some name_count,
          co_evidence_fingerprint := (if co_evidence_fingerprint o1 = None
            then Some (contact_observation_evidence_fingerprint sha documents revisions names (co_contact_points o1) [])
            else co_evidence_fingerprint o1)\<rparr>))))))"

section \<open>Matching one pair\<close>

record contact_floats =
  cf_round :: "rat \<Rightarrow> rat"
  cf_round4 :: "rat \<Rightarrow> rat"
  cf_repr :: "rat \<Rightarrow> string"

type_synonym point_key = "string \<times> string \<times> string"

definition point_key_of :: "contact_point \<Rightarrow> point_key" where
  "point_key_of p = (cp_channel p, opt_str (cp_provider p), cp_value p)"

definition normalize_name :: "unicode_db \<Rightarrow> string \<Rightarrow> string" where
  "normalize_name db v = join_str '' '' (py_split (ud_casefold db (ud_nfkc db v)))"

definition east_asian_prefixes :: "string list" where
  "east_asian_prefixes = [''BOPOMOFO'', ''CJK UNIFIED IDEOGRAPH'', ''HIRAGANA'', ''KATAKANA'', ''HANGUL'']"

definition is_matchable_name :: "unicode_db \<Rightarrow> string \<Rightarrow> bool" where
  "is_matchable_name db v \<longleftrightarrow> 2 \<le> length (py_split v) \<or>
     (let letters = filter (ud_isalpha db) v in
      2 \<le> length letters \<and>
      list_ex (\<lambda>c. list_ex (py_startswith (ud_name db c)) east_asian_prefixes) letters)"

definition strongest_claims :: "contact_observation \<Rightarrow> (point_key \<times> nat) list" where
  "strongest_claims o1 = fold (\<lambda>p claims. let key = point_key_of p in
       AList.update key (max (case map_of claims key of None \<Rightarrow> 0 | Some r \<Rightarrow> r) (trust_rank (cp_verification p))) claims)
     (co_contact_points o1) []"

record pair_evidence =
  me_basis :: string
  me_similarity :: rat
  me_channels :: "string list"
  me_matched_channels :: "string list"
  me_verification :: "verification option"

definition verification_of_rank :: "nat \<Rightarrow> verification" where
  "verification_of_rank n = (if n = 2 then VerUser else if n = 1 then VerProvider else VerClaimed)"

definition matchable_names :: "unicode_db \<Rightarrow> contact_observation \<Rightarrow> string list" where
  "matchable_names db o1 = filter (is_matchable_name db) (map (normalize_name db) (co_display_names o1))"

definition best_similarity :: "unicode_db \<Rightarrow> (rat \<Rightarrow> rat) \<Rightarrow> contact_observation \<Rightarrow> contact_observation \<Rightarrow> rat" where
  "best_similarity db rnd l r =
     fold (\<lambda>m best. fold (\<lambda>n best'. max best' (ratio rnd m n)) (matchable_names db r) best)
       (matchable_names db l) 0"

definition match_evidence ::
    "unicode_db \<Rightarrow> (rat \<Rightarrow> rat) \<Rightarrow> contact_observation \<Rightarrow> contact_observation \<Rightarrow> rat \<Rightarrow> pair_evidence option" where
  "match_evidence db rnd l r fuzzy =
     (let lc = strongest_claims l; rc = strongest_claims r;
          shared = filter (\<lambda>k. k \<in> set (map fst rc)) (map fst lc);
          channels = sorted_set (map cp_channel (co_contact_points l @ co_contact_points r)) in
      if shared \<noteq> [] then
        Some \<lparr>me_basis = ''shared_contact_point'', me_similarity = 1, me_channels = channels,
          me_matched_channels = sorted_set (map fst shared),
          me_verification = Some (verification_of_rank
            (Max (set (map (\<lambda>k. min (the (map_of lc k)) (the (map_of rc k))) shared))))\<rparr>
      else let best = best_similarity db rnd l r in
        if best = 1 then Some \<lparr>me_basis = ''exact_name'', me_similarity = best, me_channels = channels,
          me_matched_channels = [], me_verification = None\<rparr>
        else if fuzzy \<le> best then Some \<lparr>me_basis = ''similar_name'', me_similarity = best, me_channels = channels,
          me_matched_channels = [], me_verification = None\<rparr>
        else None)"

definition fuzzy_bound :: "threshold \<Rightarrow> rat result" where
  "fuzzy_bound t = (case t of
       TFin q \<Rightarrow> if 1 / 2 \<le> q \<and> q \<le> 1 then Inr q
         else Inl (ValueError ''fuzzy_name_threshold must be between 0.5 and 1'')
     | _ \<Rightarrow> Inl (ValueError ''fuzzy_name_threshold must be between 0.5 and 1''))"

definition contact_match_basis ::
    "unicode_db \<Rightarrow> (rat \<Rightarrow> rat) \<Rightarrow> contact_observation \<Rightarrow> contact_observation \<Rightarrow> threshold \<Rightarrow> string option result" where
  "contact_match_basis db rnd l r t =
     check_then (raise_if (co_workspace_id l \<noteq> co_workspace_id r)
         (ValueError ''contact match evidence cannot cross workspace boundaries''))
       (res_bind (fuzzy_bound t) (\<lambda>q. Inr (map_option me_basis (match_evidence db rnd l r q))))"

definition snapshot_observation :: "contact_observation \<Rightarrow> json" where
  "snapshot_observation o1 = JObj
     [(''entity_id'', JStr (co_entity_id o1)), (''stream_id'', JStr (co_stream_id o1)),
      (''source_documents'', json_list (sort (co_source_document_ids o1))),
      (''source_document_count'', case co_source_document_count o1 of None \<Rightarrow> JNull | Some n \<Rightarrow> JInt n),
      (''evidence_revisions'', json_list (sort (co_evidence_revision_ids o1))),
      (''evidence_revision_count'', case co_evidence_revision_count o1 of None \<Rightarrow> JNull | Some n \<Rightarrow> JInt n),
      (''evidence_fingerprint'', case co_evidence_fingerprint o1 of None \<Rightarrow> JNull | Some f \<Rightarrow> JStr f),
      (''observed_at_ms'', JInt (co_observed_at_ms o1)),
      (''display_names'', json_list (sort (co_display_names o1))),
      (''display_name_count'', case co_display_name_count o1 of None \<Rightarrow> JNull | Some n \<Rightarrow> JInt n),
      (''contact_points'', point_rows_json (co_contact_points o1))]"

definition contact_evidence_snapshot_id ::
    "hash_fn \<Rightarrow> contact_observation \<Rightarrow> contact_observation \<Rightarrow> string \<Rightarrow> string result" where
  "contact_evidence_snapshot_id sha l r basis =
     (if co_workspace_id l \<noteq> co_workspace_id r \<or> co_entity_id l = co_entity_id r
      then Inl (ValueError ''contact evidence snapshot requires two distinct same-workspace entities'')
      else Inr (''sha256:'' @ sha (json_dumps json_char True (JObj
        [(''workspace_id'', JStr (co_workspace_id l)),
         (''entities'', json_list (sort [co_entity_id l, co_entity_id r])),
         (''source_documents'', json_list (sorted_set (co_source_document_ids l @ co_source_document_ids r))),
         (''evidence_revisions'', json_list (sorted_set (co_evidence_revision_ids l @ co_evidence_revision_ids r))),
         (''observed_at_ms'', JArr (map JInt (sort [co_observed_at_ms l, co_observed_at_ms r]))),
         (''observations'', JArr (map snapshot_observation (sort_key co_entity_id [l, r]))),
         (''basis'', JStr basis)]))))"

text \<open>The literals of the source with the doubles they denote; \<open>computed\<close> is a float the code computes.\<close>

definition computed :: "contact_floats \<Rightarrow> rat \<Rightarrow> pyfloat" where
  "computed cf q = PyFloat q (cf_repr cf q)"

definition scaled :: "contact_floats \<Rightarrow> rat \<Rightarrow> rat \<Rightarrow> rat" where
  "scaled cf factor similarity = cf_round cf (8106479329266893 / 18014398509481984 + cf_round cf (factor * similarity))"

definition shared_likelihood :: "verification option \<Rightarrow> pyfloat" where
  "shared_likelihood v = (case opt_default v VerClaimed of
       VerClaimed \<Rightarrow> PyFloat (7385903388887613 / 9007199254740992) ''0.82''
     | VerProvider \<Rightarrow> PyFloat (8106479329266893 / 9007199254740992) ''0.9''
     | VerUser \<Rightarrow> PyFloat (1080863910568919 / 1125899906842624) ''0.96'')"

definition basis_scores :: "contact_floats \<Rightarrow> pair_evidence \<Rightarrow> pyfloat \<times> pyfloat \<times> pyfloat \<times> string" where
  "basis_scores cf ev =
     (if me_basis ev = ''shared_contact_point'' then
        (shared_likelihood (me_verification ev), PyFloat (8106479329266893 / 9007199254740992) ''0.9'',
         PyFloat (8106479329266893 / 9007199254740992) ''0.9'',
         ''A channel-qualified contact point is shared across source observations; person identity still requires review.'')
      else if me_basis ev = ''exact_name'' then
        (PyFloat (5224175567749775 / 9007199254740992) ''0.58'', PyFloat (5224175567749775 / 9007199254740992) ''0.58'',
         PyFloat (5584463537939415 / 9007199254740992) ''0.62'',
         ''Names match across source observations; no shared contact point was found.'')
      else
        (computed cf (min (3242591731706757 / 4503599627370496)
           (scaled cf (3602879701896397 / 18014398509481984) (me_similarity ev))),
         computed cf (min (6124895493223875 / 9007199254740992)
           (scaled cf (5764607523034235 / 36028797018963968) (me_similarity ev))),
         PyFloat (1170935903116329 / 2251799813685248) ''0.52'',
         ''Names are similar across source observations; no shared contact point was found.''))"

definition document_count_of :: "contact_observation \<Rightarrow> int" where
  "document_count_of o1 = count_or_length (co_source_document_count o1) (co_source_document_ids o1)"

definition contact_candidate_key :: "hash_fn \<Rightarrow> contact_observation \<Rightarrow> contact_observation \<Rightarrow> string" where
  "contact_candidate_key sha l r = ''contact-match:'' @ sha (json_dumps json_char True (JObj
     [(''workspace'', JStr (co_workspace_id l)), (''entities'', json_list (sort [co_entity_id l, co_entity_id r]))]))"

definition contact_metadata ::
    "contact_floats \<Rightarrow> contact_observation \<Rightarrow> contact_observation \<Rightarrow> pair_evidence \<Rightarrow> json_object" where
  "contact_metadata cf l r ev =
     [(''match_basis'', JStr (me_basis ev)),
      (''channels'', JStr (join_str '','' (me_channels ev))),
      (''matched_channels'', JStr (join_str '','' (me_matched_channels ev))),
      (''source_stream_ids'', JStr (json_strings (sorted_set [co_stream_id l, co_stream_id r]))),
      (''name_similarity'', JFloat (computed cf (cf_round4 cf (me_similarity ev)))),
      (''contact_point_verification'',
         case me_verification ev of None \<Rightarrow> JNull | Some v \<Rightarrow> JStr (verification_value v)),
      (''source_document_observation_count'', JInt (document_count_of l + document_count_of r)),
      (''source_document_sampled'', JBool (int (length (co_source_document_ids l)) < document_count_of l \<or>
         int (length (co_source_document_ids r)) < document_count_of r)),
      (''automatic_merge'', JBool False)]"

definition candidate_of ::
    "hash_fn \<Rightarrow> contact_floats \<Rightarrow> contact_observation \<Rightarrow> contact_observation \<Rightarrow> pair_evidence \<Rightarrow> string \<Rightarrow>
     disambiguation_candidate" where
  "candidate_of sha cf l r ev snapshot = (case basis_scores cf ev of (likelihood, priority, risk, summary) \<Rightarrow>
     \<lparr>dc_artifact_id = contact_candidate_key sha l r, dc_workspace_id = co_workspace_id l,
      dc_candidate_key = contact_candidate_key sha l r,
      dc_entity_ids = sort [co_entity_id l, co_entity_id r], dc_evidence_snapshot_id = snapshot,
      dc_evidence_cutoff_ms = max (co_observed_at_ms l) (co_observed_at_ms r),
      dc_last_reconciled_evidence_version = 0, dc_artifact_status = DasPending, dc_resolution_source = DrsNone,
      dc_semantic_decision = DdkAmbiguous,
      dc_question = ''Could these contact records refer to the same person?'', dc_question_is_concrete = True,
      dc_evidence_summary = summary, dc_canonical_entity_id = None, dc_related_entity_ids = [],
      dc_replacement_question = None,
      dc_source_document_ids = sorted_set (co_source_document_ids l @ co_source_document_ids r),
      dc_source_span_ids = [],
      dc_score_bundle = \<lparr>sb_merge_likelihood = likelihood,
        sb_distinction_pressure = (if me_basis ev = ''shared_contact_point'' then PyFloat (1 / 4) ''0.25''
          else PyFloat (2476979795053773 / 4503599627370496) ''0.55''),
        sb_review_priority = priority, sb_usage_frequency = document_count_of l + document_count_of r,
        sb_answer_risk = risk\<rparr>,
      dc_metadata = contact_metadata cf l r ev\<rparr>)"

definition make_candidate ::
    "hash_fn \<Rightarrow> contact_floats \<Rightarrow> contact_observation \<Rightarrow> contact_observation \<Rightarrow> pair_evidence \<Rightarrow>
     disambiguation_candidate result" where
  "make_candidate sha cf l r ev =
     res_bind (contact_evidence_snapshot_id sha l r (me_basis ev)) (\<lambda>snapshot.
       check_then (validate_candidate (candidate_of sha cf l r ev snapshot))
         (Inr (candidate_of sha cf l r ev snapshot)))"

section \<open>The scan\<close>

record match_scan =
  ms_candidates :: "(string \<times> disambiguation_candidate) list"
  ms_considered :: "(nat \<times> nat) set"

definition consider_pair ::
    "unicode_db \<Rightarrow> hash_fn \<Rightarrow> contact_floats \<Rightarrow> int \<Rightarrow> rat \<Rightarrow> contact_observation list \<Rightarrow> nat \<times> nat \<Rightarrow>
     match_scan \<Rightarrow> match_scan result" where
  "consider_pair db sha cf max_candidates fuzzy ordered pair st = (case pair of (i, j) \<Rightarrow>
     if i = j \<or> pair \<in> ms_considered st then Inr st else
     let st1 = st\<lparr>ms_considered := insert pair (ms_considered st)\<rparr>; l = ordered ! i; r = ordered ! j in
     (case match_evidence db (cf_round cf) l r fuzzy of
        None \<Rightarrow> Inr st1
      | Some ev \<Rightarrow> res_bind (make_candidate sha cf l r ev) (\<lambda>c.
          let cs = AList.update (dc_candidate_key c) c (ms_candidates st1) in
          check_then (raise_if (max_candidates < int (length cs))
              (ValueError ''contact match scan exceeds max_candidates''))
            (Inr (st1\<lparr>ms_candidates := cs\<rparr>)))))"

text \<open>\<^verbatim>\<open>setdefault(key, set()).add(index)\<close>, and \<^verbatim>\<open>combinations(items, 2)\<close>.\<close>

definition add_index :: "nat \<Rightarrow> 'k \<Rightarrow> ('k \<times> nat set) list \<Rightarrow> ('k \<times> nat set) list" where
  "add_index i key d = AList.update key (insert i (case map_of d key of None \<Rightarrow> {} | Some s \<Rightarrow> s)) d"

fun pairs_of :: "'a list \<Rightarrow> ('a \<times> 'a) list" where
  "pairs_of [] = []"
| "pairs_of (x # xs) = map (Pair x) xs @ pairs_of xs"

definition index_by :: "('o \<Rightarrow> 'k list) \<Rightarrow> 'o list \<Rightarrow> ('k \<times> nat set) list" where
  "index_by keys os = fold (\<lambda>io d. fold (add_index (fst io)) (keys (snd io)) d) (enumerate 0 os) []"

definition entities_by_point :: "contact_observation list \<Rightarrow> (point_key \<times> nat set) list" where
  "entities_by_point ordered = index_by (\<lambda>o1. map point_key_of (co_contact_points o1)) ordered"

definition entities_by_name :: "unicode_db \<Rightarrow> contact_observation list \<Rightarrow> (string \<times> nat set) list" where
  "entities_by_name db ordered = index_by (matchable_names db) ordered"

definition bucket_pairs :: "('k \<times> nat set) list \<Rightarrow> (nat \<times> nat) list" where
  "bucket_pairs d = concat (map (\<lambda>ks. pairs_of (sorted_list_of_set (snd ks))) d)"

definition indexes_of :: "(string \<times> nat set) list \<Rightarrow> string \<Rightarrow> nat list" where
  "indexes_of d name = sorted_list_of_set (case map_of d name of None \<Rightarrow> {} | Some s \<Rightarrow> s)"

definition ordered_pair :: "nat \<Rightarrow> nat \<Rightarrow> nat \<times> nat" where
  "ordered_pair i j = (if i < j then (i, j) else (j, i))"

definition name_pairs :: "(string \<times> nat set) list \<Rightarrow> string \<times> string \<Rightarrow> (nat \<times> nat) list" where
  "name_pairs d mn = concat (map (\<lambda>i. map (ordered_pair i) (indexes_of d (snd mn))) (indexes_of d (fst mn)))"

definition compare_names ::
    "unicode_db \<Rightarrow> hash_fn \<Rightarrow> contact_floats \<Rightarrow> int \<Rightarrow> int \<Rightarrow> rat \<Rightarrow> contact_observation list \<Rightarrow>
     (string \<times> nat set) list \<Rightarrow> string \<times> string \<Rightarrow> int \<times> match_scan \<Rightarrow> (int \<times> match_scan) result" where
  "compare_names db sha cf max_candidates max_fuzzy fuzzy ordered by_name mn st = (case (mn, st) of ((m, n), (comparisons, scan)) \<Rightarrow>
     if maximum_ratio (cf_round cf) m n < fuzzy then Inr st
     else if max_fuzzy < comparisons + 1 then Inl (ValueError ''contact match scan exceeds max_fuzzy_name_comparisons'')
     else if ratio (cf_round cf) m n < fuzzy \<and> ratio (cf_round cf) n m < fuzzy then Inr (comparisons + 1, scan)
     else res_bind (fold_res (consider_pair db sha cf max_candidates fuzzy ordered) (name_pairs by_name mn) scan)
       (\<lambda>scan'. Inr (comparisons + 1, scan')))"

definition scan_contacts ::
    "unicode_db \<Rightarrow> hash_fn \<Rightarrow> contact_floats \<Rightarrow> int \<Rightarrow> int \<Rightarrow> rat \<Rightarrow> contact_observation list \<Rightarrow>
     disambiguation_candidate list result" where
  "scan_contacts db sha cf max_candidates max_fuzzy fuzzy ordered =
     (let by_point = entities_by_point ordered; by_name = entities_by_name db ordered;
          consider1 = consider_pair db sha cf max_candidates fuzzy ordered in
      res_bind (fold_res consider1 (bucket_pairs by_point) \<lparr>ms_candidates = [], ms_considered = {}\<rparr>) (\<lambda>s1.
      res_bind (fold_res consider1 (bucket_pairs by_name) s1) (\<lambda>s2.
      res_bind (fold_res (compare_names db sha cf max_candidates max_fuzzy fuzzy ordered by_name)
          (pairs_of (sort (map fst by_name))) (0, s2)) (\<lambda>s3.
      Inr (map snd (sort_key fst (ms_candidates (snd s3))))))))"

definition discover_contact_match_candidates ::
    "unicode_db \<Rightarrow> hash_fn \<Rightarrow> contact_floats \<Rightarrow> (string \<Rightarrow> string \<Rightarrow> bool) \<Rightarrow> int \<Rightarrow> int \<Rightarrow> int \<Rightarrow> threshold \<Rightarrow>
     contact_observation list \<Rightarrow> disambiguation_candidate list result" where
  "discover_contact_match_candidates db sha cf authorize max_observations max_candidates max_fuzzy t items =
     check_then (raise_if (max_observations \<le> 0 \<or> max_candidates \<le> 0 \<or> max_fuzzy \<le> 0)
         (ValueError ''candidate bounds must be positive''))
     (res_bind (fuzzy_bound t) (\<lambda>fuzzy.
      check_then (raise_if (max_observations < int (length items))
          (ValueError ''contact observation batch exceeds max_observations''))
      (case items of [] \<Rightarrow> Inr []
       | item # _ \<Rightarrow>
         check_then (checks
           [raise_if (\<exists>o1\<in>set items. co_workspace_id o1 \<noteq> co_workspace_id item)
              (ValueError ''contact match scan cannot cross workspace boundaries''),
            raise_if (\<not> distinct (map co_entity_id items))
              (ValueError ''contact match scan requires one aggregated observation per entity''),
            first_error (\<lambda>stream. raise_if (\<not> authorize (co_workspace_id item) stream)
                (PermissionError ''contact match scan is not authorized for every source stream''))
              (sorted_set (map co_stream_id items))])
         (scan_contacts db sha cf max_candidates max_fuzzy fuzzy (sort_key co_entity_id items)))))"

section \<open>Indexes and pairs\<close>

lemma pairs_of_map: "pairs_of (map f xs) = map (map_prod f f) (pairs_of xs)"
  by (induction xs) (auto simp: comp_def)

lemma set_pairs_of_sorted:
  "sorted_wrt (<) xs \<Longrightarrow> set (pairs_of xs) = {(x, y). x \<in> set xs \<and> y \<in> set xs \<and> (x::'a::linorder) < y}"
  by (induction xs) auto

lemma set_pairs_of_nat:
  "finite S \<Longrightarrow> (i, j) \<in> set (pairs_of (sorted_list_of_set S)) \<longleftrightarrow> i \<in> S \<and> j \<in> S \<and> (i::nat) < j"
  by (simp add: set_pairs_of_sorted)

lemma set_pairs_of: "set (pairs_of xs) \<subseteq> set xs \<times> set xs"
  by (induction xs) auto

lemma distinct_pairs_of: "distinct xs \<Longrightarrow> distinct (pairs_of xs)"
  by (induction xs) (use set_pairs_of in \<open>auto simp: distinct_map inj_on_def\<close>)

definition lookup_set :: "('k \<times> nat set) list \<Rightarrow> 'k \<Rightarrow> nat set" where
  "lookup_set d k = (case map_of d k of None \<Rightarrow> {} | Some s \<Rightarrow> s)"

lemma lookup_add_index:
  "lookup_set (add_index i key d) k = (if k = key then insert i (lookup_set d k) else lookup_set d k)"
  by (simp add: lookup_set_def add_index_def update_conv)

lemma lookup_add_indexes:
  "lookup_set (fold (add_index i) keys d) k = (if k \<in> set keys then insert i (lookup_set d k) else lookup_set d k)"
  by (induction keys arbitrary: d) (auto simp: lookup_add_index)

lemma dom_add_indexes:
  "fst ` set (fold (add_index i) keys d) = fst ` set d \<union> set keys"
  by (induction keys arbitrary: d) (auto simp: add_index_def dom_update)

lemma distinct_add_indexes:
  "distinct (map fst d) \<Longrightarrow> distinct (map fst (fold (add_index i) keys d))"
  by (induction keys arbitrary: d) (auto simp: add_index_def distinct_update)

lemma index_by_props:
  "lookup_set (index_by keys os) k = {i. i < length os \<and> k \<in> set (keys (os ! i))} \<and>
   fst ` set (index_by keys os) = (\<Union>o1\<in>set os. set (keys o1)) \<and> distinct (map fst (index_by keys os))"
proof (induction os rule: rev_induct)
  case Nil
  then show ?case by (simp add: index_by_def lookup_set_def)
next
  case (snoc o1 os)
  have e: "index_by keys (os @ [o1]) = fold (add_index (length os)) (keys o1) (index_by keys os)"
    by (simp add: index_by_def enumerate_append_eq)
  from snoc show ?case
    unfolding e lookup_add_indexes dom_add_indexes
    by (auto simp: nth_append less_Suc_eq distinct_add_indexes)
qed

lemma lookup_entry: "distinct (map fst d) \<Longrightarrow> (k, s) \<in> set d \<Longrightarrow> lookup_set d k = s"
  by (simp add: lookup_set_def)

lemma set_bucket_pairs:
  "set (bucket_pairs (index_by keys os)) =
     {(i, j). i < j \<and> j < length os \<and> set (keys (os ! i)) \<inter> set (keys (os ! j)) \<noteq> {}}"
proof -
  let ?d = "index_by keys os"
  note p = index_by_props [of keys os]
  have entry: "(i, j) \<in> set (pairs_of (sorted_list_of_set (snd ks))) \<longleftrightarrow>
      i < j \<and> j < length os \<and> fst ks \<in> set (keys (os ! i)) \<inter> set (keys (os ! j))" if "ks \<in> set ?d" for i j ks
  proof -
    have "snd ks = {i. i < length os \<and> fst ks \<in> set (keys (os ! i))}"
      using p lookup_entry [of ?d "fst ks" "snd ks"] that by simp
    moreover have "(i, j) \<in> set (pairs_of (sorted_list_of_set {i. i < length os \<and> k \<in> set (keys (os ! i))})) \<longleftrightarrow>
        i < j \<and> j < length os \<and> k \<in> set (keys (os ! i)) \<inter> set (keys (os ! j))" for k
      by (subst set_pairs_of_nat) auto
    ultimately show ?thesis by (simp only:)
  qed
  have dom: "fst ` set ?d = (\<Union>o1\<in>set os. set (keys o1))" using p by blast
  have "(i, j) \<in> set (bucket_pairs ?d) \<longleftrightarrow>
      i < j \<and> j < length os \<and> set (keys (os ! i)) \<inter> set (keys (os ! j)) \<noteq> {}" for i j
  proof -
    have "(i, j) \<in> set (bucket_pairs ?d) \<longleftrightarrow> (\<exists>ks\<in>set ?d. (i, j) \<in> set (pairs_of (sorted_list_of_set (snd ks))))"
      by (simp add: bucket_pairs_def)
    also have "\<dots> \<longleftrightarrow> (\<exists>ks\<in>set ?d. i < j \<and> j < length os \<and> fst ks \<in> set (keys (os ! i)) \<inter> set (keys (os ! j)))"
      by (rule bex_cong [OF refl]) (rule entry)
    also have "\<dots> \<longleftrightarrow> i < j \<and> j < length os \<and> (\<exists>k\<in>fst ` set ?d. k \<in> set (keys (os ! i)) \<inter> set (keys (os ! j)))"
      by blast
    also have "\<dots> \<longleftrightarrow> i < j \<and> j < length os \<and> set (keys (os ! i)) \<inter> set (keys (os ! j)) \<noteq> {}"
      unfolding dom by (auto intro: nth_mem less_trans)
    finally show ?thesis .
  qed
  then show ?thesis by auto
qed

lemma sorted_names:
  "distinct (map fst d) \<Longrightarrow> sorted_wrt (<) (sort (map fst d))"
  by (simp add: strict_sorted_iff)

section \<open>Running the scan\<close>

lemma fold_res_append: "fold_res f (xs @ ys) s = res_bind (fold_res f xs s) (fold_res f ys)"
proof (induction xs arbitrary: s)
  case (Cons x xs)
  then show ?case by (cases "f x s") auto
qed simp

definition fuzzy_pairs :: "(rat \<Rightarrow> rat) \<Rightarrow> rat \<Rightarrow> (string \<times> nat set) list \<Rightarrow> string \<times> string \<Rightarrow> (nat \<times> nat) list" where
  "fuzzy_pairs rnd fuzzy by_name mn = (case mn of (m, n) \<Rightarrow>
     if maximum_ratio rnd m n < fuzzy \<or> ratio rnd m n < fuzzy \<and> ratio rnd n m < fuzzy then []
     else name_pairs by_name mn)"

definition comparable_names :: "(rat \<Rightarrow> rat) \<Rightarrow> rat \<Rightarrow> (string \<times> string) list \<Rightarrow> (string \<times> string) list" where
  "comparable_names rnd fuzzy mns = filter (\<lambda>(m, n). \<not> maximum_ratio rnd m n < fuzzy) mns"

lemma fold_compare_names:
  assumes "n + int (length (comparable_names (cf_round cf) fuzzy mns)) \<le> max_fuzzy"
  shows "fold_res (compare_names db sha cf mc max_fuzzy fuzzy ordered by_name) mns (n, st) =
    res_bind (fold_res (consider_pair db sha cf mc fuzzy ordered)
        (concat (map (fuzzy_pairs (cf_round cf) fuzzy by_name) mns)) st)
      (\<lambda>s. Inr (n + int (length (comparable_names (cf_round cf) fuzzy mns)), s))"
  using assms
proof (induction mns arbitrary: n st)
  case Nil
  then show ?case by (simp add: comparable_names_def)
next
  case (Cons mn mns)
  obtain a b where mn: "mn = (a, b)" by (cases mn)
  let ?rest = "comparable_names (cf_round cf) fuzzy mns"
  show ?case
  proof (cases "maximum_ratio (cf_round cf) a b < fuzzy")
    case True
    then have "comparable_names (cf_round cf) fuzzy (mn # mns) = ?rest" by (simp add: comparable_names_def mn)
    with True Cons show ?thesis by (simp add: compare_names_def fuzzy_pairs_def mn)
  next
    case False
    then have c: "comparable_names (cf_round cf) fuzzy (mn # mns) = mn # ?rest" by (simp add: comparable_names_def mn)
    with Cons.prems have b: "(n + 1) + int (length ?rest) \<le> max_fuzzy" by simp
    have step: "compare_names db sha cf mc max_fuzzy fuzzy ordered by_name mn (n, st) =
        res_bind (fold_res (consider_pair db sha cf mc fuzzy ordered) (fuzzy_pairs (cf_round cf) fuzzy by_name mn) st)
          (\<lambda>s. Inr (n + 1, s))"
      using False b by (simp add: compare_names_def fuzzy_pairs_def mn)
    show ?thesis
      using Cons.IH [OF b]
      by (cases "fold_res (consider_pair db sha cf mc fuzzy ordered) (fuzzy_pairs (cf_round cf) fuzzy by_name mn) st")
        (simp_all add: step c fold_res_append add.assoc)
  qed
qed

text \<open>The pairs the scan considers, in its order.\<close>

definition scan_events :: "unicode_db \<Rightarrow> (rat \<Rightarrow> rat) \<Rightarrow> rat \<Rightarrow> contact_observation list \<Rightarrow> (nat \<times> nat) list" where
  "scan_events db rnd fuzzy ordered = bucket_pairs (entities_by_point ordered) @ bucket_pairs (entities_by_name db ordered) @
     concat (map (fuzzy_pairs rnd fuzzy (entities_by_name db ordered))
       (pairs_of (sort (map fst (entities_by_name db ordered)))))"

definition compared_names :: "unicode_db \<Rightarrow> (rat \<Rightarrow> rat) \<Rightarrow> rat \<Rightarrow> contact_observation list \<Rightarrow> (string \<times> string) list" where
  "compared_names db rnd fuzzy ordered =
     comparable_names rnd fuzzy (pairs_of (sort (map fst (entities_by_name db ordered))))"

lemma scan_contacts_events:
  assumes "int (length (compared_names db (cf_round cf) fuzzy ordered)) \<le> max_fuzzy"
  shows "scan_contacts db sha cf mc max_fuzzy fuzzy ordered =
    res_bind (fold_res (consider_pair db sha cf mc fuzzy ordered) (scan_events db (cf_round cf) fuzzy ordered)
        \<lparr>ms_candidates = [], ms_considered = {}\<rparr>)
      (\<lambda>s. Inr (map snd (sort_key fst (ms_candidates s))))"
proof -
  let ?f = "fold_res (consider_pair db sha cf mc fuzzy ordered)"
  let ?p = "bucket_pairs (entities_by_point ordered)" and ?n = "bucket_pairs (entities_by_name db ordered)"
  have c: "fold_res (compare_names db sha cf mc max_fuzzy fuzzy ordered (entities_by_name db ordered))
      (pairs_of (sort (map fst (entities_by_name db ordered)))) (0, st) =
    res_bind (?f (concat (map (fuzzy_pairs (cf_round cf) fuzzy (entities_by_name db ordered))
        (pairs_of (sort (map fst (entities_by_name db ordered)))))) st)
      (\<lambda>s. Inr (int (length (compared_names db (cf_round cf) fuzzy ordered)), s))" for st
    using assms fold_compare_names [of 0 cf fuzzy _ max_fuzzy] by (simp add: compared_names_def)
  have b: "res_bind (res_bind r f) g = res_bind r (\<lambda>x. res_bind (f x) g)" for r :: "'a result" and f :: "'a \<Rightarrow> 'b result" and g :: "'b \<Rightarrow> 'c result"
    by (cases r) simp_all
  show ?thesis
    unfolding scan_contacts_def Let_def c scan_events_def fold_res_append b by simp
qed

end
