(* ===== verification/Contact_Scan.thy ===== *)
theory Contact_Scan
  imports Contact_Matching
begin

text \<open>
  The scan of disambiguation/contact\_matching.py against its specification, the comparison of every pair
  of observations. The scan looks only at pairs that share a contact point or a name in an index, and at
  pairs of names whose lengths allow the required similarity; it still finds every pair.
\<close>

section \<open>The exhaustive comparison\<close>

definition pair_candidate ::
    "unicode_db \<Rightarrow> hash_fn \<Rightarrow> contact_floats \<Rightarrow> rat \<Rightarrow> contact_observation \<times> contact_observation \<Rightarrow>
     disambiguation_candidate option" where
  "pair_candidate db sha cf fuzzy lr = (case lr of (l, r) \<Rightarrow>
     case match_evidence db (cf_round cf) l r fuzzy of None \<Rightarrow> None
     | Some ev \<Rightarrow> (case make_candidate sha cf l r ev of Inr c \<Rightarrow> Some c | Inl _ \<Rightarrow> None))"

definition pair_candidates ::
    "unicode_db \<Rightarrow> hash_fn \<Rightarrow> contact_floats \<Rightarrow> rat \<Rightarrow> contact_observation list \<Rightarrow> disambiguation_candidate list" where
  "pair_candidates db sha cf fuzzy ordered = List.map_filter (pair_candidate db sha cf fuzzy) (pairs_of ordered)"

definition keyed :: "disambiguation_candidate \<Rightarrow> string \<times> disambiguation_candidate" where
  "keyed c = (dc_candidate_key c, c)"

definition exhaustive_candidates ::
    "unicode_db \<Rightarrow> hash_fn \<Rightarrow> contact_floats \<Rightarrow> rat \<Rightarrow> contact_observation list \<Rightarrow> disambiguation_candidate list" where
  "exhaustive_candidates db sha cf fuzzy ordered =
     map snd (sort_key fst (map keyed (pair_candidates db sha cf fuzzy ordered)))"

section \<open>The scan keeps what it has considered\<close>

text \<open>The candidates of the pairs of positions in a set.\<close>

definition scan_entries ::
    "unicode_db \<Rightarrow> hash_fn \<Rightarrow> contact_floats \<Rightarrow> rat \<Rightarrow> contact_observation list \<Rightarrow> (nat \<times> nat) set \<Rightarrow>
     (string \<times> disambiguation_candidate) set" where
  "scan_entries db sha cf fuzzy os P =
     {keyed c |c. \<exists>(i, j)\<in>P. pair_candidate db sha cf fuzzy (os ! i, os ! j) = Some c}"

definition positions :: "'a list \<Rightarrow> (nat \<times> nat) set" where
  "positions os = {(i, j). i < j \<and> j < length os}"

definition scan_ready ::
    "unicode_db \<Rightarrow> hash_fn \<Rightarrow> contact_floats \<Rightarrow> int \<Rightarrow> rat \<Rightarrow> contact_observation list \<Rightarrow> bool" where
  "scan_ready db sha cf mc fuzzy os \<longleftrightarrow>
     (\<forall>(i, j)\<in>positions os. \<forall>ev. match_evidence db (cf_round cf) (os ! i) (os ! j) fuzzy = Some ev \<longrightarrow>
        (\<exists>c. make_candidate sha cf (os ! i) (os ! j) ev = Inr c)) \<and>
     inj_on (\<lambda>(i, j). contact_candidate_key sha (os ! i) (os ! j)) (positions os) \<and>
     int (length (pair_candidates db sha cf fuzzy os)) \<le> mc"

definition scan_inv ::
    "unicode_db \<Rightarrow> hash_fn \<Rightarrow> contact_floats \<Rightarrow> rat \<Rightarrow> contact_observation list \<Rightarrow> match_scan \<Rightarrow> bool" where
  "scan_inv db sha cf fuzzy os st \<longleftrightarrow> ms_considered st \<subseteq> positions os \<and> distinct (map fst (ms_candidates st)) \<and>
     set (ms_candidates st) = scan_entries db sha cf fuzzy os (ms_considered st)"

lemma set_pairs_positions: "set (pairs_of os) = (\<lambda>(i, j). (os ! i, os ! j)) ` positions os"
proof -
  have "pairs_of os = pairs_of (map ((!) os) [0..<length os])" by (simp add: map_nth)
  also have "\<dots> = map (map_prod ((!) os) ((!) os)) (pairs_of [0..<length os])" by (rule pairs_of_map)
  finally show ?thesis
    by (auto simp: set_pairs_of_sorted positions_def image_iff map_prod_def)
qed

lemma make_candidate_key:
  "make_candidate sha cf l r ev = Inr c \<Longrightarrow> dc_candidate_key c = contact_candidate_key sha l r"
proof -
  have "dc_candidate_key (candidate_of sha cf l r ev snapshot) = contact_candidate_key sha l r" for snapshot
    by (simp add: candidate_of_def split: prod.split)
  then show "make_candidate sha cf l r ev = Inr c \<Longrightarrow> ?thesis" by (auto simp: make_candidate_def)
qed

lemma pair_candidate_Some:
  "pair_candidate db sha cf fuzzy (l, r) = Some c \<longleftrightarrow>
     (\<exists>ev. match_evidence db (cf_round cf) l r fuzzy = Some ev \<and> make_candidate sha cf l r ev = Inr c)"
  by (auto simp: pair_candidate_def split: option.splits sum.splits)

lemma scan_entries_insert:
  "scan_entries db sha cf fuzzy os (insert (i, j) P) = scan_entries db sha cf fuzzy os P \<union>
     (case pair_candidate db sha cf fuzzy (os ! i, os ! j) of None \<Rightarrow> {} | Some c \<Rightarrow> {keyed c})"
  by (auto simp: scan_entries_def split: option.split)

lemma set_keyed: "set (map keyed (pair_candidates db sha cf fuzzy os)) = scan_entries db sha cf fuzzy os (positions os)"
  unfolding pair_candidates_def set_map set_map_filter set_pairs_positions
  by (force simp: scan_entries_def)

lemma scan_entries_mono: "P \<subseteq> Q \<Longrightarrow> scan_entries db sha cf fuzzy os P \<subseteq> scan_entries db sha cf fuzzy os Q"
  by (auto simp: scan_entries_def)

lemma scan_inv_length:
  assumes "scan_ready db sha cf mc fuzzy os" "scan_inv db sha cf fuzzy os st"
  shows "int (length (ms_candidates st)) \<le> mc"
proof -
  have "distinct (ms_candidates st)" using assms(2) by (auto simp: scan_inv_def distinct_map)
  then have "length (ms_candidates st) = card (set (ms_candidates st))" by (simp add: distinct_card)
  also have "set (ms_candidates st) \<subseteq> set (map keyed (pair_candidates db sha cf fuzzy os))"
    using assms(2) unfolding set_keyed scan_inv_def by (metis scan_entries_mono)
  then have "card (set (ms_candidates st)) \<le> length (map keyed (pair_candidates db sha cf fuzzy os))"
    by (meson List.finite_set card_length card_mono order_trans)
  finally show ?thesis using assms(1) by (simp add: scan_ready_def)
qed

lemma fresh_key:
  assumes "scan_ready db sha cf mc fuzzy os" "scan_inv db sha cf fuzzy os st"
    and "(i, j) \<in> positions os" "(i, j) \<notin> ms_considered st"
    and "pair_candidate db sha cf fuzzy (os ! i, os ! j) = Some c"
  shows "map_of (ms_candidates st) (dc_candidate_key c) = None"
proof (rule ccontr)
  assume "map_of (ms_candidates st) (dc_candidate_key c) \<noteq> None"
  then obtain c' where "(dc_candidate_key c, c') \<in> set (ms_candidates st)" by (auto dest: map_of_SomeD)
  with assms(2) obtain i' j' where p: "(i', j') \<in> ms_considered st"
    "pair_candidate db sha cf fuzzy (os ! i', os ! j') = Some c'" "dc_candidate_key c' = dc_candidate_key c"
    by (auto simp: scan_inv_def scan_entries_def keyed_def)
  with assms(2) have "(i', j') \<in> positions os" by (auto simp: scan_inv_def)
  moreover have "contact_candidate_key sha (os ! i') (os ! j') = contact_candidate_key sha (os ! i) (os ! j)"
    using p(2,3) assms(5) by (metis pair_candidate_Some make_candidate_key)
  moreover have "inj_on (\<lambda>(i, j). contact_candidate_key sha (os ! i) (os ! j)) (positions os)"
    using assms(1) by (simp add: scan_ready_def)
  ultimately have "(i', j') = (i, j)"
    using assms(3) by (auto dest: inj_onD [where x = "(i', j')" and y = "(i, j)"])
  with p(1) assms(4) show False by simp
qed

lemma consider_pair_step:
  assumes ready: "scan_ready db sha cf mc fuzzy os" and inv: "scan_inv db sha cf fuzzy os st"
    and pos: "(i, j) \<in> positions os \<or> i = j"
  obtains st' where "consider_pair db sha cf mc fuzzy os (i, j) st = Inr st'" "scan_inv db sha cf fuzzy os st'"
    "ms_considered st' = ms_considered st \<union> ({(i, j)} \<inter> positions os)"
proof (cases "i = j \<or> (i, j) \<in> ms_considered st")
  case True
  moreover have "{(i, j)} \<inter> positions os \<subseteq> ms_considered st"
    using True by (auto simp: positions_def)
  ultimately show thesis using inv by (intro that [of st]) (auto simp: consider_pair_def)
next
  case False
  with pos have p: "(i, j) \<in> positions os" by simp
  let ?st1 = "st\<lparr>ms_considered := insert (i, j) (ms_considered st)\<rparr>"
  show thesis
  proof (cases "match_evidence db (cf_round cf) (os ! i) (os ! j) fuzzy")
    case None
    then have "pair_candidate db sha cf fuzzy (os ! i, os ! j) = None" by (simp add: pair_candidate_def)
    with inv p have "scan_inv db sha cf fuzzy os ?st1" by (simp add: scan_inv_def scan_entries_insert)
    with None False p show thesis by (intro that [of ?st1]) (simp_all add: consider_pair_def)
  next
    case (Some ev)
    with ready p obtain c where c: "make_candidate sha cf (os ! i) (os ! j) ev = Inr c"
      unfolding scan_ready_def by blast
    with Some have pc: "pair_candidate db sha cf fuzzy (os ! i, os ! j) = Some c" by (simp add: pair_candidate_def)
    let ?st2 = "?st1\<lparr>ms_candidates := ms_candidates st @ [keyed c]\<rparr>"
    have fresh: "map_of (ms_candidates st) (dc_candidate_key c) = None"
      using fresh_key [OF ready inv p _ pc] False by simp
    then have "dc_candidate_key c \<notin> fst ` set (ms_candidates st)" by (simp add: map_of_eq_None_iff)
    with inv p pc have inv2: "scan_inv db sha cf fuzzy os ?st2"
      by (simp add: scan_inv_def scan_entries_insert keyed_def)
    from alist_update_fresh [OF fresh] scan_inv_length [OF ready inv2] Some c False
    have "consider_pair db sha cf mc fuzzy os (i, j) st = Inr ?st2"
      by (simp add: consider_pair_def Let_def keyed_def)
    with inv2 p show thesis by (intro that [of ?st2]) simp_all
  qed
qed

lemma consider_pairs:
  assumes "scan_ready db sha cf mc fuzzy os" "scan_inv db sha cf fuzzy os st"
    and "\<forall>(i, j)\<in>set ps. (i, j) \<in> positions os \<or> i = j"
  shows "\<exists>st'. fold_res (consider_pair db sha cf mc fuzzy os) ps st = Inr st' \<and> scan_inv db sha cf fuzzy os st' \<and>
    ms_considered st' = ms_considered st \<union> (set ps \<inter> positions os)"
  using assms(2,3)
proof (induction ps arbitrary: st)
  case (Cons p ps)
  obtain i j where p: "p = (i, j)" by (cases p)
  obtain st1 where "consider_pair db sha cf mc fuzzy os p st = Inr st1" "scan_inv db sha cf fuzzy os st1"
    "ms_considered st1 = ms_considered st \<union> ({p} \<inter> positions os)"
    using consider_pair_step [OF assms(1) Cons.prems(1), of i j] Cons.prems(2) by (auto simp: p)
  moreover from this obtain st2 where "fold_res (consider_pair db sha cf mc fuzzy os) ps st1 = Inr st2"
    "scan_inv db sha cf fuzzy os st2" "ms_considered st2 = ms_considered st1 \<union> (set ps \<inter> positions os)"
    using Cons.IH [of st1] Cons.prems(2) by auto
  ultimately show ?case by (intro exI [of _ st2]) auto
qed simp

section \<open>The scan considers every match\<close>

lemma claims_keys: "fst ` set (strongest_claims o1) = point_key_of ` set (co_contact_points o1)"
proof -
  have "fst ` set (fold (\<lambda>p claims. let key = point_key_of p in AList.update key (f key claims p) claims) ps cs) =
      fst ` set cs \<union> point_key_of ` set ps" for f :: "point_key \<Rightarrow> (point_key \<times> nat) list \<Rightarrow> contact_point \<Rightarrow> nat" and ps cs
    by (induction ps arbitrary: cs) (auto simp: Let_def dom_update)
  from this [of "\<lambda>key claims p. max (case map_of claims key of None \<Rightarrow> 0 | Some r \<Rightarrow> r) (trust_rank (cp_verification p))"]
  show ?thesis by (simp add: strongest_claims_def)
qed

lemma fold_max_attained:
  "fold (\<lambda>n best. max best (g n)) ns b = b \<or> (\<exists>n\<in>set ns. fold (\<lambda>n best. max best (g n)) ns b = (g n :: rat))"
proof (induction ns arbitrary: b)
  case (Cons n ns)
  from Cons [of "max b (g n)"] show ?case by (auto simp: max_def split: if_splits)
qed simp

lemma best_similarity_attained:
  "best_similarity db rnd l r = 0 \<or>
   (\<exists>m\<in>set (matchable_names db l). \<exists>n\<in>set (matchable_names db r). best_similarity db rnd l r = ratio rnd m n)"
proof -
  let ?inner = "\<lambda>m best. fold (\<lambda>n best'. max best' (ratio rnd m n)) (matchable_names db r) best"
  have "fold ?inner ms b = b \<or> (\<exists>m\<in>set ms. \<exists>n\<in>set (matchable_names db r). fold ?inner ms b = ratio rnd m n)" for ms b
  proof (induction ms arbitrary: b)
    case (Cons m ms)
    from Cons [of "?inner m b"] fold_max_attained [of "ratio rnd m" "matchable_names db r" b] show ?case by auto
  qed simp
  then show ?thesis unfolding best_similarity_def by blast
qed

lemma match_evidence_reason:
  assumes "match_evidence db rnd l r fuzzy = Some ev" "0 < fuzzy" "fuzzy \<le> 1"
  obtains k where "k \<in> set (map point_key_of (co_contact_points l)) \<inter> set (map point_key_of (co_contact_points r))"
  | m n where "m \<in> set (matchable_names db l)" "n \<in> set (matchable_names db r)" "fuzzy \<le> ratio rnd m n"
proof -
  let ?shared = "filter (\<lambda>k. k \<in> set (map fst (strongest_claims r))) (map fst (strongest_claims l))"
  show thesis
  proof (cases "?shared = []")
    case False
    then obtain k where "k \<in> set ?shared" by (meson list.set_sel(1))
    then have "k \<in> fst ` set (strongest_claims l)" "k \<in> fst ` set (strongest_claims r)" by auto
    then show thesis unfolding claims_keys by (intro that(1) [of k]) simp
  next
    case True
    with assms have "fuzzy \<le> best_similarity db rnd l r"
      by (auto simp: match_evidence_def Let_def split: if_splits)
    with assms(2) best_similarity_attained [of db rnd l r] show thesis
      by (metis not_le that(2))
  qed
qed

lemma names_lookup:
  "lookup_set (entities_by_name db os) m = {i. i < length os \<and> m \<in> set (matchable_names db (os ! i))}"
  "distinct (map fst (entities_by_name db os))"
  "fst ` set (entities_by_name db os) = (\<Union>o1\<in>set os. set (matchable_names db o1))"
  using index_by_props [of "matchable_names db" os] by (simp_all add: entities_by_name_def)

lemma set_indexes_of: "set (indexes_of (entities_by_name db os) m) = {i. i < length os \<and> m \<in> set (matchable_names db (os ! i))}"
proof -
  have "finite {i. i < length os \<and> m \<in> set (matchable_names db (os ! i))}" by simp
  then show ?thesis using names_lookup(1) [of db os m] by (simp add: indexes_of_def lookup_set_def)
qed

lemma set_name_pairs:
  "set (name_pairs (entities_by_name db os) (m, n)) =
     {ordered_pair i j |i j. i < length os \<and> j < length os \<and> m \<in> set (matchable_names db (os ! i)) \<and>
        n \<in> set (matchable_names db (os ! j))}"
  by (auto simp: name_pairs_def set_indexes_of)

lemma similar_names_considered:
  assumes "mono rnd" "i < length os" "j < length os"
    and "m \<in> set (matchable_names db (os ! i))" "n \<in> set (matchable_names db (os ! j))" "m \<noteq> n"
    and "fuzzy \<le> ratio rnd m n"
  shows "ordered_pair i j \<in> set (concat (map (fuzzy_pairs rnd fuzzy (entities_by_name db os))
      (pairs_of (sort (map fst (entities_by_name db os))))))"
proof -
  let ?d = "entities_by_name db os"
  have "m \<in> fst ` set ?d" "n \<in> fst ` set ?d" unfolding names_lookup(3) using assms(2-5) by auto
  then have in_pairs: "m < n \<Longrightarrow> (m, n) \<in> set (pairs_of (sort (map fst ?d)))" "n < m \<Longrightarrow> (n, m) \<in> set (pairs_of (sort (map fst ?d)))"
    using set_pairs_of_sorted [OF sorted_names [OF names_lookup(2) [of db os]]] by auto
  have "fuzzy \<le> maximum_ratio rnd m n"
    using order_trans [OF assms(7) ratio_le_maximum [OF assms(1)]] assms(6) by fastforce
  then have big: "\<not> maximum_ratio rnd m n < fuzzy" "\<not> maximum_ratio rnd n m < fuzzy"
    by (simp_all add: maximum_ratio_sym [of rnd n m])
  have sym: "ordered_pair j i = ordered_pair i j" if "i \<noteq> j" using that by (auto simp: ordered_pair_def)
  have "ordered_pair i j \<in> set (name_pairs ?d (m, n))" "ordered_pair j i \<in> set (name_pairs ?d (n, m))"
    unfolding set_name_pairs using assms(2-5) by blast+
  then have "ordered_pair i j \<in> set (fuzzy_pairs rnd fuzzy ?d (m, n))" "ordered_pair j i \<in> set (fuzzy_pairs rnd fuzzy ?d (n, m))"
    using big assms(7) by (simp_all add: fuzzy_pairs_def)
  moreover have "ordered_pair j i = ordered_pair i j" using sym by (cases "i = j") auto
  moreover have "\<exists>mn\<in>{(m, n), (n, m)}. mn \<in> set (pairs_of (sort (map fst ?d)))"
    using in_pairs assms(6) by (cases "m < n") auto
  ultimately show ?thesis by auto
qed

lemma match_considered:
  assumes "mono rnd" "0 < fuzzy" "fuzzy \<le> 1" "(i, j) \<in> positions os"
    and "match_evidence db rnd (os ! i) (os ! j) fuzzy = Some ev"
  shows "(i, j) \<in> set (scan_events db rnd fuzzy os)"
  using assms(5,2,3)
proof (cases rule: match_evidence_reason)
  case (1 k)
  then have "(i, j) \<in> set (bucket_pairs (entities_by_point os))"
    using assms(4) unfolding entities_by_point_def set_bucket_pairs by (auto simp: positions_def)
  then show ?thesis by (simp add: scan_events_def)
next
  case (2 m n)
  have ij: "i < length os" "j < length os" "ordered_pair i j = (i, j)"
    using assms(4) by (auto simp: positions_def ordered_pair_def)
  show ?thesis
  proof (cases "m = n")
    case True
    with 2 have "(i, j) \<in> set (bucket_pairs (entities_by_name db os))"
      using assms(4) unfolding entities_by_name_def set_bucket_pairs by (auto simp: positions_def)
    then show ?thesis by (simp add: scan_events_def)
  next
    case False
    from similar_names_considered [OF assms(1) ij(1,2) 2(1,2) False 2(3)] ij(3) show ?thesis
      by (simp add: scan_events_def)
  qed
qed

lemma events_positions:
  "\<forall>(i, j)\<in>set (scan_events db rnd fuzzy os). (i, j) \<in> positions os \<or> i = j"
proof -
  have "\<forall>(i, j)\<in>set (bucket_pairs (entities_by_point os)) \<union> set (bucket_pairs (entities_by_name db os)). (i, j) \<in> positions os"
    unfolding entities_by_point_def entities_by_name_def set_bucket_pairs by (auto simp: positions_def)
  moreover have "\<forall>(i, j)\<in>set (fuzzy_pairs rnd fuzzy (entities_by_name db os) mn). (i, j) \<in> positions os \<or> i = j" for mn
    by (cases mn) (auto simp: fuzzy_pairs_def set_name_pairs ordered_pair_def positions_def split: if_splits)
  ultimately show ?thesis unfolding scan_events_def by fastforce
qed

section \<open>Validated observations\<close>

text \<open>What the constructor of an observation establishes.\<close>

definition valid_observation :: "contact_observation \<Rightarrow> bool" where
  "valid_observation o1 \<longleftrightarrow> co_entity_id o1 \<noteq> [] \<and> py_strip (co_entity_id o1) = co_entity_id o1 \<and>
     0 \<le> document_count_of o1"

lemma constructed_observation_valid:
  assumes "contact_identity_observation sha raw = Inr o1"
  shows "valid_observation o1"
proof -
  have "required_text ''entity_id'' (co_entity_id raw) = None \<and> co_entity_id o1 = py_strip (co_entity_id raw) \<and>
      (\<exists>n (documents :: string list). co_source_document_count o1 = Some n \<and> int (length documents) \<le> n)"
    using assms by (clarsimp simp: contact_identity_observation_def Let_def not_less) blast
  then show ?thesis
    by (auto simp: valid_observation_def required_text_def document_count_of_def count_or_length_def)
qed

text \<open>What the proofs need of rounding.\<close>

definition rounding :: "(rat \<Rightarrow> rat) \<Rightarrow> bool" where
  "rounding rnd \<longleftrightarrow> mono rnd \<and> rnd 0 = 0"

lemma rounding_nonneg: "rounding rnd \<Longrightarrow> 0 \<le> q \<Longrightarrow> 0 \<le> rnd q"
  unfolding rounding_def by (metis monoD)

lemma ratio_nonneg: "rounding rnd \<Longrightarrow> 0 \<le> ratio rnd m n"
  by (auto simp: ratio_def Let_def rounding_nonneg [of rnd])

lemma evidence_similarity_nonneg:
  assumes "rounding rnd" "match_evidence db rnd l r fuzzy = Some ev"
  shows "0 \<le> me_similarity ev"
proof -
  have "0 \<le> best_similarity db rnd l r"
    using best_similarity_attained [of db rnd l r] ratio_nonneg [OF assms(1)] by auto
  moreover have "me_similarity ev \<in> {1, best_similarity db rnd l r}"
    using assms(2) unfolding match_evidence_def Let_def
    by (simp only: option.inject option.distinct split: if_split_asm) (force simp only: pair_evidence.select_convs)+
  ultimately show ?thesis by auto
qed

lemma unit_interval_min: "0 \<le> a \<Longrightarrow> a \<le> 1 \<Longrightarrow> 0 \<le> q \<Longrightarrow> unit_interval (computed cf (min a q))"
  by (simp add: unit_interval_def computed_def)

lemma basis_scores_valid:
  assumes "rounding (cf_round cf)" "0 \<le> me_similarity ev" "basis_scores cf ev = (likelihood, priority, risk, summary)"
  shows "unit_interval likelihood" "unit_interval priority" "unit_interval risk"
proof -
  have s: "0 \<le> scaled cf f (me_similarity ev)" if "0 \<le> f" for f
    unfolding scaled_def using assms(2) that
    by (intro rounding_nonneg [OF assms(1)] add_nonneg_nonneg mult_nonneg_nonneg) simp_all
  consider "me_basis ev = ''shared_contact_point''" | "me_basis ev \<noteq> ''shared_contact_point''" "me_basis ev = ''exact_name''"
    | "me_basis ev \<noteq> ''shared_contact_point''" "me_basis ev \<noteq> ''exact_name''" by blast
  then have "unit_interval likelihood \<and> unit_interval priority \<and> unit_interval risk"
  proof cases
    case 1
    with assms(3) show ?thesis
      by (cases "opt_default (me_verification ev) VerClaimed")
        (auto simp: basis_scores_def shared_likelihood_def unit_interval_def)
  next
    case 2
    with assms(3) show ?thesis by (auto simp: basis_scores_def unit_interval_def)
  next
    case 3
    with assms(3) show ?thesis
      by (auto simp: basis_scores_def intro!: unit_interval_min s) (simp add: unit_interval_def)
  qed
  then show "unit_interval likelihood" "unit_interval priority" "unit_interval risk" by blast+
qed

lemma make_candidate_succeeds:
  assumes "rounding (cf_round cf)" "match_evidence db (cf_round cf) l r fuzzy = Some ev"
    and "valid_observation l" "valid_observation r" "co_workspace_id l = co_workspace_id r" "co_entity_id l \<noteq> co_entity_id r"
  shows "\<exists>c. make_candidate sha cf l r ev = Inr c"
proof -
  obtain likelihood priority risk summary where b: "basis_scores cf ev = (likelihood, priority, risk, summary)"
    by (metis surj_pair)
  note u = basis_scores_valid [OF assms(1) evidence_similarity_nonneg [OF assms(1,2)] b]
  define es where "es = sort [co_entity_id l, co_entity_id r]"
  have es: "set es = {co_entity_id l, co_entity_id r}" "distinct es" "length es = 2"
    using assms(6) by (simp_all add: es_def del: sort_key_simps)
  then have ids: "stripped es = es"
    using assms(3,4) by (intro stripped_clean) (auto simp: valid_observation_def)
  have q: "py_strip ''Could these contact records refer to the same person?'' \<noteq> []" by code_simp
  have d: "unit_interval (PyFloat (1 / 4) ''0.25'')" "unit_interval (PyFloat (2476979795053773 / 4503599627370496) ''0.55'')"
    by (simp_all add: unit_interval_def)
  have "validate_score_bundle (dc_score_bundle (candidate_of sha cf l r ev snapshot)) = None" for snapshot
    using u d assms(3,4) by (simp add: candidate_of_def b validate_score_bundle_def valid_observation_def)
  moreover have "dc_entity_ids (candidate_of sha cf l r ev snapshot) = es"
    "dc_question (candidate_of sha cf l r ev snapshot) = ''Could these contact records refer to the same person?''"
    "dc_canonical_entity_id (candidate_of sha cf l r ev snapshot) = None"
    "dc_related_entity_ids (candidate_of sha cf l r ev snapshot) = []" for snapshot
    by (simp_all add: candidate_of_def b es_def)
  ultimately have "validate_candidate (candidate_of sha cf l r ev snapshot) = None" for snapshot
    using q es ids by (simp add: validate_candidate_split) (simp add: stripped_def)
  with assms(5,6) show ?thesis by (simp add: make_candidate_def contact_evidence_snapshot_id_def)
qed

section \<open>The scan equals the exhaustive comparison\<close>

lemma sort_keyed_unique:
  assumes "distinct (map fst xs)" "distinct (map fst ys)" "set xs = set ys"
  shows "sort_key fst xs = sort_key fst (ys :: ('k::linorder \<times> 'v) list)"
proof (rule sort_key_inj_key_eq)
  show "mset xs = mset (sort_key fst ys)"
    using assms by (simp add: set_eq_iff_mset_eq_distinct distinct_map)
  show "inj_on fst (set xs)" using assms(1) by (simp add: distinct_map)
qed simp

lemma distinct_keyed:
  assumes "scan_ready db sha cf mc fuzzy os" "distinct os"
  shows "distinct (map fst (map keyed (pair_candidates db sha cf fuzzy os)))"
proof -
  let ?key = "\<lambda>(l, r). contact_candidate_key sha l r"
  have "inj_on (?key \<circ> (\<lambda>(i, j). (os ! i, os ! j))) (positions os)"
    using assms(1) by (simp add: scan_ready_def comp_def split_def)
  then have inj: "inj_on ?key (set (pairs_of os))"
    unfolding set_pairs_positions by (rule inj_on_imageI)
  have "map fst (map keyed (List.map_filter (pair_candidate db sha cf fuzzy) ps)) =
      map ?key (filter (\<lambda>lr. pair_candidate db sha cf fuzzy lr \<noteq> None) ps)" for ps
    by (induction ps) (auto simp: map_filter_simps keyed_def pair_candidate_Some dest: make_candidate_key split: option.splits)
  then show ?thesis
    using inj distinct_pairs_of [OF assms(2)]
    by (auto simp: pair_candidates_def distinct_map intro: inj_on_subset)
qed

lemma scan_contacts_exhaustive:
  assumes ready: "scan_ready db sha cf mc fuzzy os" and "distinct os"
    and rnd: "rounding (cf_round cf)" and fuzzy: "0 < fuzzy" "fuzzy \<le> 1"
    and bound: "int (length (compared_names db (cf_round cf) fuzzy os)) \<le> max_fuzzy"
  shows "scan_contacts db sha cf mc max_fuzzy fuzzy os = Inr (exhaustive_candidates db sha cf fuzzy os)"
proof -
  let ?st0 = "\<lparr>ms_candidates = [], ms_considered = {}\<rparr>"
  have "scan_inv db sha cf fuzzy os ?st0" by (simp add: scan_inv_def scan_entries_def)
  from consider_pairs [OF ready this events_positions [of db "cf_round cf" fuzzy os]]
  obtain st where st: "fold_res (consider_pair db sha cf mc fuzzy os) (scan_events db (cf_round cf) fuzzy os) ?st0 = Inr st"
    "scan_inv db sha cf fuzzy os st"
    "ms_considered st = set (scan_events db (cf_round cf) fuzzy os) \<inter> positions os" by auto
  have "scan_entries db sha cf fuzzy os (ms_considered st) = scan_entries db sha cf fuzzy os (positions os)"
    unfolding scan_entries_def st(3)
    using match_considered [of "cf_round cf" fuzzy _ _ os db] rnd fuzzy
    by (fastforce simp: pair_candidate_Some rounding_def)
  then have "set (ms_candidates st) = set (map keyed (pair_candidates db sha cf fuzzy os))"
    using st(2) unfolding set_keyed scan_inv_def by simp
  then have "sort_key fst (ms_candidates st) = sort_key fst (map keyed (pair_candidates db sha cf fuzzy os))"
    using st(2) distinct_keyed [OF ready assms(2)] by (intro sort_keyed_unique) (simp_all add: scan_inv_def)
  with st(1) show ?thesis
    by (simp add: scan_contacts_events [OF bound] exhaustive_candidates_def)
qed

lemma scan_ready_valid:
  assumes "\<forall>o1\<in>set os. valid_observation o1 \<and> co_workspace_id o1 = ws" "distinct (map co_entity_id os)"
    and "rounding (cf_round cf)" "inj_on (\<lambda>(l, r). contact_candidate_key sha l r) (set (pairs_of os))"
    and "int (length (pair_candidates db sha cf fuzzy os)) \<le> mc"
  shows "scan_ready db sha cf mc fuzzy os"
proof -
  have d: "distinct os" using assms(2) by (simp add: distinct_map)
  have "\<exists>c. make_candidate sha cf (os ! i) (os ! j) ev = Inr c"
    if "(i, j) \<in> positions os" "match_evidence db (cf_round cf) (os ! i) (os ! j) fuzzy = Some ev" for i j ev
  proof (rule make_candidate_succeeds [OF assms(3) that(2)])
    show "co_entity_id (os ! i) \<noteq> co_entity_id (os ! j)"
      using that(1) assms(2) by (auto simp: positions_def distinct_conv_nth)
  qed (use that(1) assms(1) in \<open>auto simp: positions_def\<close>)
  moreover have "inj_on (\<lambda>(i, j). (os ! i, os ! j)) (positions os)"
    using d by (auto simp: inj_on_def positions_def nth_eq_iff_index_eq)
  then have "inj_on ((\<lambda>(l, r). contact_candidate_key sha l r) \<circ> (\<lambda>(i, j). (os ! i, os ! j))) (positions os)"
    using assms(4) unfolding set_pairs_positions by (rule comp_inj_on)
  then have "inj_on (\<lambda>(i, j). contact_candidate_key sha (os ! i) (os ! j)) (positions os)"
    by (simp add: comp_def split_def)
  ultimately show ?thesis using assms(5) by (auto simp: scan_ready_def)
qed

text \<open>C15: on validated observations of one workspace, all of whose streams are authorized, and within the
  limits of the call, the indexed scan returns exactly the candidates that comparing every pair of
  observations gives, in the order of their keys: neither the indexes nor the bound on the name lengths
  lose a match.\<close>

theorem contact_scan_exhaustive:
  assumes "\<forall>o1\<in>set items. (\<exists>raw. contact_identity_observation sha raw = Inr o1) \<and> co_workspace_id o1 = ws \<and>
      authorize ws (co_stream_id o1)"
    and "distinct (map co_entity_id items)" "rounding (cf_round cf)"
    and "0 < mo" "0 < mc" "0 < mf" "int (length items) \<le> mo" "1 / 2 \<le> q" "q \<le> 1"
    and "int (length (pair_candidates db sha cf q (sort_key co_entity_id items))) \<le> mc"
    and "int (length (compared_names db (cf_round cf) q (sort_key co_entity_id items))) \<le> mf"
    and "inj_on (\<lambda>(l, r). contact_candidate_key sha l r) (set (pairs_of (sort_key co_entity_id items)))"
  shows "discover_contact_match_candidates db sha cf authorize mo mc mf (TFin q) items =
    Inr (exhaustive_candidates db sha cf q (sort_key co_entity_id items))"
proof (cases items)
  case Nil
  then show ?thesis
    using assms(4-9) by (simp add: discover_contact_match_candidates_def fuzzy_bound_def exhaustive_candidates_def
        pair_candidates_def map_filter_simps)
next
  case (Cons item rest)
  let ?os = "sort_key co_entity_id items"
  have d: "distinct (map co_entity_id ?os)"
    using assms(2) by (metis mset_eq_imp_distinct_iff mset_map mset_sort)
  have "scan_ready db sha cf mc q ?os"
    by (rule scan_ready_valid [where ws = ws])
      (use assms(1,3,10,12) d constructed_observation_valid in \<open>auto simp del: sort_key_simps\<close>)
  then have "scan_contacts db sha cf mc mf q ?os = Inr (exhaustive_candidates db sha cf q ?os)"
    using assms(3,8,9,11) d by (intro scan_contacts_exhaustive) (simp_all add: distinct_map)
  moreover have "co_workspace_id item = ws" using assms(1) Cons by simp
  ultimately show ?thesis
    using assms(1,2,4-9) Cons
    by (auto simp: discover_contact_match_candidates_def fuzzy_bound_def sorted_set_def
        simp del: sort_key_simps)
qed

section \<open>Candidates are proposals for review\<close>

lemma fold_res_invariant:
  assumes "\<And>x s s'. x \<in> set xs \<Longrightarrow> P s \<Longrightarrow> f x s = Inr s' \<Longrightarrow> P s'" "P s" "fold_res f xs s = Inr s'"
  shows "P s'"
  using assms by (induction xs arbitrary: s) auto

definition made_from ::
    "unicode_db \<Rightarrow> hash_fn \<Rightarrow> contact_floats \<Rightarrow> rat \<Rightarrow> contact_observation list \<Rightarrow> disambiguation_candidate \<Rightarrow> bool" where
  "made_from db sha cf fuzzy os c \<longleftrightarrow> (\<exists>l\<in>set os. \<exists>r\<in>set os. \<exists>ev.
     match_evidence db (cf_round cf) l r fuzzy = Some ev \<and> make_candidate sha cf l r ev = Inr c)"

definition scan_safe ::
    "unicode_db \<Rightarrow> hash_fn \<Rightarrow> contact_floats \<Rightarrow> int \<Rightarrow> rat \<Rightarrow> contact_observation list \<Rightarrow> match_scan \<Rightarrow> bool" where
  "scan_safe db sha cf mc fuzzy os st \<longleftrightarrow>
     (\<forall>kc\<in>set (ms_candidates st). made_from db sha cf fuzzy os (snd kc)) \<and> int (length (ms_candidates st)) \<le> mc"

lemma consider_pair_safe:
  assumes "scan_safe db sha cf mc fuzzy os st" "(i, j) \<in> positions os \<or> i = j"
    and "consider_pair db sha cf mc fuzzy os (i, j) st = Inr st'"
  shows "scan_safe db sha cf mc fuzzy os st'"
proof (cases "i = j \<or> (i, j) \<in> ms_considered st")
  case False
  with assms(2) have m: "os ! i \<in> set os" "os ! j \<in> set os" by (auto simp: positions_def)
  show ?thesis
  proof (cases "match_evidence db (cf_round cf) (os ! i) (os ! j) fuzzy")
    case None
    with assms(3) False have "ms_candidates st' = ms_candidates st" by (auto simp: consider_pair_def)
    with assms(1) show ?thesis by (simp add: scan_safe_def)
  next
    case (Some ev)
    with assms(3) False obtain c where c: "make_candidate sha cf (os ! i) (os ! j) ev = Inr c"
      "ms_candidates st' = AList.update (dc_candidate_key c) c (ms_candidates st)" "int (length (ms_candidates st')) \<le> mc"
      by (auto simp: consider_pair_def Let_def)
    have "made_from db sha cf fuzzy os c" using m Some c(1) by (auto simp: made_from_def)
    with c(2) assms(1) set_alist_update [of "dc_candidate_key c" c "ms_candidates st"]
    have "\<forall>kc\<in>set (ms_candidates st'). made_from db sha cf fuzzy os (snd kc)" unfolding scan_safe_def by fastforce
    with c(3) show ?thesis by (simp add: scan_safe_def)
  qed
qed (use assms in \<open>auto simp: consider_pair_def\<close>)

lemma consider_pairs_safe:
  assumes "fold_res (consider_pair db sha cf mc fuzzy os) ps s = Inr s'" "scan_safe db sha cf mc fuzzy os s"
    "\<forall>(i, j)\<in>set ps. (i, j) \<in> positions os \<or> i = j"
  shows "scan_safe db sha cf mc fuzzy os s'"
  using assms
proof (induction ps arbitrary: s)
  case (Cons p ps)
  obtain i j where p: "p = (i, j)" by (cases p)
  from Cons.prems(1) obtain s1 where s1: "consider_pair db sha cf mc fuzzy os (i, j) s = Inr s1"
    "fold_res (consider_pair db sha cf mc fuzzy os) ps s1 = Inr s'" by (auto simp: p)
  have "scan_safe db sha cf mc fuzzy os s1"
    using Cons.prems(3) by (intro consider_pair_safe [OF Cons.prems(2) _ s1(1)]) (simp add: p)
  with Cons.IH [OF s1(2)] Cons.prems(3) show ?case by simp
qed simp

lemma candidate_of_fields:
  "dc_artifact_status (candidate_of sha cf l r ev s) = DasPending"
  "dc_semantic_decision (candidate_of sha cf l r ev s) = DdkAmbiguous"
  "dc_resolution_source (candidate_of sha cf l r ev s) = DrsNone"
  "dc_canonical_entity_id (candidate_of sha cf l r ev s) = None"
  "dc_entity_ids (candidate_of sha cf l r ev s) = sort [co_entity_id l, co_entity_id r]"
  by (simp_all add: candidate_of_def split: prod.split)

lemma scan_contacts_safe:
  assumes "scan_contacts db sha cf mc mf fuzzy os = Inr cs" "0 \<le> mc"
  shows "set cs \<subseteq> {c. made_from db sha cf fuzzy os c} \<and> int (length cs) \<le> mc"
proof -
  note ev = events_positions [of db "cf_round cf" fuzzy os, unfolded scan_events_def]
  note folds = consider_pairs_safe
  from assms(1) obtain s1 s2 s3 where s:
    "fold_res (consider_pair db sha cf mc fuzzy os) (bucket_pairs (entities_by_point os)) \<lparr>ms_candidates = [], ms_considered = {}\<rparr> = Inr s1"
    "fold_res (consider_pair db sha cf mc fuzzy os) (bucket_pairs (entities_by_name db os)) s1 = Inr s2"
    "fold_res (compare_names db sha cf mc mf fuzzy os (entities_by_name db os))
       (pairs_of (sort (map fst (entities_by_name db os)))) (0, s2) = Inr s3"
    "cs = map snd (sort_key fst (ms_candidates (snd s3)))"
    by (auto simp: scan_contacts_def Let_def)
  have "scan_safe db sha cf mc fuzzy os s1"
    by (rule folds [OF s(1)]) (use assms(2) ev in \<open>auto simp: scan_safe_def\<close>)
  then have s2: "scan_safe db sha cf mc fuzzy os s2"
    by (rule folds [OF s(2)]) (use ev in auto)
  have "scan_safe db sha cf mc fuzzy os (snd s')"
    if "scan_safe db sha cf mc fuzzy os (snd s)" "mn \<in> set (pairs_of (sort (map fst (entities_by_name db os))))"
      "compare_names db sha cf mc mf fuzzy os (entities_by_name db os) mn s = Inr s'" for mn s s'
  proof -
    obtain m n comparisons scan where e: "mn = (m, n)" "s = (comparisons, scan)" by (metis surj_pair)
    have "fold_res (consider_pair db sha cf mc fuzzy os) (fuzzy_pairs (cf_round cf) fuzzy (entities_by_name db os) mn) (snd s) = Inr (snd s')"
      using that(3) unfolding compare_names_def fuzzy_pairs_def e prod.case by (auto split: if_split_asm)
    then show ?thesis by (rule folds [OF _ that(1)]) (use ev that(2) in auto)
  qed
  then have "scan_safe db sha cf mc fuzzy os (snd s3)"
    by (intro fold_res_invariant [where P = "\<lambda>s. scan_safe db sha cf mc fuzzy os (snd s)", OF _ _ s(3)]) (use s2 in auto)
  then show ?thesis by (auto simp: s(4) scan_safe_def)
qed

text \<open>C16: whenever the scan answers, the reader is authorized for every source stream of one workspace, and
  each of the at most \<open>max_candidates\<close> candidates is an open question about two different entities of the
  scan whose records match: no candidate decides anything.\<close>

theorem contact_scan_review_only:
  assumes "discover_contact_match_candidates db sha cf authorize mo mc mf t items = Inr cs"
  shows "(\<forall>o1\<in>set items. authorize (co_workspace_id o1) (co_stream_id o1)) \<and> int (length cs) \<le> mc \<and>
    (\<forall>c\<in>set cs. dc_artifact_status c = DasPending \<and> dc_semantic_decision c = DdkAmbiguous \<and>
       dc_resolution_source c = DrsNone \<and> dc_canonical_entity_id c = None \<and> validate_candidate c = None \<and>
       (\<exists>l\<in>set items. \<exists>r\<in>set items. co_entity_id l \<noteq> co_entity_id r \<and> co_workspace_id l = co_workspace_id r \<and>
          dc_entity_ids c = sort [co_entity_id l, co_entity_id r] \<and>
          contact_match_basis db (cf_round cf) l r t \<noteq> Inr None \<and>
          (\<exists>basis. contact_match_basis db (cf_round cf) l r t = Inr basis)))"
proof (cases items)
  case Nil
  then show ?thesis using assms by (auto simp: discover_contact_match_candidates_def not_le)
next
  case (Cons item rest)
  from assms obtain q where q: "fuzzy_bound t = Inr q" "0 \<le> mc" and auth: "\<forall>o1\<in>set items. co_workspace_id o1 = co_workspace_id item"
    "\<forall>o1\<in>set items. authorize (co_workspace_id item) (co_stream_id o1)"
    and scan: "scan_contacts db sha cf mc mf q (sort_key co_entity_id items) = Inr cs"
    by (auto simp: discover_contact_match_candidates_def Cons sorted_set_def not_le simp del: sort_key_simps)
  note safe = scan_contacts_safe [OF scan q(2)]
  have fields: "dc_artifact_status c = DasPending \<and> dc_semantic_decision c = DdkAmbiguous \<and> dc_resolution_source c = DrsNone \<and>
      dc_canonical_entity_id c = None \<and> validate_candidate c = None \<and> co_entity_id l \<noteq> co_entity_id r \<and>
      co_workspace_id l = co_workspace_id r \<and> dc_entity_ids c = sort [co_entity_id l, co_entity_id r]"
    if "make_candidate sha cf l r ev = Inr c" for l r ev c
    using that by (auto simp: make_candidate_def contact_evidence_snapshot_id_def candidate_of_fields
        split: if_splits simp del: sort_key_simps)
  have "\<exists>l\<in>set items. \<exists>r\<in>set items. \<exists>ev. match_evidence db (cf_round cf) l r q = Some ev \<and> make_candidate sha cf l r ev = Inr c"
    if "c \<in> set cs" for c
    using safe that by (auto simp: made_from_def)
  moreover have "contact_match_basis db (cf_round cf) l r t = Inr (Some (me_basis ev))"
    if "match_evidence db (cf_round cf) l r q = Some ev" "co_workspace_id l = co_workspace_id r" for l r ev
    using that q(1) by (simp add: contact_match_basis_def)
  ultimately have "\<exists>l\<in>set items. \<exists>r\<in>set items. \<exists>ev. make_candidate sha cf l r ev = Inr c \<and>
      contact_match_basis db (cf_round cf) l r t = Inr (Some (me_basis ev))" if "c \<in> set cs" for c
    using that fields by meson
  then have "dc_artifact_status c = DasPending \<and> dc_semantic_decision c = DdkAmbiguous \<and> dc_resolution_source c = DrsNone \<and>
      dc_canonical_entity_id c = None \<and> validate_candidate c = None \<and>
      (\<exists>l\<in>set items. \<exists>r\<in>set items. co_entity_id l \<noteq> co_entity_id r \<and> co_workspace_id l = co_workspace_id r \<and>
         dc_entity_ids c = sort [co_entity_id l, co_entity_id r] \<and>
         contact_match_basis db (cf_round cf) l r t \<noteq> Inr None \<and>
         (\<exists>basis. contact_match_basis db (cf_round cf) l r t = Inr basis))" if "c \<in> set cs" for c
    using that fields by (metis option.distinct(1) sum.inject(2))
  with auth safe show ?thesis by simp
qed

section \<open>Examples\<close>

definition plain_unicode :: unicode_db where
  "plain_unicode = \<lparr>ud_nfkc = (\<lambda>s. s), ud_casefold = py_lower, ud_isalpha = (\<lambda>c. False), ud_name = (\<lambda>c. [])\<rparr>"

definition exact_floats :: contact_floats where
  "exact_floats = \<lparr>cf_round = (\<lambda>q. q), cf_round4 = (\<lambda>q. q), cf_repr = (\<lambda>q. [])\<rparr>"

definition constant_hash :: hash_fn where
  "constant_hash s = ''h''"

definition example_observation :: "string \<Rightarrow> contact_observation" where
  "example_observation e = \<lparr>co_workspace_id = ''w'', co_stream_id = ''s'', co_entity_id = e, co_source_document_ids = [''d''],
     co_evidence_revision_ids = [''r''], co_source_document_count = Some 1, co_evidence_revision_count = Some 1,
     co_observed_at_ms = 0, co_display_names = [''ann lee''], co_display_name_count = Some 1,
     co_evidence_fingerprint = Some (constant_hash []), co_contact_points = []\<rparr>"

definition example_names :: "contact_observation list" where
  "example_names = [example_observation ''b'', example_observation ''a'']"

lemma example_observation_made:
  "contact_identity_observation constant_hash (example_observation ''a''\<lparr>co_evidence_fingerprint := None\<rparr>) = Inr (example_observation ''a'')"
  "contact_identity_observation constant_hash (example_observation ''b''\<lparr>co_evidence_fingerprint := None\<rparr>) = Inr (example_observation ''b'')"
  by code_simp+

theorem contact_scan_exhaustive_witness:
  "\<exists>c. discover_contact_match_candidates plain_unicode constant_hash exact_floats (\<lambda>ws stream. True) 10 10 10
      (TFin (9 / 10)) example_names = Inr [c] \<and> dc_entity_ids c = [''a'', ''b'']"
proof -
  let ?os = "sort_key co_entity_id example_names"
  have made: "\<forall>o1\<in>set example_names. (\<exists>raw. contact_identity_observation constant_hash raw = Inr o1) \<and>
      co_workspace_id o1 = ''w'' \<and> True"
    using example_observation_made by (auto simp: example_names_def example_observation_def)
  have os: "?os = [example_observation ''a'', example_observation ''b'']" by code_simp
  have ids: "map dc_entity_ids (exhaustive_candidates plain_unicode constant_hash exact_floats (9 / 10) ?os) = [[''a'', ''b'']]"
    by code_simp
  have "discover_contact_match_candidates plain_unicode constant_hash exact_floats (\<lambda>ws stream. True) 10 10 10
      (TFin (9 / 10)) example_names = Inr (exhaustive_candidates plain_unicode constant_hash exact_floats (9 / 10) ?os)"
  proof (rule contact_scan_exhaustive [OF made])
    show "distinct (map co_entity_id example_names)" "int (length example_names) \<le> 10"
      by (simp_all add: example_names_def example_observation_def)
    show "rounding (cf_round exact_floats)" by (simp add: rounding_def exact_floats_def mono_def)
    show "int (length (pair_candidates plain_unicode constant_hash exact_floats (9 / 10) ?os)) \<le> 10" by code_simp
    show "int (length (compared_names plain_unicode (cf_round exact_floats) (9 / 10) ?os)) \<le> 10" by code_simp
    show "inj_on (\<lambda>(l, r). contact_candidate_key constant_hash l r) (set (pairs_of ?os))" by (simp add: os)
  qed simp_all
  with ids show ?thesis by (auto simp: map_eq_Cons_conv simp del: sort_key_simps)
qed

theorem contact_scan_review_only_witness:
  "\<exists>cs. discover_contact_match_candidates plain_unicode constant_hash exact_floats (\<lambda>ws stream. stream = ''s'') 10 10 10
      (TFin (9 / 10)) example_names = Inr cs \<and> map dc_semantic_decision cs = [DdkAmbiguous] \<and>
    list_all (\<lambda>c. dc_artifact_status c = DasPending \<and> dc_canonical_entity_id c = None) cs"
proof -
  let ?r = "discover_contact_match_candidates plain_unicode constant_hash exact_floats (\<lambda>ws stream. stream = ''s'') 10 10 10
      (TFin (9 / 10)) example_names"
  have "(case ?r of Inr cs \<Rightarrow> length cs = 1 | Inl e \<Rightarrow> False)" by code_simp
  then obtain cs where cs: "?r = Inr cs" "length cs = 1" by (auto split: sum.splits)
  with contact_scan_review_only [OF cs(1)] show ?thesis
    by (auto simp: list_all_iff length_Suc_conv)
qed

end
