(* ===== verification/Contact_Book.thy ===== *)
theory Contact_Book
  imports Contact_Scan
begin

text \<open>
  The address book (disambiguation/contact\_book.py): composing the readers of several channels, and
  grouping contact records through reviewed identity decisions. The grouping is a union-find structure
  whose \<^verbatim>\<open>find\<close> loop halves paths as it goes; it is a recursive function into \<open>option\<close>, so that
  not returning would be the value \<open>None\<close>. A reader is an argument, and \<^verbatim>\<open>json.loads\<close> too.
\<close>

section \<open>Composing readers\<close>

type_synonym authorizer = "string \<Rightarrow> string \<Rightarrow> bool"
type_synonym 'q reader = "string \<Rightarrow> 'q \<Rightarrow> authorizer \<Rightarrow> contact_observation list result"

text \<open>The two composed readers differ only in the texts of their errors.\<close>

datatype reader_kind = ScanReader | BookReader

fun reader_messages :: "reader_kind \<Rightarrow> string \<times> string \<times> string \<times> string \<times> string \<times> string \<times> string" where
  "reader_messages ScanReader =
     (''at least one contact scan provider is required'',
      ''contact scan provider names must be non-empty strings'', ''contact scan provider names must be unique'',
      ''composed contact scan exceeds max_observations'', ''contact scan provider returned another workspace'',
      ''contact scan entity IDs collide across providers'', ''contact scan provider returned an unauthorized stream'')"
| "reader_messages BookReader =
     (''at least one contact observation provider is required'',
      ''contact provider names must be non-empty strings'', ''contact provider names must be unique after normalization'',
      ''composed contact observation batch exceeds limit'', ''contact provider returned an observation from another workspace'',
      ''contact provider entity IDs collide; source adapters must namespace IDs'',
      ''contact provider returned an unauthorized stream'')"

definition configured_readers :: "reader_kind \<Rightarrow> (string \<times> 'q reader) list \<Rightarrow> int \<Rightarrow> (string \<times> 'q reader) list result" where
  "configured_readers k providers max_observations = (case reader_messages k of (none, blank, twice, _) \<Rightarrow>
     check_then (checks
     [raise_if (providers = []) (ValueError none),
      raise_if (max_observations < 1) (ValueError ''max_observations must be positive''),
      raise_if (\<exists>p\<in>set providers. py_strip (fst p) = []) (ValueError blank),
      raise_if (\<not> distinct (map (py_strip \<circ> fst) providers)) (ValueError twice)])
     (Inr (sort_key fst (map (map_prod py_strip id) providers))))"

record gathered =
  ga_results :: "contact_observation list"
  ga_seen :: "string set"

definition gather_observation ::
    "reader_kind \<Rightarrow> string \<Rightarrow> authorizer \<Rightarrow> contact_observation \<Rightarrow> gathered \<Rightarrow> gathered result" where
  "gather_observation k ws authorize o1 g = (case reader_messages k of (_, _, _, _, foreign, collide, denied) \<Rightarrow>
     check_then (checks
     [raise_if (co_workspace_id o1 \<noteq> ws) (ValueError foreign),
      raise_if (co_entity_id o1 \<in> ga_seen g) (ValueError collide),
      raise_if (\<not> authorize ws (co_stream_id o1)) (PermissionError denied)])
     (Inr \<lparr>ga_results = ga_results g @ [o1], ga_seen = insert (co_entity_id o1) (ga_seen g)\<rparr>))"

definition gather_batch ::
    "reader_kind \<Rightarrow> string \<Rightarrow> 'q \<Rightarrow> authorizer \<Rightarrow> int \<Rightarrow> string \<times> 'q reader \<Rightarrow> gathered \<Rightarrow> gathered result" where
  "gather_batch k ws query authorize bound np g = (case reader_messages k of (_, _, _, exceeds, _) \<Rightarrow>
     res_bind (snd np ws query authorize) (\<lambda>batch.
     check_then (raise_if (bound < int (length batch) \<or> bound < int (length (ga_results g) + length batch))
         (ValueError exceeds))
       (fold_res (gather_observation k ws authorize) batch g)))"

definition gather_all ::
    "reader_kind \<Rightarrow> string \<Rightarrow> 'q \<Rightarrow> authorizer \<Rightarrow> int \<Rightarrow> (string \<times> 'q reader) list \<Rightarrow> contact_observation list result" where
  "gather_all k ws query authorize bound configured =
     res_bind (fold_res (gather_batch k ws query authorize bound) configured \<lparr>ga_results = [], ga_seen = {}\<rparr>) (\<lambda>g.
       Inr (sort_key (\<lambda>o1. (co_entity_id o1, co_stream_id o1)) (ga_results g)))"

fun stream_texts :: "json list \<Rightarrow> string list result" where
  "stream_texts [] = Inr []"
| "stream_texts (v # vs) = (case v of
       JStr s \<Rightarrow> if py_strip s = [] then Inl (ValueError ''source_stream_ids must contain non-empty strings'')
         else res_bind (stream_texts vs) (\<lambda>ss. Inr (py_strip s # ss))
     | _ \<Rightarrow> Inl (ValueError ''source_stream_ids must contain non-empty strings''))"

definition changed_streams :: "int \<Rightarrow> json_object \<Rightarrow> string list result" where
  "changed_streams bound payload = (case jget payload ''source_stream_ids'' of
       JArr vs \<Rightarrow> if vs = [] then Inl (ValueError ''contact scan requires changed source_stream_ids'')
         else if bound < int (length vs) then Inl (ValueError ''contact scan has too many changed source streams'')
         else res_bind (stream_texts vs) (\<lambda>ss. check_then
           (raise_if (\<not> distinct ss) (ValueError ''source_stream_ids must not contain duplicates'')) (Inr ss))
     | _ \<Rightarrow> Inl (ValueError ''contact scan requires changed source_stream_ids''))"

definition compose_contact_scan_observation_providers ::
    "(string \<times> json_object reader) list \<Rightarrow> int \<Rightarrow> json_object reader result" where
  "compose_contact_scan_observation_providers providers max_observations =
     res_bind (configured_readers ScanReader providers max_observations) (\<lambda>configured.
       Inr (\<lambda>ws payload authorize.
         check_then (checks
           [raise_if (py_strip ws = []) (ValueError ''workspace_id must not be empty''),
            raise_if (jget payload ''workspace_id'' \<noteq> JStr ws)
              (ValueError ''contact scan payload must match the requested workspace'')])
         (res_bind (changed_streams max_observations payload) (\<lambda>streams.
          check_then (first_error (\<lambda>s. raise_if (\<not> authorize ws s)
              (PermissionError ''changed contact source stream is not authorized'')) (sort streams))
            (gather_all ScanReader ws (AList.update ''source_stream_ids'' (json_list streams) payload) authorize
               max_observations configured)))))"

definition compose_contact_observation_providers ::
    "(string \<times> int reader) list \<Rightarrow> int \<Rightarrow> int reader result" where
  "compose_contact_observation_providers providers max_observations =
     res_bind (configured_readers BookReader providers max_observations) (\<lambda>configured.
       Inr (\<lambda>ws limit authorize.
         check_then (checks
           [raise_if (py_strip ws = []) (ValueError ''workspace_id must not be empty''),
            raise_if (\<not> (1 \<le> limit \<and> limit \<le> max_observations))
              (ValueError ''limit must be within the configured observation bound'')])
         (gather_all BookReader ws limit authorize limit configured)))"

section \<open>Union and find\<close>

type_synonym 'a outcome = "'a result option"

definition ro_bind :: "'a outcome \<Rightarrow> ('a \<Rightarrow> 'b outcome) \<Rightarrow> 'b outcome" where
  "ro_bind r f = (case r of None \<Rightarrow> None | Some (Inl e) \<Rightarrow> Some (Inl e) | Some (Inr a) \<Rightarrow> f a)"

fun fold_ro :: "('a \<Rightarrow> 's \<Rightarrow> 's outcome) \<Rightarrow> 'a list \<Rightarrow> 's \<Rightarrow> 's outcome" where
  "fold_ro f [] s = Some (Inr s)"
| "fold_ro f (x # xs) s = ro_bind (f x s) (fold_ro f xs)"

type_synonym parents = "string \<Rightarrow> string option"

partial_function (option) uf_find :: "parents \<Rightarrow> string \<Rightarrow> (parents \<times> string) outcome" where
  "uf_find parent entity_id = (case parent entity_id of
       None \<Rightarrow> Some (Inl (KeyError entity_id))
     | Some up \<Rightarrow> if up = entity_id then Some (Inr (parent, entity_id))
         else (case parent up of None \<Rightarrow> Some (Inl (KeyError up))
           | Some next_up \<Rightarrow> uf_find (parent(entity_id \<mapsto> next_up)) next_up))"

declare uf_find.simps [code]

definition union_link :: "string \<times> string \<times> string option \<Rightarrow> parents \<Rightarrow> parents outcome" where
  "union_link link parent = (case link of (left, right, _) \<Rightarrow>
     ro_bind (uf_find parent left) (\<lambda>(p1, left_root).
     ro_bind (uf_find p1 right) (\<lambda>(p2, right_root).
       Some (Inr (if left_root \<noteq> right_root then p2(max left_root right_root \<mapsto> min left_root right_root) else p2)))))"

fun any_joined :: "(string \<times> string) list \<Rightarrow> parents \<Rightarrow> (parents \<times> bool) outcome" where
  "any_joined [] parent = Some (Inr (parent, False))"
| "any_joined ((left, right) # pairs) parent =
     ro_bind (uf_find parent left) (\<lambda>(p1, left_root).
     ro_bind (uf_find p1 right) (\<lambda>(p2, right_root).
       if left_root = right_root then Some (Inr (p2, True)) else any_joined pairs p2))"

definition dict_get :: "('k \<times> 'v) list \<Rightarrow> 'k \<Rightarrow> 'v \<Rightarrow> 'v" where
  "dict_get d k dflt = (case map_of d k of None \<Rightarrow> dflt | Some v \<Rightarrow> v)"

definition add_hint ::
    "string \<times> string \<times> string option \<Rightarrow> parents \<times> (string \<times> string set) list \<Rightarrow> (parents \<times> (string \<times> string set) list) outcome" where
  "add_hint link st = (case (link, st) of ((left, _, canonical), (parent, hints)) \<Rightarrow>
     (case canonical of None \<Rightarrow> Some (Inr st)
      | Some c \<Rightarrow> ro_bind (uf_find parent left) (\<lambda>(p1, rt).
          Some (Inr (p1, AList.update rt (insert c (dict_get hints rt {})) hints)))))"

definition add_to_group ::
    "contact_observation \<Rightarrow> parents \<times> (string \<times> contact_observation list) list \<Rightarrow>
     (parents \<times> (string \<times> contact_observation list) list) outcome" where
  "add_to_group o1 st = (case st of (parent, groups) \<Rightarrow>
     ro_bind (uf_find parent (co_entity_id o1)) (\<lambda>(p1, rt).
       Some (Inr (p1, AList.update rt (dict_get groups rt [] @ [o1]) groups))))"

section \<open>The projection\<close>

record address_claim =
  ac_point :: contact_point
  ac_stream_id :: string
  ac_entity_id :: string
  ac_source_document_ids :: "string list"
  ac_evidence_revision_ids :: "string list"
  ac_observed_at_ms :: int
  ac_source_document_count :: "int option"
  ac_evidence_revision_count :: "int option"
  ac_display_name_count :: "int option"

record address_entry =
  ae_workspace_id :: string
  ae_contact_id :: string
  ae_entity_ids :: "string list"
  ae_display_names :: "string list"
  ae_contact_points :: "address_claim list"

type_synonym loader = "string \<Rightarrow> json option"

definition nonblank_streams :: "json \<Rightarrow> string list option" where
  "nonblank_streams v = (case v of
       JArr xs \<Rightarrow> if xs \<noteq> [] \<and> (\<forall>x\<in>set xs. case x of JStr s \<Rightarrow> py_strip s \<noteq> [] | _ \<Rightarrow> False) then Some (map py_str xs) else None
     | _ \<Rightarrow> None)"

record prepared =
  pp_keys :: "string set"
  pp_streams :: "string set"

definition prepare_decision ::
    "loader \<Rightarrow> string \<Rightarrow> (string \<times> contact_observation) list \<Rightarrow> disambiguation_candidate \<Rightarrow> prepared \<Rightarrow> prepared result" where
  "prepare_decision loads ws by_id c pp =
     (if dc_workspace_id c \<noteq> ws \<or> \<not> py_startswith (dc_candidate_key c) ''contact-match:''
      then Inl (ValueError ''address-book decision is outside contact workspace scope'')
      else if \<exists>e\<in>set (dc_entity_ids c). map_of by_id e = None then Inr pp
      else if dc_candidate_key c \<in> pp_keys pp
      then Inl (ValueError ''address-book input must contain one current decision per candidate'')
      else (case jget (dc_metadata c) ''source_stream_ids'' of
        JStr raw \<Rightarrow> (case Option.bind (loads raw) nonblank_streams of
          None \<Rightarrow> Inl (ValueError ''address-book decision has invalid stream provenance'')
        | Some streams \<Rightarrow>
            if length (dc_entity_ids c) \<noteq> 2 \<or>
               set streams \<noteq> (\<lambda>e. co_stream_id (the (map_of by_id e))) ` set (dc_entity_ids c)
            then Inl (ValueError ''address-book decision provenance does not match its entities'')
            else Inr \<lparr>pp_keys = insert (dc_candidate_key c) (pp_keys pp), pp_streams = pp_streams pp \<union> set streams\<rparr>)
      | _ \<Rightarrow> Inl (TypeError ''address-book decision lacks source stream provenance'')))"

definition lookup_observation :: "(string \<times> contact_observation) list \<Rightarrow> string \<Rightarrow> contact_observation result" where
  "lookup_observation by_id e = (case map_of by_id e of None \<Rightarrow> Inl (KeyError e) | Some o1 \<Rightarrow> Inr o1)"

type_synonym links = "(string \<times> string \<times> string option) list \<times> (string \<times> string) set"

definition reviewed_link ::
    "hash_fn \<Rightarrow> (string \<times> contact_observation) list \<Rightarrow> disambiguation_candidate \<Rightarrow> links \<Rightarrow> links result" where
  "reviewed_link sha by_id c st = (case st of (same, dst) \<Rightarrow>
     if dc_artifact_status c \<noteq> DasResolved then Inr st else
     (case sort (dc_entity_ids c) of
        [a, b] \<Rightarrow> (case jget (dc_metadata c) ''match_basis'' of
          JStr basis \<Rightarrow>
            res_bind (lookup_observation by_id a) (\<lambda>l.
            res_bind (lookup_observation by_id b) (\<lambda>r.
            res_bind (contact_evidence_snapshot_id sha l r basis) (\<lambda>snapshot.
              if snapshot \<noteq> dc_evidence_snapshot_id c then Inr st
              else if dc_semantic_decision c = DdkSameEntity then
                (if resolution_source_value (dc_resolution_source c) \<notin> {''user'', ''prior_decision''}
                 then Inl (ValueError ''address-book merges require explicit reviewed identity decisions'')
                 else Inr (same @ [(a, b, dc_canonical_entity_id c)], dst))
              else if dc_semantic_decision c = DdkDistinctEntities then Inr (same, insert (a, b) dst)
              else Inr st)))
        | _ \<Rightarrow> Inr st)
      | _ \<Rightarrow> Inr st))"

definition claims_of :: "contact_observation \<Rightarrow> address_claim list" where
  "claims_of o1 = map (\<lambda>p. \<lparr>ac_point = p, ac_stream_id = co_stream_id o1, ac_entity_id = co_entity_id o1,
     ac_source_document_ids = co_source_document_ids o1, ac_evidence_revision_ids = co_evidence_revision_ids o1,
     ac_observed_at_ms = co_observed_at_ms o1, ac_source_document_count = co_source_document_count o1,
     ac_evidence_revision_count = co_evidence_revision_count o1,
     ac_display_name_count = co_display_name_count o1\<rparr>) (co_contact_points o1)"

definition claim_key :: "address_claim \<Rightarrow> string list" where
  "claim_key a = [cp_channel (ac_point a), opt_str (cp_provider (ac_point a)), cp_value (ac_point a),
     ac_stream_id a, ac_entity_id a]"

definition make_entry ::
    "string \<Rightarrow> (string \<times> string set) list \<Rightarrow> string \<times> contact_observation list \<Rightarrow> address_entry" where
  "make_entry ws hints rg = (case rg of (rt, members) \<Rightarrow>
     let entity_ids = sort (map co_entity_id members); hs = dict_get hints rt {} in
     \<lparr>ae_workspace_id = ws,
      ae_contact_id = (if hs \<noteq> {} then hd (sorted_list_of_set hs) else hd entity_ids),
      ae_entity_ids = entity_ids,
      ae_display_names = sorted_set (concat (map co_display_names members)),
      ae_contact_points = sort_key claim_key (concat (map claims_of members))\<rparr>)"

definition address_entries ::
    "string \<Rightarrow> contact_observation list \<Rightarrow> links \<Rightarrow> address_entry list outcome" where
  "address_entries ws items lk = (case lk of (same, dst) \<Rightarrow>
     let parent0 = map_of (map (\<lambda>o1. (co_entity_id o1, co_entity_id o1)) items) in
     ro_bind (fold_ro union_link same parent0) (\<lambda>p1.
     ro_bind (any_joined (sorted_list_of_set dst) p1) (\<lambda>(p2, conflict).
       if conflict then Some (Inl (ValueError ''reviewed identity decisions contain a SAME/DISTINCT conflict'')) else
     ro_bind (fold_ro add_hint same (p2, [])) (\<lambda>(p3, hints).
       if \<exists>h\<in>set hints. 1 < card (snd h)
       then Some (Inl (ValueError ''reviewed identity links disagree on canonical contact ID'')) else
     ro_bind (fold_ro add_to_group items (p3, [])) (\<lambda>(p4, groups).
       Some (Inr (sort_key ae_contact_id (map (make_entry ws hints) groups))))))))"

text \<open>
  The checks of the whole input: the workspace, the identities, the provenance of every decision, and the
  authorization of every stream involved, before any link is read.
\<close>

definition projection_links ::
    "loader \<Rightarrow> hash_fn \<Rightarrow> authorizer \<Rightarrow> string \<Rightarrow> contact_observation list \<Rightarrow> disambiguation_candidate list \<Rightarrow> links result" where
  "projection_links loads sha authorize ws items reviewed =
     (let by_id = map (\<lambda>o1. (co_entity_id o1, o1)) items in
      check_then (checks
        [raise_if (\<exists>o1\<in>set items. co_workspace_id o1 \<noteq> ws) (ValueError ''address-book projection cannot mix workspaces''),
         raise_if (\<not> distinct (map co_entity_id items)) (ValueError ''address-book observations must have unique entity IDs'')])
      (res_bind (fold_res (prepare_decision loads ws by_id) reviewed
          \<lparr>pp_keys = {}, pp_streams = set (map co_stream_id items)\<rparr>) (\<lambda>pp.
       check_then (raise_if (\<exists>s\<in>pp_streams pp. \<not> authorize ws s)
           (PermissionError ''address-book source stream is not authorized''))
       (fold_res (reviewed_link sha by_id) reviewed ([], {})))))"

definition build_address_book_projection ::
    "loader \<Rightarrow> hash_fn \<Rightarrow> authorizer \<Rightarrow> int \<Rightarrow> int \<Rightarrow> contact_observation list \<Rightarrow> disambiguation_candidate list \<Rightarrow>
     address_entry list outcome" where
  "build_address_book_projection loads sha authorize max_observations max_decisions items reviewed =
     (case checks [raise_if (max_observations < 1) (ValueError ''max_observations must be positive''),
         raise_if (max_decisions < 1) (ValueError ''max_decisions must be positive''),
         raise_if (max_observations < int (length items)) (ValueError ''address-book projection input exceeds configured bounds''),
         raise_if (max_decisions < int (length reviewed)) (ValueError ''address-book projection input exceeds configured bounds'')]
      of Some e \<Rightarrow> Some (Inl e)
      | None \<Rightarrow> (case items of
          [] \<Rightarrow> Some (if reviewed \<noteq> [] then Inl (ValueError ''address-book decisions require source observations'') else Inr [])
        | item # _ \<Rightarrow> ro_bind (Some (projection_links loads sha authorize (co_workspace_id item) items reviewed))
            (address_entries (co_workspace_id item) items)))"

section \<open>What a composed reader returns\<close>

text \<open>Everything gathered so far was checked, and is the concatenation of the batches read.\<close>

definition gathered_ok :: "string \<Rightarrow> authorizer \<Rightarrow> int \<Rightarrow> contact_observation list \<Rightarrow> bool" where
  "gathered_ok ws authorize bound os \<longleftrightarrow> int (length os) \<le> bound \<and> distinct (map co_entity_id os) \<and>
     (\<forall>o1\<in>set os. co_workspace_id o1 = ws \<and> authorize ws (co_stream_id o1))"

lemma gather_observation_Inr:
  "gather_observation k ws authorize o1 g = Inr g' \<longleftrightarrow>
     co_workspace_id o1 = ws \<and> co_entity_id o1 \<notin> ga_seen g \<and> authorize ws (co_stream_id o1) \<and>
     g' = \<lparr>ga_results = ga_results g @ [o1], ga_seen = insert (co_entity_id o1) (ga_seen g)\<rparr>"
  by (auto simp: gather_observation_def raise_if_def split: prod.split if_splits)

lemma gather_observations_Inr:
  assumes "fold_res (gather_observation k ws authorize) batch g = Inr g'" "ga_seen g = set (map co_entity_id (ga_results g))"
    and "gathered_ok ws authorize bound (ga_results g)" "int (length (ga_results g) + length batch) \<le> bound"
  shows "ga_results g' = ga_results g @ batch \<and> ga_seen g' = set (map co_entity_id (ga_results g')) \<and>
    gathered_ok ws authorize bound (ga_results g')"
  using assms
proof (induction batch arbitrary: g)
  case (Cons o1 batch)
  from Cons.prems(1) obtain g1 where g1: "gather_observation k ws authorize o1 g = Inr g1"
    "fold_res (gather_observation k ws authorize) batch g1 = Inr g'" by auto
  have "ga_seen g1 = set (map co_entity_id (ga_results g1))" "gathered_ok ws authorize bound (ga_results g1)"
    "int (length (ga_results g1) + length batch) \<le> bound" "ga_results g1 = ga_results g @ [o1]"
    using g1(1) Cons.prems(2,3,4) by (auto simp: gather_observation_Inr gathered_ok_def)
  note 1 = this
  from Cons.IH [OF g1(2) 1(1,2,3)] show ?case unfolding 1(4) by auto
qed simp

lemma gather_batches_Inr:
  assumes "fold_res (gather_batch k ws query authorize bound) configured g = Inr g'"
    "ga_seen g = set (map co_entity_id (ga_results g))" "gathered_ok ws authorize bound (ga_results g)"
  shows "gathered_ok ws authorize bound (ga_results g') \<and>
    (\<exists>batches. list_all2 (\<lambda>np b. snd np ws query authorize = Inr b) configured batches \<and>
       ga_results g' = ga_results g @ concat batches)"
  using assms
proof (induction configured arbitrary: g)
  case Nil
  then show ?case by simp
next
  case (Cons np configured)
  from Cons.prems(1) obtain g1 where g1: "gather_batch k ws query authorize bound np g = Inr g1"
    "fold_res (gather_batch k ws query authorize bound) configured g1 = Inr g'" by auto
  from g1(1) obtain batch where batch: "snd np ws query authorize = Inr batch"
    "int (length (ga_results g) + length batch) \<le> bound" "fold_res (gather_observation k ws authorize) batch g = Inr g1"
    by (auto simp: gather_batch_def raise_if_def split: prod.splits if_splits)
  from gather_observations_Inr [OF batch(3) Cons.prems(2,3) batch(2)]
  have 1: "ga_results g1 = ga_results g @ batch" "ga_seen g1 = set (map co_entity_id (ga_results g1))"
    "gathered_ok ws authorize bound (ga_results g1)" by auto
  from Cons.IH [OF g1(2) 1(2,3)] obtain batches where "gathered_ok ws authorize bound (ga_results g')"
    "list_all2 (\<lambda>np b. snd np ws query authorize = Inr b) configured batches" "ga_results g' = ga_results g1 @ concat batches"
    by blast
  with batch(1) 1(1) show ?case by (intro conjI exI [of _ "batch # batches"]) auto
qed

lemma gather_all_Inr:
  assumes "gather_all k ws query authorize bound configured = Inr os" "0 \<le> bound"
  shows "gathered_ok ws authorize bound os" "sorted (map (\<lambda>o1. (co_entity_id o1, co_stream_id o1)) os)"
    and "\<exists>batches. list_all2 (\<lambda>np b. snd np ws query authorize = Inr b) configured batches \<and> mset os = mset (concat batches)"
proof -
  from assms(1) obtain g where g: "fold_res (gather_batch k ws query authorize bound) configured \<lparr>ga_results = [], ga_seen = {}\<rparr> = Inr g"
    "os = sort_key (\<lambda>o1. (co_entity_id o1, co_stream_id o1)) (ga_results g)" by (auto simp: gather_all_def)
  from gather_batches_Inr [OF g(1)] assms(2) have ok: "gathered_ok ws authorize bound (ga_results g)"
    and batches: "\<exists>batches. list_all2 (\<lambda>np b. snd np ws query authorize = Inr b) configured batches \<and> ga_results g = concat batches"
    by (simp_all add: gathered_ok_def)
  show "sorted (map (\<lambda>o1. (co_entity_id o1, co_stream_id o1)) os)" by (simp add: g(2))
  have "mset (map co_entity_id os) = mset (map co_entity_id (ga_results g))" by (simp add: g(2))
  then have "distinct (map co_entity_id os) \<longleftrightarrow> distinct (map co_entity_id (ga_results g))" by (rule mset_eq_imp_distinct_iff)
  with ok show "gathered_ok ws authorize bound os" by (simp add: gathered_ok_def g(2))
  from batches show "\<exists>batches. list_all2 (\<lambda>np b. snd np ws query authorize = Inr b) configured batches \<and> mset os = mset (concat batches)"
    by (auto simp: g(2) simp del: mset_concat)
qed

text \<open>C23: A composed contact reader returns only what the caller may see. Whenever it returns, the records are all
  of the asked workspace, from streams the authorizer accepts, with distinct entity ids, at most as many as
  asked, sorted by id; and they are exactly what the configured readers returned, none dropped or added.
\<close>

theorem composed_reader_contract:
  assumes "compose_contact_observation_providers providers max_observations = Inr reader"
    and "reader ws limit authorize = Inr os"
  shows "limit \<le> max_observations \<and> int (length os) \<le> limit \<and> distinct (map co_entity_id os) \<and>
    (\<forall>o1\<in>set os. co_workspace_id o1 = ws \<and> authorize ws (co_stream_id o1)) \<and> sorted (map co_entity_id os) \<and>
    (\<exists>batches. list_all2 (\<lambda>np b. snd np ws limit authorize = Inr b) (sort_key fst (map (map_prod py_strip id) providers)) batches \<and>
       mset os = mset (concat batches))"
proof -
  let ?configured = "sort_key fst (map (map_prod py_strip id) providers)"
  from assms have r: "gather_all BookReader ws limit authorize limit ?configured = Inr os"
    and limit: "1 \<le> limit" "limit \<le> max_observations"
    by (auto simp: compose_contact_observation_providers_def configured_readers_def raise_if_def split: if_splits)
  have "0 \<le> limit" using limit by simp
  note g = gather_all_Inr [OF r this]
  have "sorted (map co_entity_id os)"
    using g(2) by (induction os) (force simp: less_eq_prod_def)+
  with g limit show ?thesis by (simp add: gathered_ok_def)
qed

text \<open>Two readers, the second named with a blank around its name.\<close>

theorem composed_reader_contract_witness:
  "\<exists>reader. compose_contact_observation_providers
      [('' b'', \<lambda>ws n a. Inr [example_observation ''x'']), (''a'', \<lambda>ws n a. Inr [example_observation ''y''])] 5 = Inr reader \<and>
    (\<exists>os. reader ''w'' 2 (\<lambda>ws s. s = ''s'') = Inr os \<and> map co_entity_id os = [''x'', ''y''] \<and>
       (\<forall>o1\<in>set os. co_workspace_id o1 = ''w''))"
proof -
  let ?ps = "[('' b'', \<lambda>ws n a. Inr [example_observation ''x'']), (''a'', \<lambda>ws n a. Inr [example_observation ''y''])]"
  have "(case compose_contact_observation_providers ?ps 5 of Inl e \<Rightarrow> False | Inr reader \<Rightarrow>
      (case reader ''w'' 2 (\<lambda>ws s. s = ''s'') of Inl e \<Rightarrow> False | Inr os \<Rightarrow> map co_entity_id os = [''x'', ''y'']))"
    by code_simp
  then obtain reader os where 1: "compose_contact_observation_providers ?ps 5 = Inr reader"
    "reader ''w'' 2 (\<lambda>ws s. s = ''s'') = Inr os" "map co_entity_id os = [''x'', ''y'']"
    by (auto split: sum.splits)
  have "\<forall>o1\<in>set os. co_workspace_id o1 = ''w''" using composed_reader_contract [OF 1(1,2)] by simp
  with 1 show ?thesis by (intro exI [of _ reader] exI [of _ os] conjI)
qed

end
