(* ===== verification/Contact_Groups.thy ===== *)
theory Contact_Groups
  imports Contact_Book
begin

text \<open>
  What the address book promises: the grouping loop always ends, and two contact records share an entry
  exactly when reviewed identity links connect them. The union-find structure of
  disambiguation/contact\_book.py is refined against the equivalence generated by the links.
\<close>

section \<open>Roots\<close>

text \<open>A parent is never greater than its child, so every path ends at a root.\<close>

definition uf_inv :: "parents \<Rightarrow> bool" where
  "uf_inv p \<longleftrightarrow> finite (dom p) \<and> (\<forall>x y. p x = Some y \<longrightarrow> y \<in> dom p \<and> y \<le> x)"

inductive root_of :: "parents \<Rightarrow> string \<Rightarrow> string \<Rightarrow> bool" for p :: parents where
  root_self: "p r = Some r \<Longrightarrow> root_of p r r"
| root_step: "p x = Some y \<Longrightarrow> y \<noteq> x \<Longrightarrow> root_of p y r \<Longrightarrow> root_of p x r"

inductive_cases root_ofE: "root_of p x r"

lemma root_unique: "root_of p x r \<Longrightarrow> root_of p x r' \<Longrightarrow> r' = r"
proof (induction arbitrary: r' rule: root_of.induct)
  case (root_self r)
  from root_self(2,1) show ?case by cases auto
next
  case (root_step x y r)
  from root_step.prems show ?case
  proof cases
    case root_self
    with root_step.hyps(1,2) show ?thesis by simp
  next
    case (root_step y')
    with root_step.hyps(1) have "root_of p y r'" by simp
    then show ?thesis by (rule root_step.IH)
  qed
qed

lemma root_is_root: "root_of p x r \<Longrightarrow> p r = Some r"
  by (induction rule: root_of.induct) auto

lemma root_dom: "root_of p x r \<Longrightarrow> x \<in> dom p"
  by (auto elim: root_ofE)

lemma finite_less_induct:
  assumes "finite D" "(x::'a::linorder) \<in> D" "\<And>x. x \<in> D \<Longrightarrow> (\<And>y. y \<in> D \<Longrightarrow> y < x \<Longrightarrow> P y) \<Longrightarrow> P x"
  shows "P x"
proof -
  have "x \<in> D \<longrightarrow> P x" for x
  proof (induction "card {y \<in> D. y < x}" arbitrary: x rule: less_induct)
    case less
    show ?case
    proof
      assume x: "x \<in> D"
      then show "P x"
      proof (rule assms(3))
        fix y assume y: "y \<in> D" "y < x"
        have "{z \<in> D. z < y} \<subset> {z \<in> D. z < x}" using y by auto
        then have "card {z \<in> D. z < y} < card {z \<in> D. z < x}" using assms(1) by (intro psubset_card_mono) auto
        with less y(1) show "P y" by blast
      qed
    qed
  qed
  with assms(2) show ?thesis by blast
qed

lemma root_exists:
  assumes "uf_inv p" "x \<in> dom p"
  obtains r where "root_of p x r"
proof -
  have "\<exists>r. root_of p x r"
  proof (rule finite_less_induct [where D = "dom p"])
    show "finite (dom p)" "x \<in> dom p" using assms by (simp_all add: uf_inv_def)
    fix w assume w: "w \<in> dom p" and IH: "\<And>y. y \<in> dom p \<Longrightarrow> y < w \<Longrightarrow> \<exists>r. root_of p y r"
    from w obtain y where y: "p w = Some y" by auto
    with assms(1) have "y \<in> dom p" "y \<le> w" by (auto simp: uf_inv_def)
    then consider "y = w" | "y < w" "\<exists>r. root_of p y r" using IH [of y] by fastforce
    then show "\<exists>r. root_of p w r"
      using y by cases (auto intro: root_self root_step)
  qed
  with that show thesis by blast
qed

section \<open>The loop of find\<close>

text \<open>Two structures with the same elements and the same roots.\<close>

definition same_roots :: "parents \<Rightarrow> parents \<Rightarrow> bool" where
  "same_roots p q \<longleftrightarrow> dom q = dom p \<and> uf_inv q \<and> root_of q = root_of p"

lemma same_roots_refl: "uf_inv p \<Longrightarrow> same_roots p p"
  by (simp add: same_roots_def)

lemma same_roots_trans: "same_roots p q \<Longrightarrow> same_roots q r \<Longrightarrow> same_roots p r"
  by (simp add: same_roots_def)

lemma halve_path:
  assumes inv: "uf_inv p" and xyz: "p x = Some y" "y \<noteq> x" "p y = Some z"
  shows "same_roots p (p(x \<mapsto> z))" "z < x"
proof -
  let ?q = "p(x \<mapsto> z)"
  have "y \<le> x" "z \<le> y" and zd: "z \<in> dom p" using inv xyz unfolding uf_inv_def by blast+
  with xyz(2) have zx: "z < x" "z \<in> dom p" by auto
  then show "z < x" by simp
  have d: "dom ?q = dom p" using xyz by auto
  have q: "uf_inv ?q" using inv zx xyz unfolding uf_inv_def by (auto simp: d dest: order.strict_implies_order)
  have sub: "root_of p w r" if "root_of ?q w r" for w r
    using that
  proof (induction rule: root_of.induct)
    case (root_self r)
    then show ?case using zx by (auto split: if_splits intro: root_of.root_self)
  next
    case (root_step w v r)
    show ?case
    proof (cases "w = x")
      case True
      then have "root_of p z r" using root_step by simp
      then have "root_of p y r" using xyz(3) by (cases "z = y") (auto intro: root_of.root_step)
      with True xyz(1,2) show ?thesis by (auto intro: root_of.root_step)
    next
      case False
      with root_step show ?thesis by (auto intro: root_of.root_step)
    qed
  qed
  have "root_of ?q w r" if "root_of p w r" for w r
  proof -
    have "w \<in> dom ?q" using root_dom [OF that] d by simp
    from root_exists [OF q this] obtain r' where "root_of ?q w r'" .
    with sub that root_unique show ?thesis by blast
  qed
  with sub d q show "same_roots p ?q" by (auto simp: same_roots_def fun_eq_iff)
qed

lemma uf_find_returns:
  assumes "uf_inv p" "x \<in> dom p"
  shows "\<exists>q r. uf_find p x = Some (Inr (q, r)) \<and> same_roots p q \<and> root_of p x r"
proof -
  have "\<forall>p. uf_inv p \<and> dom p = D \<longrightarrow> (\<exists>q r. uf_find p x = Some (Inr (q, r)) \<and> same_roots p q \<and> root_of p x r)"
    if "finite D" "x \<in> D" for D
    using that
  proof (rule finite_less_induct)
    fix x assume x: "x \<in> D" and IH: "\<And>y. y \<in> D \<Longrightarrow> y < x \<Longrightarrow> \<forall>p. uf_inv p \<and> dom p = D \<longrightarrow>
      (\<exists>q r. uf_find p y = Some (Inr (q, r)) \<and> same_roots p q \<and> root_of p y r)"
    show "\<forall>p. uf_inv p \<and> dom p = D \<longrightarrow> (\<exists>q r. uf_find p x = Some (Inr (q, r)) \<and> same_roots p q \<and> root_of p x r)"
    proof (intro allI impI)
      fix p assume p: "uf_inv p \<and> dom p = D"
      with x obtain y where y: "p x = Some y" by auto
      show "\<exists>q r. uf_find p x = Some (Inr (q, r)) \<and> same_roots p q \<and> root_of p x r"
      proof (cases "y = x")
        case True
        with y p show ?thesis by (subst uf_find.simps) (auto simp: same_roots_refl intro: root_self)
      next
        case False
        from p y obtain z where z: "p y = Some z" by (fastforce simp: uf_inv_def)
        note h = halve_path [OF _ y False z]
        have "z \<in> D" using p z by (auto simp: uf_inv_def)
        moreover have "uf_inv (p(x \<mapsto> z)) \<and> dom (p(x \<mapsto> z)) = D"
          using h p by (auto simp: same_roots_def)
        ultimately obtain q r where q: "uf_find (p(x \<mapsto> z)) z = Some (Inr (q, r))" "same_roots (p(x \<mapsto> z)) q"
          "root_of (p(x \<mapsto> z)) z r"
          using IH [of z] h(2) p by blast
        have e: "uf_find p x = Some (Inr (q, r))"
          using q(1) y z False by (subst uf_find.simps) simp
        have "root_of (p(x \<mapsto> z)) x r"
          using q(3) h(2) p by (intro root_step [of _ x z]) auto
        then show ?thesis
          using e q(2) h(1) p same_roots_trans by (auto simp: same_roots_def)
      qed
    qed
  qed
  with assms show ?thesis by (auto simp: uf_inv_def)
qed

lemma uf_find_unknown: "x \<notin> dom p \<Longrightarrow> uf_find p x = Some (Inl (KeyError x))"
  by (subst uf_find.simps) (auto split: option.split)

section \<open>Union refines the generated equivalence\<close>

definition joined :: "parents \<Rightarrow> string \<Rightarrow> string \<Rightarrow> bool" where
  "joined p x y \<longleftrightarrow> (\<exists>r. root_of p x r \<and> root_of p y r)"

definition linked :: "(string \<times> string) set \<Rightarrow> string \<Rightarrow> string \<Rightarrow> bool" where
  "linked L x y \<longleftrightarrow> (x, y) \<in> (L \<union> L\<inverse>)\<^sup>*"

text \<open>The structure \<open>p\<close> on the elements \<open>D\<close> represents the equivalence generated by \<open>L\<close>.\<close>

definition represents :: "string set \<Rightarrow> (string \<times> string) set \<Rightarrow> parents \<Rightarrow> bool" where
  "represents D L p \<longleftrightarrow> uf_inv p \<and> dom p = D \<and> L \<subseteq> D \<times> D \<and> (\<forall>x\<in>D. \<forall>y\<in>D. joined p x y \<longleftrightarrow> linked L x y)"

lemma linked_trans: "linked L x y \<Longrightarrow> linked L y z \<Longrightarrow> linked L x z"
  unfolding linked_def by (rule rtrancl_trans)

lemma linked_sym: "linked L x y \<Longrightarrow> linked L y x"
  unfolding linked_def by (metis converse_Un converse_converse rtrancl_converseI sup_commute)

lemma linked_mono: "L \<subseteq> M \<Longrightarrow> linked L x y \<Longrightarrow> linked M x y"
  unfolding linked_def by (meson Un_mono converse_mono rtrancl_mono subsetD)

lemma represents_same_roots: "represents D L p \<Longrightarrow> same_roots p q \<Longrightarrow> represents D L q"
  by (auto simp: represents_def same_roots_def joined_def)

lemma joined_equiv:
  "joined p x y \<Longrightarrow> joined p y x" "joined p x y \<Longrightarrow> joined p y z \<Longrightarrow> joined p x z"
  unfolding joined_def by (auto dest: root_unique)

lemma joined_refl: "uf_inv p \<Longrightarrow> x \<in> dom p \<Longrightarrow> joined p x x"
  unfolding joined_def using root_exists by metis

lemma root_of_union:
  assumes inv: "uf_inv p" and ab: "p a = Some a" "p b = Some b" "b < a"
  shows "uf_inv (p(a \<mapsto> b))" "dom (p(a \<mapsto> b)) = dom p"
    and "root_of p w r \<Longrightarrow> root_of (p(a \<mapsto> b)) w (if r = a then b else r)"
proof -
  show "uf_inv (p(a \<mapsto> b))" using inv ab unfolding uf_inv_def by (auto dest: order.strict_implies_order)
  show "dom (p(a \<mapsto> b)) = dom p" using ab by auto
  have b: "root_of (p(a \<mapsto> b)) b b" using ab by (intro root_self) auto
  show "root_of (p(a \<mapsto> b)) w (if r = a then b else r)" if "root_of p w r"
    using that
  proof (induction rule: root_of.induct)
    case (root_self r)
    show ?case
    proof (cases "r = a")
      case True
      have "root_of (p(a \<mapsto> b)) a b" by (rule root_step [OF _ _ b]) (use ab in auto)
      with True show ?thesis by (simp only: if_True refl)
    next
      case False
      with root_self show ?thesis by (auto intro: root_of.root_self)
    qed
  next
    case (root_step w v r)
    then have "w \<noteq> a" using ab by auto
    with root_step show ?case by (intro root_of.root_step [of _ w v]) auto
  qed
qed

lemma represents_union:
  assumes rep: "represents D L p" and lr: "l \<in> D" "r \<in> D"
    and roots: "root_of p l lr" "root_of p r rr" "lr \<noteq> rr"
  shows "represents D (insert (l, r) L) (p(max lr rr \<mapsto> min lr rr))"
proof -
  let ?q = "p(max lr rr \<mapsto> min lr rr)" and ?L = "insert (l, r) L"
  have inv: "uf_inv p" and dom: "dom p = D" using rep by (simp_all add: represents_def)
  note self = root_is_root [OF roots(1)] root_is_root [OF roots(2)]
  have ab: "p (max lr rr) = Some (max lr rr)" "p (min lr rr) = Some (min lr rr)" "min lr rr < max lr rr"
    using self roots(3) by (auto simp: max_def min_def)
  note u = root_of_union [OF inv ab]
  have lr_joined: "joined ?q l r"
    using u(3) [OF roots(1)] u(3) [OF roots(2)] unfolding joined_def
    by (cases "lr < rr") (auto simp: max_def min_def split: if_splits)
  have keep: "joined ?q x y" if "joined p x y" for x y
    using that u(3) unfolding joined_def by metis
  have "linked ?L x y" if xy: "x \<in> D" "y \<in> D" "joined ?q x y" for x y
  proof -
    from xy(1,2) obtain rx ry where r: "root_of p x rx" "root_of p y ry" using root_exists [OF inv] dom by metis
    have base: "linked ?L u v" if "root_of p u s" "root_of p v s" "u \<in> D" "v \<in> D" for u v s
    proof -
      have "joined p u v" using that(1,2) by (auto simp: joined_def)
      then have "linked L u v" using rep that(3,4) by (simp add: represents_def)
      then show ?thesis by (rule linked_mono [rotated]) auto
    qed
    have link: "linked ?L l r" by (auto simp: linked_def)
    from xy(3) u(3) [OF r(1)] u(3) [OF r(2)]
    have "(if rx = max lr rr then min lr rr else rx) = (if ry = max lr rr then min lr rr else ry)"
      unfolding joined_def by (metis root_unique)
    then consider "rx = ry" | "rx = lr" "ry = rr" | "rx = rr" "ry = lr"
      by (auto simp: max_def min_def split: if_splits)
    then show ?thesis
    proof cases
      case 1
      then show ?thesis using base r xy by blast
    next
      case 2
      have "linked ?L x l" "linked ?L r y" using base r roots 2 xy lr by blast+
      with link show ?thesis by (meson linked_trans)
    next
      case 3
      have "linked ?L x r" "linked ?L l y" using base r roots 3 xy lr by blast+
      with link show ?thesis by (meson linked_trans linked_sym)
    qed
  qed
  moreover have "joined ?q x y" if "x \<in> D" "linked ?L x y" for x y
    using that(2) unfolding linked_def
  proof (induction rule: rtrancl_induct)
    case base
    from that(1) u(2) dom have "x \<in> dom ?q" by simp
    then show ?case by (rule joined_refl [OF u(1)])
  next
    case (step y z)
    have old: "joined ?q v w" if "(v, w) \<in> L" for v w
    proof -
      have "linked L v w" "v \<in> D" "w \<in> D" using that rep by (auto simp: linked_def represents_def)
      then show ?thesis using rep by (intro keep) (simp add: represents_def)
    qed
    from step(2) consider "(y, z) \<in> L" | "(z, y) \<in> L" | "y = l" "z = r" | "y = r" "z = l" by blast
    then have "joined ?q y z"
      by cases (use old lr_joined joined_equiv(1) in blast)+
    with step(3) show ?case by (rule joined_equiv(2))
  qed
  ultimately have "\<forall>x\<in>D. \<forall>y\<in>D. joined ?q x y \<longleftrightarrow> linked ?L x y" by blast
  moreover have "?L \<subseteq> D \<times> D" using rep lr by (auto simp: represents_def)
  moreover have "dom ?q = D" using u(2) dom by (simp only:)
  ultimately show ?thesis using u(1) unfolding represents_def by blast
qed

lemma represents_known_link:
  assumes "represents D L p" "l \<in> D" "r \<in> D" "joined p l r"
  shows "represents D (insert (l, r) L) p"
proof -
  have lr: "linked L l r" using assms by (simp add: represents_def)
  then have "(insert (l, r) L \<union> (insert (l, r) L)\<inverse>)\<^sup>* = (L \<union> L\<inverse>)\<^sup>*"
    using linked_sym [OF lr] by (intro rtrancl_subset) (auto simp: linked_def)
  then have "linked (insert (l, r) L) x y \<longleftrightarrow> linked L x y" for x y by (simp only: linked_def)
  with assms show ?thesis by (simp add: represents_def)
qed

lemma ro_bind_simps [simp]:
  "ro_bind (Some (Inr a)) f = f a" "ro_bind (Some (Inl e)) f = Some (Inl e)" "ro_bind None f = None"
  by (simp_all add: ro_bind_def)

lemma find_represents:
  assumes "represents D L p" "x \<in> D"
  obtains q r where "uf_find p x = Some (Inr (q, r))" "same_roots p q" "root_of p x r" "represents D L q"
  using uf_find_returns [of p x] assms represents_same_roots unfolding represents_def by metis

lemma union_link_represents:
  assumes "represents D L p" "l \<in> D" "r \<in> D"
  shows "\<exists>q. union_link (l, r, c) p = Some (Inr q) \<and> represents D (insert (l, r) L) q"
proof -
  from find_represents [OF assms(1,2)] obtain p1 lr where p1: "uf_find p l = Some (Inr (p1, lr))" "same_roots p p1"
    "root_of p l lr" "represents D L p1" .
  from find_represents [OF p1(4) assms(3)] obtain p2 rr where p2: "uf_find p1 r = Some (Inr (p2, rr))" "same_roots p1 p2"
    "root_of p1 r rr" "represents D L p2" .
  have roots: "root_of p2 l lr" "root_of p2 r rr" using p1 p2 by (simp_all add: same_roots_def)
  show ?thesis
  proof (cases "lr = rr")
    case True
    then have "joined p2 l r" using roots by (auto simp: joined_def)
    with p1 p2 True assms show ?thesis by (simp add: union_link_def represents_known_link)
  next
    case False
    have e: "union_link (l, r, c) p = Some (Inr (p2(max lr rr \<mapsto> min lr rr)))"
      using p1(1) p2(1) False by (simp add: union_link_def)
    show ?thesis
      using represents_union [OF p2(4) assms(2,3) roots False] unfolding e by blast
  qed
qed

definition link_pairs :: "(string \<times> string \<times> string option) list \<Rightarrow> (string \<times> string) set" where
  "link_pairs same = (\<lambda>(l, r, c). (l, r)) ` set same"

lemma union_links_represents:
  assumes "represents D L p" "link_pairs same \<subseteq> D \<times> D"
  shows "\<exists>q. fold_ro union_link same p = Some (Inr q) \<and> represents D (L \<union> link_pairs same) q"
  using assms
proof (induction same arbitrary: L p)
  case Nil
  then show ?case by (simp add: link_pairs_def)
next
  case (Cons link same)
  obtain l r c where link: "link = (l, r, c)" by (metis surj_pair)
  with Cons.prems(2) have lr: "l \<in> D" "r \<in> D" "link_pairs same \<subseteq> D \<times> D" by (auto simp: link_pairs_def)
  from union_link_represents [OF Cons.prems(1) lr(1,2), of c]
  obtain q where q: "union_link link p = Some (Inr q)" "represents D (insert (l, r) L) q" by (auto simp: link)
  from Cons.IH [OF q(2) lr(3)] q(1) show ?case by (auto simp: link link_pairs_def)
qed

lemma any_joined_returns:
  assumes "represents D L p" "set pairs \<subseteq> D \<times> D"
  shows "\<exists>q. any_joined pairs p = Some (Inr (q, \<exists>(l, r)\<in>set pairs. linked L l r)) \<and> represents D L q"
  using assms
proof (induction pairs arbitrary: p)
  case (Cons lr pairs)
  obtain l r where lr: "lr = (l, r)" by (cases lr)
  with Cons.prems(2) have D: "l \<in> D" "r \<in> D" "set pairs \<subseteq> D \<times> D" by auto
  from find_represents [OF Cons.prems(1) D(1)] obtain p1 lt where p1: "uf_find p l = Some (Inr (p1, lt))" "same_roots p p1"
    "root_of p l lt" "represents D L p1" .
  from find_represents [OF p1(4) D(2)] obtain p2 rt where p2: "uf_find p1 r = Some (Inr (p2, rt))" "same_roots p1 p2"
    "root_of p1 r rt" "represents D L p2" .
  have "root_of p r rt" using p1(2) p2(3) by (simp add: same_roots_def)
  then have "lt = rt \<longleftrightarrow> joined p l r" using p1(3) by (auto simp: joined_def dest: root_unique)
  then have "lt = rt \<longleftrightarrow> linked L l r" using Cons.prems(1) D by (simp add: represents_def)
  with p1(1) p2 Cons.IH [OF p2(4) D(3)] show ?case by (auto simp: lr)
qed (simp add: represents_def)

lemma add_hints_return:
  assumes "represents D L p" "link_pairs same \<subseteq> D \<times> D"
  shows "\<exists>q h. fold_ro add_hint same (p, hints) = Some (Inr (q, h)) \<and> represents D L q"
  using assms
proof (induction same arbitrary: p hints)
  case (Cons link same)
  obtain l r c where link: "link = (l, r, c)" by (metis surj_pair)
  with Cons.prems(2) have lr: "l \<in> D" "link_pairs same \<subseteq> D \<times> D" by (auto simp: link_pairs_def)
  show ?case
  proof (cases c)
    case None
    with Cons lr show ?thesis by (simp add: link add_hint_def)
  next
    case (Some k)
    from find_represents [OF Cons.prems(1) lr(1)] obtain p1 rt where p1: "uf_find p l = Some (Inr (p1, rt))"
      "represents D L p1" by metis
    from Some p1(1) Cons.IH [OF p1(2) lr(2)] show ?thesis by (simp add: link add_hint_def)
  qed
qed simp

section \<open>Groups\<close>

definition groups_ok :: "parents \<Rightarrow> contact_observation list \<Rightarrow> (string \<times> contact_observation list) list \<Rightarrow> bool" where
  "groups_ok p done groups \<longleftrightarrow> distinct (map fst groups) \<and>
     (\<forall>rt. dict_get groups rt [] = filter (\<lambda>o1. root_of p (co_entity_id o1) rt) done) \<and>
     (\<forall>g\<in>set groups. snd g \<noteq> []) \<and> mset (concat (map snd groups)) = mset done"

lemma dict_get_update: "dict_get (AList.update k v d) k' dflt = (if k' = k then v else dict_get d k' dflt)"
  by (simp add: dict_get_def update_conv)

lemma mset_update_append:
  "mset (concat (map snd (AList.update k (dict_get d k [] @ [x]) d))) = add_mset x (mset (concat (map snd d)))"
  by (induction d) (auto simp: dict_get_def)

lemma groups_ok_step:
  assumes "groups_ok p done groups" "root_of p (co_entity_id o1) rt"
  shows "groups_ok p (done @ [o1]) (AList.update rt (dict_get groups rt [] @ [o1]) groups)"
proof -
  have "root_of p (co_entity_id o1) rt' \<longleftrightarrow> rt' = rt" for rt'
    using assms(2) by (auto dest: root_unique)
  moreover have "\<forall>g\<in>set (AList.update rt (dict_get groups rt [] @ [o1]) groups). snd g \<noteq> []"
    using assms(1) set_alist_update [of rt "dict_get groups rt [] @ [o1]" groups] by (fastforce simp: groups_ok_def)
  moreover have "mset (concat (map snd (AList.update rt (dict_get groups rt [] @ [o1]) groups))) = mset (done @ [o1])"
  proof -
    have "mset (concat (map snd groups)) = mset done" using assms(1) unfolding groups_ok_def by blast
    then show ?thesis unfolding mset_update_append by simp
  qed
  ultimately show ?thesis
    using assms(1) unfolding groups_ok_def dict_get_update by (auto simp: distinct_update simp del: mset_concat)
qed

lemma add_to_groups_return:
  assumes "represents D L p" "co_entity_id ` set items \<subseteq> D" "groups_ok p done groups"
  shows "\<exists>q gs. fold_ro add_to_group items (p, groups) = Some (Inr (q, gs)) \<and> represents D L q \<and>
    groups_ok p (done @ items) gs"
  using assms
proof (induction items arbitrary: p groups "done")
  case Nil
  then show ?case by simp
next
  case (Cons o1 items)
  from Cons.prems(2) have D: "co_entity_id o1 \<in> D" "co_entity_id ` set items \<subseteq> D" by auto
  from find_represents [OF Cons.prems(1) D(1)] obtain p1 rt where p1: "uf_find p (co_entity_id o1) = Some (Inr (p1, rt))"
    "same_roots p p1" "root_of p (co_entity_id o1) rt" "represents D L p1" .
  let ?g = "AList.update rt (dict_get groups rt [] @ [o1]) groups"
  have roots: "root_of p1 = root_of p" using p1(2) by (simp add: same_roots_def)
  have "groups_ok p1 (done @ [o1]) ?g"
    using groups_ok_step [OF Cons.prems(3) p1(3)] unfolding groups_ok_def roots .
  from Cons.IH [OF p1(4) D(2) this] p1(1) show ?case by (simp add: add_to_group_def groups_ok_def roots)
qed

definition shares_entry :: "address_entry list \<Rightarrow> string \<Rightarrow> string \<Rightarrow> bool" where
  "shares_entry entries a b \<longleftrightarrow> (\<exists>e\<in>set entries. a \<in> set (ae_entity_ids e) \<and> b \<in> set (ae_entity_ids e))"

lemma make_entry_ids: "ae_entity_ids (make_entry ws hints g) = sort (map co_entity_id (snd g))"
  by (simp add: make_entry_def Let_def split: prod.split)

lemma groups_share:
  assumes rep: "represents D L p" and ok: "groups_ok p items groups" and D: "co_entity_id ` set items = D"
    and ab: "a \<in> D" "b \<in> D"
  shows "(\<exists>g\<in>set groups. a \<in> co_entity_id ` set (snd g) \<and> b \<in> co_entity_id ` set (snd g)) \<longleftrightarrow> linked L a b"
proof -
  have members: "snd g = filter (\<lambda>o1. root_of p (co_entity_id o1) (fst g)) items" if "g \<in> set groups" for g
    using ok that unfolding groups_ok_def dict_get_def by (metis map_of_is_SomeI option.simps(5) prod.collapse)
  have "joined p a b" if "g \<in> set groups" "a \<in> co_entity_id ` set (snd g)" "b \<in> co_entity_id ` set (snd g)" for g
    using that members [OF that(1)] by (auto simp: joined_def)
  moreover have "\<exists>g\<in>set groups. a \<in> co_entity_id ` set (snd g) \<and> b \<in> co_entity_id ` set (snd g)" if "joined p a b"
  proof -
    from that obtain rt where rt: "root_of p a rt" "root_of p b rt" by (auto simp: joined_def)
    let ?m = "filter (\<lambda>o1. root_of p (co_entity_id o1) rt) items"
    have in_m: "a \<in> co_entity_id ` set ?m" "b \<in> co_entity_id ` set ?m" using ab D rt by auto
    then have "?m \<noteq> []" by (metis empty_iff image_empty list.set(1))
    then have "dict_get groups rt [] \<noteq> []" using ok by (simp add: groups_ok_def)
    then have "map_of groups rt = Some ?m"
      using ok by (auto simp: groups_ok_def dict_get_def split: option.splits)
    then have "(rt, ?m) \<in> set groups" by (rule map_of_SomeD)
    with in_m show ?thesis by force
  qed
  ultimately show ?thesis using rep ab unfolding represents_def by blast
qed

lemma mset_concat_sort: "mset (concat (map f (sort_key k xs))) = mset (concat (map f xs))"
  by (simp add: mset_concat flip: sum_mset_sum_list)

lemma initial_represents:
  assumes "co_entity_id ` set items = D"
  shows "represents D {} (map_of (map (\<lambda>o1. (co_entity_id o1, co_entity_id o1)) items))"
proof -
  let ?p = "map_of (map (\<lambda>o1. (co_entity_id o1, co_entity_id o1)) items)"
  have "map_of (map (\<lambda>o1. (co_entity_id o1, co_entity_id o1)) os) x = (if x \<in> co_entity_id ` set os then Some x else None)" for os x
    by (induction os) auto
  then have p: "?p = (\<lambda>x. if x \<in> D then Some x else None)" using assms by auto
  have "root_of (\<lambda>x. if x \<in> D then Some x else None) x r \<Longrightarrow> x \<in> D \<and> r = x" for x r
    by (induction rule: root_of.induct) (auto split: if_splits)
  then have "root_of (\<lambda>x. if x \<in> D then Some x else None) x r \<longleftrightarrow> x \<in> D \<and> r = x" for x r
    by (auto intro: root_self)
  then have "joined (\<lambda>x. if x \<in> D then Some x else None) x y \<longleftrightarrow> x \<in> D \<and> x = y" for x y
    by (auto simp: joined_def)
  moreover have "finite D" using assms by auto
  moreover have "dom (\<lambda>x. if x \<in> D then Some x else None) = D" by (auto simp: dom_def)
  ultimately show ?thesis
    unfolding p by (auto simp: represents_def uf_inv_def linked_def split: if_splits)
qed

lemma address_entries_outcome:
  assumes D: "co_entity_id ` set items = D" and links: "link_pairs same \<subseteq> D \<times> D" "dst \<subseteq> D \<times> D"
  shows "\<exists>r. address_entries ws items (same, dst) = Some r \<and> (\<forall>entries. r = Inr entries \<longrightarrow>
    (\<forall>a\<in>D. \<forall>b\<in>D. shares_entry entries a b \<longleftrightarrow> linked (link_pairs same) a b) \<and>
    (\<forall>(a, b)\<in>dst. \<not> linked (link_pairs same) a b) \<and>
    mset (concat (map ae_entity_ids entries)) = mset (map co_entity_id items))"
proof -
  have fin: "finite dst" using links(2) D by (metis List.finite_set finite_SigmaI finite_imageI finite_subset)
  from union_links_represents [OF initial_represents [OF D] links(1)] obtain p1 where p1:
    "fold_ro union_link same (map_of (map (\<lambda>o1. (co_entity_id o1, co_entity_id o1)) items)) = Some (Inr p1)"
    "represents D (link_pairs same) p1" by auto
  let ?conflict = "\<exists>(l, r)\<in>dst. linked (link_pairs same) l r"
  from any_joined_returns [OF p1(2), of "sorted_list_of_set dst"] links(2) fin obtain p2 where p2:
    "any_joined (sorted_list_of_set dst) p1 = Some (Inr (p2, ?conflict))" "represents D (link_pairs same) p2" by auto
  from add_hints_return [OF p2(2) links(1)] obtain p3 hints where p3:
    "fold_ro add_hint same (p2, []) = Some (Inr (p3, hints))" "represents D (link_pairs same) p3" by blast
  have "groups_ok p3 [] []" by (simp add: groups_ok_def dict_get_def)
  from add_to_groups_return [OF p3(2) _ this, of items] D obtain p4 groups where p4:
    "fold_ro add_to_group items (p3, []) = Some (Inr (p4, groups))" "groups_ok p3 items groups" by auto
  let ?entries = "sort_key ae_contact_id (map (make_entry ws hints) groups)"
  have e: "address_entries ws items (same, dst) = Some (if ?conflict
        then Inl (ValueError ''reviewed identity decisions contain a SAME/DISTINCT conflict'')
      else if \<exists>h\<in>set hints. 1 < card (snd h) then Inl (ValueError ''reviewed identity links disagree on canonical contact ID'')
      else Inr ?entries)"
    using p1(1) p2(1) p3(1) p4(1) by (simp add: address_entries_def Let_def)
  have "shares_entry ?entries a b \<longleftrightarrow> linked (link_pairs same) a b" if "a \<in> D" "b \<in> D" for a b
    using groups_share [OF p3(2) p4(2) D that] by (simp add: shares_entry_def make_entry_ids)
  moreover have "mset (concat (map ae_entity_ids ?entries)) = mset (map co_entity_id (concat (map snd groups)))"
    unfolding mset_concat_sort by (induction groups) (simp_all add: make_entry_ids)
  then have "mset (concat (map ae_entity_ids ?entries)) = mset (map co_entity_id items)"
    using p4(2) by (simp add: groups_ok_def)
  ultimately show ?thesis unfolding e by auto
qed

section \<open>The reviewed links\<close>

text \<open>
  A decision speaks for a pair when it is resolved and was taken on the evidence the two records hold now.
\<close>

definition current_decision ::
    "hash_fn \<Rightarrow> contact_observation list \<Rightarrow> disambiguation_candidate \<Rightarrow> string \<times> string \<Rightarrow> bool" where
  "current_decision sha items c ab \<longleftrightarrow> dc_artifact_status c = DasResolved \<and> sort (dc_entity_ids c) = [fst ab, snd ab] \<and>
     (\<exists>l\<in>set items. \<exists>r\<in>set items. \<exists>basis. co_entity_id l = fst ab \<and> co_entity_id r = snd ab \<and>
        jget (dc_metadata c) ''match_basis'' = JStr basis \<and>
        contact_evidence_snapshot_id sha l r basis = Inr (dc_evidence_snapshot_id c))"

definition decided_pairs ::
    "hash_fn \<Rightarrow> contact_observation list \<Rightarrow> decision_kind \<Rightarrow> disambiguation_candidate list \<Rightarrow> (string \<times> string) set" where
  "decided_pairs sha items kind reviewed =
     {ab. \<exists>c\<in>set reviewed. dc_semantic_decision c = kind \<and> current_decision sha items c ab}"

lemma lookup_keyed:
  "distinct (map co_entity_id items) \<Longrightarrow>
   lookup_observation (map (\<lambda>o1. (co_entity_id o1, o1)) items) e = Inr l \<longleftrightarrow> l \<in> set items \<and> co_entity_id l = e"
proof (induction items)
  case (Cons o1 items)
  have "co_entity_id l \<noteq> co_entity_id o1" if "l \<in> set items"
    using imageI [OF that, of co_entity_id] Cons.prems by (metis distinct.simps(2) list.set_map list.simps(9))
  moreover have "lookup_observation (map (\<lambda>o1. (co_entity_id o1, o1)) (o1 # items)) e =
      (if co_entity_id o1 = e then Inr o1 else lookup_observation (map (\<lambda>o1. (co_entity_id o1, o1)) items) e)"
    by (simp add: lookup_observation_def)
  ultimately show ?case using Cons by (cases "co_entity_id o1 = e") auto
qed (simp add: lookup_observation_def)

lemma lookup_unknown:
  "e \<notin> co_entity_id ` set items \<Longrightarrow>
   lookup_observation (map (\<lambda>o1. (co_entity_id o1, o1)) items) e = Inl (KeyError e)"
  by (induction items) (auto simp: lookup_observation_def split: option.splits)

lemma current_decision_iff:
  assumes d: "distinct (map co_entity_id items)"
    and c: "dc_artifact_status c = DasResolved" "sort (dc_entity_ids c) = [a, b]" "jget (dc_metadata c) ''match_basis'' = JStr basis"
    and lr: "l \<in> set items" "co_entity_id l = a" "r \<in> set items" "co_entity_id r = b"
  shows "current_decision sha items c ab \<longleftrightarrow>
    ab = (a, b) \<and> contact_evidence_snapshot_id sha l r basis = Inr (dc_evidence_snapshot_id c)"
proof -
  have inj: "inj_on co_entity_id (set items)" using d by (simp add: distinct_map)
  have uniq: "o1 \<in> set items \<and> co_entity_id o1 = a \<longleftrightarrow> o1 = l" "o1 \<in> set items \<and> co_entity_id o1 = b \<longleftrightarrow> o1 = r" for o1
    using inj_onD [OF inj] lr by metis+
  have "current_decision sha items c ab \<longleftrightarrow> ab = (a, b) \<and>
      (\<exists>l' r'. (l' \<in> set items \<and> co_entity_id l' = a) \<and> (r' \<in> set items \<and> co_entity_id r' = b) \<and>
        contact_evidence_snapshot_id sha l' r' basis = Inr (dc_evidence_snapshot_id c))"
    unfolding current_decision_def c by (cases ab) auto
  also have "\<dots> \<longleftrightarrow> ab = (a, b) \<and> contact_evidence_snapshot_id sha l r basis = Inr (dc_evidence_snapshot_id c)"
    unfolding uniq by simp
  finally show ?thesis .
qed

lemma reviewed_link_adds:
  assumes d: "distinct (map co_entity_id items)"
    and ok: "reviewed_link sha (map (\<lambda>o1. (co_entity_id o1, o1)) items) c (same, dst) = Inr (same', dst')"
  shows "link_pairs same' = link_pairs same \<union> decided_pairs sha items DdkSameEntity [c] \<and>
    dst' = dst \<union> decided_pairs sha items DdkDistinctEntities [c]"
proof (cases "dc_artifact_status c = DasResolved \<and> (\<exists>a b. sort (dc_entity_ids c) = [a, b]) \<and>
    (\<exists>basis. jget (dc_metadata c) ''match_basis'' = JStr basis)")
  case False
  then have "decided_pairs sha items k [c] = {}" for k by (auto simp: decided_pairs_def current_decision_def)
  moreover have "same' = same \<and> dst' = dst"
    using ok False by (auto simp: reviewed_link_def split: if_splits list.splits json.splits)
  ultimately show ?thesis by simp
next
  case True
  then obtain a b basis where c: "dc_artifact_status c = DasResolved" "sort (dc_entity_ids c) = [a, b]"
    "jget (dc_metadata c) ''match_basis'' = JStr basis" by blast
  from ok c obtain l r snapshot where lr: "l \<in> set items" "co_entity_id l = a" "r \<in> set items" "co_entity_id r = b"
    and snap: "contact_evidence_snapshot_id sha l r basis = Inr snapshot"
    by (auto simp: reviewed_link_def lookup_keyed [OF d])
  have look: "lookup_observation (map (\<lambda>o1. (co_entity_id o1, o1)) items) a = Inr l"
    "lookup_observation (map (\<lambda>o1. (co_entity_id o1, o1)) items) b = Inr r" using lr by (simp_all add: lookup_keyed [OF d])
  have "decided_pairs sha items k [c] =
      (if dc_semantic_decision c = k \<and> snapshot = dc_evidence_snapshot_id c then {(a, b)} else {})" for k
    using current_decision_iff [OF d c lr, of sha] snap by (auto simp: decided_pairs_def)
  moreover have "link_pairs (same @ [(a, b, k)]) = link_pairs same \<union> {(a, b)}" for k by (auto simp: link_pairs_def)
  ultimately show ?thesis using ok c look snap
    by (auto simp: reviewed_link_def split: if_splits)
qed

lemma decided_pairs_Cons:
  "decided_pairs sha items k (c # cs) = decided_pairs sha items k [c] \<union> decided_pairs sha items k cs"
  by (auto simp: decided_pairs_def)

lemma decided_pairs_known: "decided_pairs sha items k reviewed \<subseteq> co_entity_id ` set items \<times> co_entity_id ` set items"
  by (force simp: decided_pairs_def current_decision_def)

lemma reviewed_links:
  assumes d: "distinct (map co_entity_id items)"
    and ok: "fold_res (reviewed_link sha (map (\<lambda>o1. (co_entity_id o1, o1)) items)) reviewed (same, dst) = Inr (same', dst')"
  shows "link_pairs same' = link_pairs same \<union> decided_pairs sha items DdkSameEntity reviewed \<and>
    dst' = dst \<union> decided_pairs sha items DdkDistinctEntities reviewed"
  using ok
proof (induction reviewed arbitrary: same dst)
  case Nil
  then show ?case by (auto simp: decided_pairs_def)
next
  case (Cons c cs)
  from Cons.prems obtain s1 d1 where 1: "reviewed_link sha (map (\<lambda>o1. (co_entity_id o1, o1)) items) c (same, dst) = Inr (s1, d1)"
    "fold_res (reviewed_link sha (map (\<lambda>o1. (co_entity_id o1, o1)) items)) cs (s1, d1) = Inr (same', dst')" by auto
  from reviewed_link_adds [OF d 1(1)] Cons.IH [OF 1(2)]
  show ?case unfolding decided_pairs_Cons [of _ _ _ c cs] by blast
qed

section \<open>The projection returns, and refines the reviewed links\<close>

lemma address_entries_reviewed:
  assumes d: "distinct (map co_entity_id items)"
    and ok: "fold_res (reviewed_link sha (map (\<lambda>o1. (co_entity_id o1, o1)) items)) reviewed ([], {}) = Inr lk"
  shows "\<exists>r. address_entries ws items lk = Some r \<and> (\<forall>entries. r = Inr entries \<longrightarrow>
    (\<forall>a\<in>co_entity_id ` set items. \<forall>b\<in>co_entity_id ` set items.
       shares_entry entries a b \<longleftrightarrow> linked (decided_pairs sha items DdkSameEntity reviewed) a b) \<and>
    (\<forall>(a, b)\<in>decided_pairs sha items DdkDistinctEntities reviewed.
       \<not> linked (decided_pairs sha items DdkSameEntity reviewed) a b) \<and>
    mset (concat (map ae_entity_ids entries)) = mset (map co_entity_id items))"
proof -
  obtain same dst where lk: "lk = (same, dst)" by (cases lk)
  from reviewed_links [OF d ok [unfolded lk]]
  have "link_pairs same = decided_pairs sha items DdkSameEntity reviewed"
    "dst = decided_pairs sha items DdkDistinctEntities reviewed" by (simp_all add: link_pairs_def)
  note eqs = this
  from address_entries_outcome [OF refl, of same items dst ws] show ?thesis
    unfolding lk eqs using decided_pairs_known by blast
qed

lemma prepare_decisions_keep:
  "fold_res (prepare_decision loads ws by_id) reviewed pp = Inr pp' \<Longrightarrow> pp_streams pp \<subseteq> pp_streams pp'"
proof (induction reviewed arbitrary: pp)
  case (Cons c cs)
  then obtain p1 where p1: "prepare_decision loads ws by_id c pp = Inr p1" "pp_streams p1 \<subseteq> pp_streams pp'" by auto
  from p1(1) have "pp_streams pp \<subseteq> pp_streams p1"
    by (auto simp: prepare_decision_def split: if_splits json.splits option.splits)
  with p1(2) show ?case by blast
qed simp

lemma projection_links_Inr:
  assumes "projection_links loads sha authorize ws items reviewed = Inr lk"
  shows "distinct (map co_entity_id items)"
    and "fold_res (reviewed_link sha (map (\<lambda>o1. (co_entity_id o1, o1)) items)) reviewed ([], {}) = Inr lk"
    and "\<forall>o1\<in>set items. co_workspace_id o1 = ws \<and> authorize ws (co_stream_id o1)"
  using assms prepare_decisions_keep
  by (fastforce simp: projection_links_def Let_def raise_if_def split: if_splits)+

lemma projection_outcome:
  "\<exists>r. build_address_book_projection loads sha authorize mo md (item # rest) reviewed = Some r \<and> (\<forall>entries. r = Inr entries \<longrightarrow>
     (\<exists>lk. projection_links loads sha authorize (co_workspace_id item) (item # rest) reviewed = Inr lk \<and>
        address_entries (co_workspace_id item) (item # rest) lk = Some r))"
proof (cases "projection_links loads sha authorize (co_workspace_id item) (item # rest) reviewed")
  case (Inr lk)
  from address_entries_reviewed [OF projection_links_Inr(1,2) [OF Inr]]
  obtain r where "address_entries (co_workspace_id item) (item # rest) lk = Some r" by blast
  with Inr show ?thesis
    by (auto simp: build_address_book_projection_def split: option.split)
qed (auto simp: build_address_book_projection_def split: option.split)

text \<open>C22: Building the address book ends on every input: the path-halving \<^verbatim>\<open>find\<close> loop of the grouping
  never runs forever, whatever the observations, the reviewed decisions, the bounds and the authorizer.
\<close>

theorem address_book_terminates:
  "\<exists>r. build_address_book_projection loads sha authorize max_observations max_decisions items reviewed = Some r"
proof (cases items)
  case (Cons item rest)
  then show ?thesis using projection_outcome by blast
qed (auto simp: build_address_book_projection_def split: option.split)

text \<open>C21: The address book refines the equivalence generated by the reviewed decisions. When it is built, every
  record's stream was authorized; two records share an entry exactly when a chain of current, resolved
  \<^verbatim>\<open>same_entity\<close> decisions connects them; no pair a current decision calls distinct shares an entry; and
  every record stands in exactly one entry.
\<close>

theorem address_book_partition:
  assumes "build_address_book_projection loads sha authorize max_observations max_decisions items reviewed = Some (Inr book)"
  shows "(\<forall>o1\<in>set items. authorize (co_workspace_id o1) (co_stream_id o1)) \<and>
    (\<forall>a\<in>co_entity_id ` set items. \<forall>b\<in>co_entity_id ` set items.
       shares_entry book a b \<longleftrightarrow> linked (decided_pairs sha items DdkSameEntity reviewed) a b) \<and>
    (\<forall>(a, b)\<in>decided_pairs sha items DdkDistinctEntities reviewed. \<not> shares_entry book a b) \<and>
    mset (concat (map ae_entity_ids book)) = mset (map co_entity_id items)"
proof (cases items)
  case Nil
  with assms show ?thesis
    by (auto simp: build_address_book_projection_def decided_pairs_def current_decision_def split: option.splits if_splits)
next
  case (Cons item rest)
  from projection_outcome [of loads sha authorize max_observations max_decisions item rest reviewed] assms obtain lk
    where lk: "projection_links loads sha authorize (co_workspace_id item) items reviewed = Inr lk"
      "address_entries (co_workspace_id item) items lk = Some (Inr book)" by (auto simp: Cons)
  note links = projection_links_Inr [OF lk(1)]
  from address_entries_reviewed [OF links(1,2), of "co_workspace_id item"] lk(2)
  have spec: "(\<forall>a\<in>co_entity_id ` set items. \<forall>b\<in>co_entity_id ` set items.
       shares_entry book a b \<longleftrightarrow> linked (decided_pairs sha items DdkSameEntity reviewed) a b)"
    "(\<forall>(a, b)\<in>decided_pairs sha items DdkDistinctEntities reviewed.
       \<not> linked (decided_pairs sha items DdkSameEntity reviewed) a b)"
    "mset (concat (map ae_entity_ids book)) = mset (map co_entity_id items)" by simp_all
  have "\<not> shares_entry book a b" if "(a, b) \<in> decided_pairs sha items DdkDistinctEntities reviewed" for a b
  proof -
    have "a \<in> co_entity_id ` set items" "b \<in> co_entity_id ` set items"
      using subsetD [OF decided_pairs_known that] by simp_all
    with spec(1,2) that show ?thesis by blast
  qed
  with spec links(3) show ?thesis by auto
qed

text \<open>C39: A resolved decision about a contact that is no longer observed makes the address book fail with a
  \<^verbatim>\<open>KeyError\<close>. The loop that checks provenance skips such a decision, the loop that reads the links does not.
\<close>

theorem address_book_unknown_entity:
  assumes "1 \<le> max_decisions" "int (length items) \<le> max_observations" "items \<noteq> []"
    and "\<forall>o1\<in>set items. co_workspace_id o1 = ws \<and> authorize ws (co_stream_id o1)" "distinct (map co_entity_id items)"
    and "dc_workspace_id c = ws" "py_startswith (dc_candidate_key c) ''contact-match:''"
    and c: "dc_artifact_status c = DasResolved" "sort (dc_entity_ids c) = [a, b]" "jget (dc_metadata c) ''match_basis'' = JStr basis"
    and unknown: "\<not> {a, b} \<subseteq> co_entity_id ` set items"
  shows "build_address_book_projection loads sha authorize max_observations max_decisions items [c] =
    Some (Inl (KeyError (if a \<in> co_entity_id ` set items then b else a)))"
proof -
  let ?by_id = "map (\<lambda>o1. (co_entity_id o1, o1)) items"
  obtain item rest where items: "items = item # rest" using assms(3) by (cases items) auto
  then have ws: "co_workspace_id item = ws" using assms(4) by auto
  have ids: "set (dc_entity_ids c) = {a, b}" using c(2) by (metis list.set(1,2) set_sort)
  have skipped: "\<exists>e\<in>{a, b}. map_of ?by_id e = None"
    using unknown by (auto simp: map_of_eq_None_iff image_image)
  have found: "\<exists>o1. lookup_observation ?by_id e = Inr o1" if "e \<in> co_entity_id ` set items" for e
    using that lookup_keyed [OF assms(5)] by auto
  have "reviewed_link sha ?by_id c ([], {}) = Inl (KeyError (if a \<in> co_entity_id ` set items then b else a))"
  proof (cases "a \<in> co_entity_id ` set items")
    case True
    with unknown have "lookup_observation ?by_id b = Inl (KeyError b)" by (intro lookup_unknown) simp
    with found [OF True] c True show ?thesis by (auto simp: reviewed_link_def)
  next
    case False
    with c show ?thesis by (simp add: reviewed_link_def lookup_unknown)
  qed
  moreover have "prepare_decision loads ws ?by_id c pp = Inr pp" for pp
    using assms(6,7) skipped by (simp add: prepare_decision_def ids)
  moreover have "(\<exists>o1\<in>set items. co_workspace_id o1 \<noteq> ws) = False" "(\<exists>s\<in>co_stream_id ` set items. \<not> authorize ws s) = False"
    using assms(4) by auto
  ultimately have "projection_links loads sha authorize ws items [c] = Inl (KeyError (if a \<in> co_entity_id ` set items then b else a))"
    using assms(5) by (simp add: projection_links_def Let_def raise_if_def)
  with assms(1,2) show ?thesis
    by (simp add: build_address_book_projection_def raise_if_def ws [symmetric] items)
qed

section \<open>A book of three records\<close>

definition example_decision :: "string \<Rightarrow> string \<Rightarrow> decision_kind \<Rightarrow> disambiguation_candidate" where
  "example_decision a b kind = \<lparr>dc_artifact_id = ''q'', dc_workspace_id = ''w'', dc_candidate_key = ''contact-match:'' @ a @ b,
     dc_entity_ids = [a, b], dc_evidence_snapshot_id = ''sha256:h'', dc_evidence_cutoff_ms = 0,
     dc_last_reconciled_evidence_version = 0, dc_artifact_status = DasResolved, dc_resolution_source = DrsUser,
     dc_semantic_decision = kind, dc_question = ''same?'', dc_question_is_concrete = True, dc_evidence_summary = [],
     dc_canonical_entity_id = None, dc_related_entity_ids = [], dc_replacement_question = None,
     dc_source_document_ids = [], dc_source_span_ids = [], dc_score_bundle = example_bundle 0,
     dc_metadata = [(''source_stream_ids'', JStr ''[\"s\"]''), (''match_basis'', JStr ''name'')]\<rparr>"

definition example_people :: "contact_observation list" where
  "example_people = [example_observation ''a'', example_observation ''b'', example_observation ''c'']"

definition example_reviews :: "disambiguation_candidate list" where
  "example_reviews = [example_decision ''b'' ''a'' DdkSameEntity, example_decision ''b'' ''c'' DdkDistinctEntities]"

theorem address_book_partition_witness:
  "\<exists>book. build_address_book_projection (\<lambda>_. Some (JArr [JStr ''s''])) constant_hash (\<lambda>ws stream. stream = ''s'') 10 10
      example_people example_reviews = Some (Inr book) \<and>
    map ae_entity_ids book = [[''a'', ''b''], [''c'']] \<and>
    linked (decided_pairs constant_hash example_people DdkSameEntity example_reviews) ''a'' ''b'' \<and>
    \<not> linked (decided_pairs constant_hash example_people DdkSameEntity example_reviews) ''a'' ''c''"
proof -
  let ?r = "build_address_book_projection (\<lambda>_. Some (JArr [JStr ''s''])) constant_hash (\<lambda>ws stream. stream = ''s'') 10 10
      example_people example_reviews"
  have "(case ?r of Some (Inr book) \<Rightarrow> map ae_entity_ids book = [[''a'', ''b''], [''c'']] | _ \<Rightarrow> False)" by code_simp
  then obtain book where book: "?r = Some (Inr book)" "map ae_entity_ids book = [[''a'', ''b''], [''c'']]"
    by (auto split: option.splits sum.splits)
  have "shares_entry book ''a'' ''b''" "\<not> shares_entry book ''a'' ''c''"
    using book(2) by (auto simp: shares_entry_def map_eq_Cons_conv)
  with book address_book_partition [OF book(1)] show ?thesis
    by (auto simp: example_people_def example_observation_def)
qed

theorem address_book_unknown_entity_witness:
  "build_address_book_projection (\<lambda>_. None) constant_hash (\<lambda>ws stream. True) 10 10 [example_observation ''a'']
     [example_decision ''a'' ''b'' DdkSameEntity] = Some (Inl (KeyError ''b''))"
proof -
  have "co_entity_id ` set [example_observation ''a''] = {''a''}" by (simp add: example_observation_def)
  with address_book_unknown_entity [of 10 "[example_observation ''a'']" 10 "''w''" "\<lambda>ws stream. True"
      "example_decision ''a'' ''b'' DdkSameEntity" "''a''" "''b''" "''name''" "\<lambda>_. None" constant_hash]
  show ?thesis
    by (simp add: example_observation_def example_decision_def jget_def)
qed

end
