(* ===== verification/Disambiguation_Service.thy ===== *)
theory Disambiguation_Service
  imports Contact_Groups Patch_Apply Json_Reader
begin

text \<open>
  The disambiguation service (disambiguation/service.py): immutable candidate snapshots and decisions as
  nodes of the conversation graph, the review projections over them, and the recording of answers. The
  conversation engine is the record \<open>conversation_ops\<close>, an argument of every definition that uses it; the
  locale \<open>conversation_store\<close> states what the theorems rely on. The serializers of the model classes are
  arguments too (the record \<open>codec\<close>).
\<close>

section \<open>The conversation engine\<close>

record decision_span =
  ds_collection_page_url :: string
  ds_document_page_url :: string
  ds_doc_id :: string
  ds_insertion_method :: string
  ds_page_number :: int
  ds_start_char :: int
  ds_end_char :: int
  ds_excerpt :: string
  ds_context_before :: string
  ds_context_after :: string

record conversation_node =
  cn_id :: string
  cn_label :: string
  cn_doc_id :: string
  cn_summary :: string
  cn_span :: decision_span
  cn_metadata :: json_object

text \<open>Reads and writes name the namespace the code enters around them.\<close>

record 's conversation_ops =
  cv_get_nodes_by_ids :: "'s \<Rightarrow> string \<Rightarrow> string list \<Rightarrow> int \<Rightarrow> conversation_node list"
  cv_get_nodes_where :: "'s \<Rightarrow> string \<Rightarrow> json_object \<Rightarrow> int \<Rightarrow> conversation_node list"
  cv_add_node :: "'s \<Rightarrow> string \<Rightarrow> conversation_node \<Rightarrow> 's \<times> check"

text \<open>
  \<open>cd_parse_float\<close> reads the decimal text of a float, \<open>cd_candidate\<close> is the candidate's
  \<^verbatim>\<open>model_validate_json\<close>, and the other two are \<^verbatim>\<open>model_dump_json\<close> of a candidate and of a patch.
\<close>

record codec =
  cd_parse_float :: "string \<Rightarrow> pyfloat"
  cd_candidate :: "string \<Rightarrow> disambiguation_candidate option"
  cd_dump_candidate :: "disambiguation_candidate \<Rightarrow> string"
  cd_dump_patch :: "maintenance_patch \<Rightarrow> string"

definition cd_loads :: "codec \<Rightarrow> loader" where
  "cd_loads cd = json_loads (cd_parse_float cd)"

section \<open>Node payloads\<close>

definition score_json :: "score_bundle \<Rightarrow> json" where
  "score_json b = JObj [(''merge_likelihood'', JFloat (sb_merge_likelihood b)),
     (''distinction_pressure'', JFloat (sb_distinction_pressure b)), (''review_priority'', JFloat (sb_review_priority b)),
     (''usage_frequency'', JInt (sb_usage_frequency b)), (''answer_risk'', JFloat (sb_answer_risk b))]"

definition candidate_object :: "disambiguation_candidate \<Rightarrow> json" where
  "candidate_object c = JObj
     [(''artifact_id'', JStr (dc_artifact_id c)), (''workspace_id'', JStr (dc_workspace_id c)),
      (''candidate_key'', JStr (dc_candidate_key c)), (''entity_ids'', json_list (dc_entity_ids c)),
      (''evidence_snapshot_id'', JStr (dc_evidence_snapshot_id c)), (''evidence_cutoff_ms'', JInt (dc_evidence_cutoff_ms c)),
      (''last_reconciled_evidence_version'', JInt (dc_last_reconciled_evidence_version c)),
      (''artifact_status'', JStr (artifact_status_value (dc_artifact_status c))),
      (''resolution_source'', JStr (resolution_source_value (dc_resolution_source c))),
      (''semantic_decision'', JStr (decision_kind_value (dc_semantic_decision c))),
      (''question'', JStr (dc_question c)), (''question_is_concrete'', JBool (dc_question_is_concrete c)),
      (''evidence_summary'', JStr (dc_evidence_summary c)), (''canonical_entity_id'', opt_json (dc_canonical_entity_id c)),
      (''related_entity_ids'', json_list (dc_related_entity_ids c)),
      (''replacement_question'', opt_json (dc_replacement_question c)),
      (''source_document_ids'', json_list (dc_source_document_ids c)), (''source_span_ids'', json_list (dc_source_span_ids c)),
      (''score_bundle'', score_json (dc_score_bundle c)), (''metadata'', JObj (dc_metadata c))]"

definition candidate_json :: "disambiguation_candidate \<Rightarrow> string" where
  "candidate_json c = json_dumps json_char True (candidate_object c)"

definition span_of_candidate :: "disambiguation_candidate \<Rightarrow> decision_span" where
  "span_of_candidate c = (let
       doc = (case dc_source_document_ids c of [] \<Rightarrow> dc_artifact_id c | d # _ \<Rightarrow> d);
       text0 = (if dc_question c \<noteq> [] then dc_question c else if dc_evidence_summary c \<noteq> [] then dc_evidence_summary c
         else dc_candidate_key c);
       excerpt = (if text0 = [] then ''disambiguation decision'' else text0) in
     \<lparr>ds_collection_page_url = ''document_collection/'' @ doc, ds_document_page_url = ''document/'' @ doc,
      ds_doc_id = doc, ds_insertion_method = ''system'', ds_page_number = 1, ds_start_char = 0,
      ds_end_char = max 1 (int (length excerpt)), ds_excerpt = take 200 excerpt,
      ds_context_before = [], ds_context_after = []\<rparr>)"

section \<open>Candidate snapshots\<close>

record prepared_snapshot =
  ps_candidate :: disambiguation_candidate
  ps_streams :: "string list"
  ps_json :: string
  ps_node_id :: string

definition snapshot_node_id :: "stable_id_fn \<Rightarrow> disambiguation_candidate \<Rightarrow> string" where
  "snapshot_node_id sid c = sid [''contact_match_candidate_snapshot'', dc_workspace_id c, dc_candidate_key c,
     dc_evidence_snapshot_id c]"

definition prepare_snapshot ::
    "codec \<Rightarrow> stable_id_fn \<Rightarrow> authorizer \<Rightarrow> disambiguation_candidate \<Rightarrow> prepared_snapshot result" where
  "prepare_snapshot cd sid authorize c =
     (if \<not> py_startswith (dc_candidate_key c) ''contact-match:''
      then Inl (ValueError ''contact persistence accepts contact-match candidates only'')
      else (case jget (dc_metadata c) ''source_stream_ids'' of
        JStr raw \<Rightarrow> (case cd_loads cd raw of
          None \<Rightarrow> Inl (ValueError ''contact candidate has invalid source stream references'')
        | Some v \<Rightarrow> (case nonblank_streams v of
            None \<Rightarrow> Inl (ValueError ''contact candidate requires valid source stream references'')
          | Some decoded \<Rightarrow> (let streams = sorted_set decoded in
              check_then (first_error (\<lambda>s. raise_if (\<not> authorize (dc_workspace_id c) s)
                  (PermissionError ''contact candidate source stream is not authorized'')) streams)
                (Inr \<lparr>ps_candidate = c, ps_streams = streams, ps_json = candidate_json c,
                  ps_node_id = snapshot_node_id sid c\<rparr>))))
      | _ \<Rightarrow> Inl (TypeError ''contact candidate lacks source stream references'')))"

definition snapshot_node :: "prepared_snapshot \<Rightarrow> conversation_node" where
  "snapshot_node ps = (let c = ps_candidate ps in
     \<lparr>cn_id = ps_node_id ps, cn_label = ''contact_match_candidate'', cn_doc_id = ps_node_id ps,
      cn_summary = dc_question c, cn_span = span_of_candidate c,
      cn_metadata =
       [(''workspace_id'', JStr (dc_workspace_id c)), (''artifact_kind'', JStr ''contact_match_candidate''),
        (''candidate_key'', JStr (dc_candidate_key c)), (''candidate_artifact_id'', JStr (dc_artifact_id c)),
        (''evidence_snapshot_id'', JStr (dc_evidence_snapshot_id c)),
        (''artifact_status'', JStr (artifact_status_value (dc_artifact_status c))),
        (''source_stream_ids'', JStr (json_strings (ps_streams ps))), (''candidate_json'', JStr (ps_json ps))]\<rparr>)"

definition persist_snapshot :: "'s conversation_ops \<Rightarrow> prepared_snapshot \<Rightarrow> 's \<Rightarrow> 's \<times> check" where
  "persist_snapshot ops ps s = (let ns = conv_bg (dc_workspace_id (ps_candidate ps)) in
     (case cv_get_nodes_by_ids ops s ns [ps_node_id ps] 1 of
        node # _ \<Rightarrow> (s, raise_if (jget (cn_metadata node) ''candidate_json'' \<noteq> JStr (ps_json ps))
          (ValueError ''contact candidate snapshot ID conflicts with stored payload''))
      | [] \<Rightarrow> cv_add_node ops s ns (snapshot_node ps)))"

fun persist_snapshots :: "'s conversation_ops \<Rightarrow> prepared_snapshot list \<Rightarrow> 's \<Rightarrow> 's \<times> string list result" where
  "persist_snapshots ops [] s = (s, Inr [])"
| "persist_snapshots ops (ps # rest) s = (case persist_snapshot ops ps s of
       (s1, Some e) \<Rightarrow> (s1, Inl e)
     | (s1, None) \<Rightarrow> (case persist_snapshots ops rest s1 of
         (s2, Inl e) \<Rightarrow> (s2, Inl e) | (s2, Inr ids) \<Rightarrow> (s2, Inr (ps_node_id ps # ids))))"

definition persist_contact_candidates ::
    "codec \<Rightarrow> stable_id_fn \<Rightarrow> 's conversation_ops \<Rightarrow> authorizer \<Rightarrow> disambiguation_candidate list \<Rightarrow> 's \<Rightarrow>
     's \<times> string list result" where
  "persist_contact_candidates cd sid ops authorize cs s = (case map_res (prepare_snapshot cd sid authorize) cs of
       Inl e \<Rightarrow> (s, Inl e)
     | Inr pss \<Rightarrow> persist_snapshots ops pss s)"

definition max_contact_artifact_scan :: int where
  "max_contact_artifact_scan = 5000"

definition snapshot_query :: "string \<Rightarrow> string \<Rightarrow> json_object" where
  "snapshot_query ws kind = [(''workspace_id'', JStr ws), (''artifact_kind'', JStr kind)]"

text \<open>A stored snapshot, checked against its own metadata; \<open>None\<close> when a source is denied.\<close>

definition read_snapshot ::
    "codec \<Rightarrow> authorizer \<Rightarrow> string \<Rightarrow> conversation_node \<Rightarrow> disambiguation_candidate option result" where
  "read_snapshot cd authorize ws node = (let md = cn_metadata node;
       malformed = Inl (ValueError ''stored contact candidate artifact is malformed'') in
     (case Option.bind (map_of md ''source_stream_ids'') (\<lambda>v. cd_loads cd (py_str v)) of None \<Rightarrow> malformed
      | Some raw \<Rightarrow> (case Option.bind (map_of md ''candidate_json'') (\<lambda>v. cd_candidate cd (py_str v)) of None \<Rightarrow> malformed
        | Some c \<Rightarrow>
          if dc_workspace_id c \<noteq> ws then Inl (ValueError ''stored contact candidate escaped workspace namespace'')
          else (case nonblank_streams raw of
            None \<Rightarrow> Inl (ValueError ''stored contact candidate has invalid source references'')
          | Some streams \<Rightarrow>
              if jget md ''candidate_key'' \<noteq> JStr (dc_candidate_key c) \<or>
                 jget md ''candidate_artifact_id'' \<noteq> JStr (dc_artifact_id c) \<or>
                 jget md ''evidence_snapshot_id'' \<noteq> JStr (dc_evidence_snapshot_id c)
              then Inl (ValueError ''stored contact candidate metadata does not match its payload'')
              else Inr (if \<forall>st\<in>set streams. authorize ws st then Some c else None)))))"

definition snapshot_order :: "disambiguation_candidate \<Rightarrow> int \<times> string \<times> string" where
  "snapshot_order c = (- dc_evidence_cutoff_ms c, dc_candidate_key c, dc_evidence_snapshot_id c)"

definition list_contact_candidate_snapshots ::
    "codec \<Rightarrow> 's conversation_ops \<Rightarrow> authorizer \<Rightarrow> string \<Rightarrow> int \<Rightarrow> 's \<Rightarrow> disambiguation_candidate list result" where
  "list_contact_candidate_snapshots cd ops authorize ws limit s =
     check_then (checks
       [raise_if (py_strip ws = []) (ValueError ''workspace_id must not be empty''),
        raise_if (\<not> (1 \<le> limit \<and> limit \<le> max_contact_artifact_scan))
          (ValueError ''limit must be between 1 and 5000'')])
     (res_bind (map_res (read_snapshot cd authorize ws)
         (cv_get_nodes_where ops s (conv_bg ws) (snapshot_query ws ''contact_match_candidate'') limit)) (\<lambda>read.
       Inr (sort_key snapshot_order (List.map_filter id read))))"

section \<open>The current review projection\<close>

definition newer_snapshot :: "disambiguation_candidate \<Rightarrow> disambiguation_candidate \<Rightarrow> bool" where
  "newer_snapshot c prior \<longleftrightarrow>
     (dc_evidence_cutoff_ms prior, dc_evidence_snapshot_id prior) < (dc_evidence_cutoff_ms c, dc_evidence_snapshot_id c)"

definition keep_latest ::
    "disambiguation_candidate \<Rightarrow> (string \<times> disambiguation_candidate) list \<Rightarrow> (string \<times> disambiguation_candidate) list" where
  "keep_latest c latest = (case map_of latest (dc_candidate_key c) of
       None \<Rightarrow> AList.update (dc_candidate_key c) c latest
     | Some prior \<Rightarrow> if newer_snapshot c prior then AList.update (dc_candidate_key c) c latest else latest)"

definition latest_by_key :: "disambiguation_candidate list \<Rightarrow> (string \<times> disambiguation_candidate) list" where
  "latest_by_key snapshots = fold keep_latest snapshots []"

type_synonym decisions = "(string \<times> int \<times> string \<times> disambiguation_candidate) list"

definition stored_version :: "json_object \<Rightarrow> int option" where
  "stored_version md = (case map_of md ''last_reconciled_evidence_version'' of None \<Rightarrow> None
     | Some v \<Rightarrow> (case py_int v of Inl e \<Rightarrow> None | Inr i \<Rightarrow> Some i))"

definition keep_decision ::
    "codec \<Rightarrow> string \<Rightarrow> (string \<times> disambiguation_candidate) list \<Rightarrow> conversation_node \<Rightarrow> decisions \<Rightarrow> decisions result" where
  "keep_decision cd ws latest node ds = (let md = cn_metadata node; key = str_or_empty (jget md ''candidate_key'') in
     (case map_of latest key of None \<Rightarrow> Inr ds
      | Some current \<Rightarrow>
          if jget md ''evidence_snapshot_id'' \<noteq> JStr (dc_evidence_snapshot_id current) then Inr ds
          else (case jget md ''reconciled_candidate_json'' of
            JStr text \<Rightarrow> (case (cd_candidate cd text, stored_version md) of
              (Some reconciled, Some version) \<Rightarrow>
                if dc_workspace_id reconciled \<noteq> ws \<or> dc_candidate_key reconciled \<noteq> key \<or>
                   dc_evidence_snapshot_id reconciled \<noteq> dc_evidence_snapshot_id current
                then Inl (ValueError ''stored contact decision does not match current evidence'')
                else (case map_of ds key of
                  None \<Rightarrow> Inr (AList.update key (version, cn_id node, reconciled) ds)
                | Some (v, i, prior) \<Rightarrow>
                    if v = version \<and> cd_dump_candidate cd prior \<noteq> cd_dump_candidate cd reconciled
                    then Inl (ValueError ''conflicting contact decisions share one evidence version'')
                    else if (v, i) < (version, cn_id node)
                    then Inr (AList.update key (version, cn_id node, reconciled) ds) else Inr ds)
            | _ \<Rightarrow> Inl (ValueError ''stored contact decision artifact is malformed''))
          | _ \<Rightarrow> Inr ds)))"

definition review_order :: "disambiguation_candidate \<Rightarrow> rat \<times> int \<times> string" where
  "review_order c = (- fl_val (sb_review_priority (dc_score_bundle c)), - dc_evidence_cutoff_ms c, dc_candidate_key c)"

definition decision_nodes :: "'s conversation_ops \<Rightarrow> string \<Rightarrow> 's \<Rightarrow> conversation_node list" where
  "decision_nodes ops ws s = concat (map (\<lambda>kind.
     cv_get_nodes_where ops s (conv_bg ws) (snapshot_query ws kind) max_contact_artifact_scan)
     [''disambiguation_decision'', ''disambiguation_decision_challenge''])"

definition list_current_contact_candidates ::
    "codec \<Rightarrow> 's conversation_ops \<Rightarrow> authorizer \<Rightarrow> string \<Rightarrow> int \<Rightarrow> 's \<Rightarrow> disambiguation_candidate list result" where
  "list_current_contact_candidates cd ops authorize ws limit s =
     check_then (raise_if (\<not> (1 \<le> limit \<and> limit \<le> max_contact_artifact_scan))
         (ValueError ''limit must be between 1 and 5000''))
     (res_bind (list_contact_candidate_snapshots cd ops authorize ws max_contact_artifact_scan s) (\<lambda>snapshots.
       let latest = latest_by_key snapshots in
       if latest = [] then Inr [] else
       res_bind (fold_res (keep_decision cd ws latest) (decision_nodes ops ws s) []) (\<lambda>ds.
         Inr (take (nat limit) (sort_key review_order
           (map (\<lambda>(key, c). case map_of ds key of None \<Rightarrow> c | Some (_, _, d) \<Rightarrow> d) latest))))))"

section \<open>Recording answers\<close>

record answer_record =
  an_candidate :: disambiguation_candidate
  an_update :: evidence_update
  an_reconciliation :: reconciliation_result
  an_decision_node_id :: string
  an_patch_id :: string
  an_patch_intent :: string
  an_decision_kind :: string
  an_patch :: maintenance_patch

definition decision_summary :: "disambiguation_candidate \<Rightarrow> reconciliation_result \<Rightarrow> string \<Rightarrow> string" where
  "decision_summary c r answer_source = answer_source @ '' '' @ decision_kind_value (rr_semantic_decision r) @ '' for '' @
     dc_candidate_key c @ '': '' @ rr_reason r"

definition decision_metadata ::
    "codec \<Rightarrow> disambiguation_candidate \<Rightarrow> evidence_update \<Rightarrow> string \<Rightarrow> reconciliation_result \<Rightarrow> maintenance_patch \<Rightarrow>
     string option \<Rightarrow> json_object" where
  "decision_metadata cd c u answer_source r p actor =
     [(''workspace_id'', JStr (dc_workspace_id c)),
      (''artifact_kind'', JStr (if eu_decision_challenged u then ''disambiguation_decision_challenge'' else ''disambiguation_decision'')),
      (''candidate_key'', JStr (dc_candidate_key c)), (''candidate_artifact_id'', JStr (dc_artifact_id c)),
      (''candidate_entity_ids'', json_list (dc_entity_ids c)), (''evidence_snapshot_id'', JStr (dc_evidence_snapshot_id c)),
      (''evidence_cutoff_ms'', JInt (dc_evidence_cutoff_ms c)),
      (''last_reconciled_evidence_version'', JInt (rr_new_evidence_version r)),
      (''reconciled_candidate_json'', JStr (cd_dump_candidate cd (rr_candidate r))),
      (''artifact_status'', JStr (artifact_status_value (rr_status r))),
      (''resolution_source'', JStr (resolution_source_value (rr_resolution_source r))),
      (''semantic_decision'', JStr (decision_kind_value (rr_semantic_decision r))),
      (''answer_source'', JStr answer_source), (''patch_id'', JStr (mp_patch_id p)),
      (''patch_intent'', JStr (intent_value (mp_intent p))), (''maintenance_patch_json'', JStr (cd_dump_patch cd p)),
      (''question'', JStr (dc_question c)), (''replacement_question'', opt_json (rr_replacement_question r)),
      (''reason'', JStr (rr_reason r)), (''should_surface_to_user'', JBool (rr_should_surface_to_user r)),
      (''challenge_required'', JBool (rr_challenge_required r)), (''evidence_summary'', JStr (dc_evidence_summary c)),
      (''answer_evidence_version'', JInt (eu_evidence_version u))] @
     (case actor of None \<Rightarrow> [] | Some a \<Rightarrow> [(''actor_id'', JStr a)]) @
     (if dc_metadata c = [] then [] else [(''candidate_metadata'', JObj (dc_metadata c))]) @
     (case eu_evidence_summary u of None \<Rightarrow> [] | Some t \<Rightarrow> [(''updated_evidence_summary'', JStr t)]) @
     (case eu_challenge_reason u of None \<Rightarrow> [] | Some t \<Rightarrow> [(''challenge_reason'', JStr t)]) @
     (if eu_missing_evidence u = [] then [] else [(''missing_evidence'', json_list (eu_missing_evidence u))]) @
     [(''score_bundle'', score_json (dc_score_bundle c))] @
     (if dc_source_document_ids c = [] then [] else [(''source_document_ids'', json_list (dc_source_document_ids c))]) @
     (if dc_source_span_ids c = [] then [] else [(''source_span_ids'', json_list (dc_source_span_ids c))])"

definition build_decision_node ::
    "codec \<Rightarrow> disambiguation_candidate \<Rightarrow> string \<Rightarrow> evidence_update \<Rightarrow> string \<Rightarrow> reconciliation_result \<Rightarrow> maintenance_patch \<Rightarrow>
     string option \<Rightarrow> conversation_node" where
  "build_decision_node cd c node_id u answer_source r p actor =
     \<lparr>cn_id = node_id, cn_label = ''disambiguation:'' @ dc_candidate_key c, cn_doc_id = node_id,
      cn_summary = decision_summary c r answer_source, cn_span = span_of_candidate c,
      cn_metadata = decision_metadata cd c u answer_source r p actor\<rparr>"

definition decision_node_id ::
    "stable_id_fn \<Rightarrow> disambiguation_candidate \<Rightarrow> evidence_update \<Rightarrow> string \<Rightarrow> reconciliation_result \<Rightarrow> string" where
  "decision_node_id sid c u answer_source r = sid [''disambiguation_decision_node'', dc_artifact_id c,
     int_str (eu_evidence_version u), answer_source, artifact_status_value (rr_status r),
     decision_kind_value (rr_semantic_decision r)]"

definition persist_decision_node ::
    "codec \<Rightarrow> stable_id_fn \<Rightarrow> 's conversation_ops \<Rightarrow> disambiguation_candidate \<Rightarrow> evidence_update \<Rightarrow> string \<Rightarrow>
     reconciliation_result \<Rightarrow> maintenance_patch \<Rightarrow> string option \<Rightarrow> 's \<Rightarrow> 's \<times> check" where
  "persist_decision_node cd sid ops c u answer_source r p actor s =
     (let ns = conv_bg (dc_workspace_id c); node_id = decision_node_id sid c u answer_source r in
      (case cv_get_nodes_by_ids ops s ns [node_id] 1 of
         _ # _ \<Rightarrow> (s, None)
       | [] \<Rightarrow> cv_add_node ops s ns (build_decision_node cd c node_id u answer_source r p actor)))"

text \<open>The default confidence, the double nearest to 0.85.\<close>

definition answer_confidence :: pyfloat where
  "answer_confidence = PyFloat (7656119366529843 / 9007199254740992) ''0.85''"

definition record_answer ::
    "codec \<Rightarrow> stable_id_fn \<Rightarrow> 's conversation_ops \<Rightarrow> disambiguation_candidate \<Rightarrow> evidence_update \<Rightarrow> string \<Rightarrow>
     string option \<Rightarrow> 's \<Rightarrow> 's \<times> answer_record result" where
  "record_answer cd sid ops c u answer_source actor s = (let r = reconcile_disambiguation_candidate c u in
     (case build_disambiguation_patch sid c r
         (sid [''disambiguation_answer_run'', dc_artifact_id c, int_str (eu_evidence_version u), answer_source])
         (case dc_source_document_ids c of [] \<Rightarrow> None | d # _ \<Rightarrow> Some d) (dc_source_span_ids c) answer_confidence of
       Inl e \<Rightarrow> (s, Inl e)
     | Inr p \<Rightarrow> (case persist_decision_node cd sid ops c u answer_source r p actor s of
         (s', Some e) \<Rightarrow> (s', Inl e)
       | (s', None) \<Rightarrow> (s', Inr \<lparr>an_candidate = rr_candidate r, an_update = u, an_reconciliation = r,
           an_decision_node_id = decision_node_id sid c u answer_source r, an_patch_id = mp_patch_id p,
           an_patch_intent = intent_value (mp_intent p),
           an_decision_kind = decision_kind_value (rr_semantic_decision r), an_patch = p\<rparr>))))"

definition no_update :: "int \<Rightarrow> evidence_update" where
  "no_update v = \<lparr>eu_evidence_version = v, eu_question_is_concrete = True, eu_resolves_equivalence = False,
     eu_resolves_distinction = False, eu_user_decision = None, eu_policy_decision = None,
     eu_candidate_group_size = None, eu_replacement_question = None, eu_evidence_summary = None,
     eu_missing_evidence = [], eu_merge_likelihood = None, eu_distinction_pressure = None,
     eu_review_priority = None, eu_decision_challenged = False, eu_challenge_reason = None\<rparr>"

definition record_validated ::
    "codec \<Rightarrow> stable_id_fn \<Rightarrow> 's conversation_ops \<Rightarrow> disambiguation_candidate \<Rightarrow> evidence_update \<Rightarrow> string \<Rightarrow>
     string option \<Rightarrow> 's \<Rightarrow> 's \<times> answer_record result" where
  "record_validated cd sid ops c u answer_source actor s = (case validate_update u of
       Some e \<Rightarrow> (s, Inl e) | None \<Rightarrow> record_answer cd sid ops c u answer_source actor s)"

definition record_user_answer ::
    "codec \<Rightarrow> stable_id_fn \<Rightarrow> 's conversation_ops \<Rightarrow> disambiguation_candidate \<Rightarrow> int \<Rightarrow> decision_kind \<Rightarrow> string option \<Rightarrow>
     string option \<Rightarrow> string option \<Rightarrow> string list \<Rightarrow> bool \<Rightarrow> 's \<Rightarrow> 's \<times> answer_record result" where
  "record_user_answer cd sid ops c version decision actor summary replacement missing concrete s =
     record_validated cd sid ops c ((no_update version)\<lparr>eu_question_is_concrete := concrete, eu_user_decision := Some decision,
       eu_evidence_summary := summary, eu_replacement_question := replacement, eu_missing_evidence := missing\<rparr>)
       ''user'' actor s"

definition record_reviewer_answer ::
    "codec \<Rightarrow> stable_id_fn \<Rightarrow> 's conversation_ops \<Rightarrow> disambiguation_candidate \<Rightarrow> int \<Rightarrow> decision_kind option \<Rightarrow>
     string option \<Rightarrow> string option \<Rightarrow> string list \<Rightarrow> bool \<Rightarrow> 's \<Rightarrow> 's \<times> answer_record result" where
  "record_reviewer_answer cd sid ops c version decision summary replacement missing concrete s =
     record_validated cd sid ops c ((no_update version)\<lparr>eu_question_is_concrete := concrete, eu_policy_decision := decision,
       eu_evidence_summary := summary, eu_replacement_question := replacement, eu_missing_evidence := missing\<rparr>)
       ''reviewer'' None s"

definition challenge_decision ::
    "codec \<Rightarrow> stable_id_fn \<Rightarrow> 's conversation_ops \<Rightarrow> disambiguation_candidate \<Rightarrow> int \<Rightarrow> string \<Rightarrow> string option \<Rightarrow>
     string option \<Rightarrow> 's \<Rightarrow> 's \<times> answer_record result" where
  "challenge_decision cd sid ops c version reason summary replacement s =
     record_validated cd sid ops c ((no_update version)\<lparr>eu_decision_challenged := True, eu_challenge_reason := Some reason,
       eu_evidence_summary := summary, eu_replacement_question := replacement, eu_question_is_concrete := False\<rparr>)
       ''reviewer'' None s"

end
