(* ===== verification/Service_Store.thy ===== *)
theory Service_Store
  imports Disambiguation_Service
begin

text \<open>
  What the disambiguation service keeps in the conversation graph: every stream is authorized before a
  write, what was persisted is what is listed, and the current projection shows one question per key on its
  newest evidence.
\<close>

section \<open>The store\<close>

text \<open>
  \<open>stored\<close> observes the nodes of a namespace. Identifiers are unique in it, a read by identifier finds the
  node, a filtered read returns only matching nodes and all of them when they fit the limit, and adding a
  node under a new identifier touches nothing else. The order of a filtered read is not specified.
\<close>

definition node_matches :: "json_object \<Rightarrow> conversation_node \<Rightarrow> bool" where
  "node_matches q n \<longleftrightarrow> (\<forall>(k, v)\<in>set q. jget (cn_metadata n) k = v)"

text \<open>
  A decoded candidate has the keys of its metadata in the order of the text, which is sorted. \<open>decodable\<close>
  says that the validator accepts the text of the candidate.
\<close>

definition stored_form :: "disambiguation_candidate \<Rightarrow> disambiguation_candidate" where
  "stored_form c = c\<lparr>dc_metadata := sort_key fst (dc_metadata c)\<rparr>"

definition decodable :: "codec \<Rightarrow> disambiguation_candidate \<Rightarrow> bool" where
  "decodable cd c \<longleftrightarrow> cd_candidate cd (candidate_json c) = Some (stored_form c)"

definition candidate_streams :: "codec \<Rightarrow> disambiguation_candidate \<Rightarrow> string list option" where
  "candidate_streams cd c = (case jget (dc_metadata c) ''source_stream_ids'' of
       JStr raw \<Rightarrow> map_option sorted_set (Option.bind (cd_loads cd raw) nonblank_streams) | _ \<Rightarrow> None)"

definition prepared_form :: "stable_id_fn \<Rightarrow> disambiguation_candidate \<Rightarrow> string list \<Rightarrow> prepared_snapshot" where
  "prepared_form sid c streams = \<lparr>ps_candidate = c, ps_streams = streams, ps_json = candidate_json c,
     ps_node_id = snapshot_node_id sid c\<rparr>"

lemma prepare_snapshot_Inr:
  "prepare_snapshot cd sid authorize c = Inr ps \<longleftrightarrow> (\<exists>streams. py_startswith (dc_candidate_key c) ''contact-match:'' \<and>
     candidate_streams cd c = Some streams \<and> (\<forall>st\<in>set streams. authorize (dc_workspace_id c) st) \<and> ps = prepared_form sid c streams)"
  by (auto simp: prepare_snapshot_def candidate_streams_def prepared_form_def Let_def raise_if_def
      split: json.splits option.splits if_splits)

lemma candidate_streams_stored_form: "candidate_streams cd (stored_form c) = candidate_streams cd c"
  by (simp add: candidate_streams_def stored_form_def jget_def)

lemma nonblank_streams_list:
  assumes "nonblank_streams v = Some ss"
  shows "nonblank_streams (json_list (sorted_set ss)) = Some (sorted_set ss)"
proof -
  from assms have "ss \<noteq> []" "\<forall>st\<in>set ss. py_strip st \<noteq> []"
    by (auto simp: nonblank_streams_def split: json.splits if_splits) (metis json.exhaust py_str.simps(1))
  moreover have "map (py_str \<circ> JStr) xs = xs" for xs by (induction xs) auto
  moreover have "sort (remdups ss) = [] \<longleftrightarrow> ss = []" by (metis set_empty set_remdups set_sort)
  ultimately show ?thesis by (auto simp: nonblank_streams_def json_list_def sorted_set_def)
qed

text \<open>The snapshots of a workspace that a set of nodes holds, each with its streams.\<close>

definition snapshot_of :: "codec \<Rightarrow> stable_id_fn \<Rightarrow> string \<Rightarrow> conversation_node \<Rightarrow> disambiguation_candidate \<Rightarrow> bool" where
  "snapshot_of cd sid ws n c \<longleftrightarrow> dc_workspace_id c = ws \<and> decodable cd c \<and>
     (\<exists>streams. candidate_streams cd c = Some streams \<and> n = snapshot_node (prepared_form sid c streams))"

definition is_snapshot :: "conversation_node \<Rightarrow> bool" where
  "is_snapshot n \<longleftrightarrow> jget (cn_metadata n) ''candidate_json'' \<noteq> JNull \<or>
     jget (cn_metadata n) ''artifact_kind'' = JStr ''contact_match_candidate''"

definition snapshot_invariant ::
    "codec \<Rightarrow> stable_id_fn \<Rightarrow> ('s \<Rightarrow> string \<Rightarrow> conversation_node set) \<Rightarrow> 's \<Rightarrow> bool" where
  "snapshot_invariant cd sid stored s \<longleftrightarrow>
     (\<forall>ws. \<forall>n\<in>stored s (conv_bg ws). is_snapshot n \<longrightarrow> (\<exists>c. snapshot_of cd sid ws n c))"

lemma read_snapshot_of:
  assumes "snapshot_of cd sid ws n c"
  shows "read_snapshot cd authorize ws n =
    Inr (if \<forall>st\<in>set (the (candidate_streams cd c)). authorize ws st then Some (stored_form c) else None)"
proof -
  from assms obtain streams where n: "dc_workspace_id c = ws" "decodable cd c" "candidate_streams cd c = Some streams"
    "n = snapshot_node (prepared_form sid c streams)" by (auto simp: snapshot_of_def)
  from n(3) obtain v ss where "nonblank_streams v = Some ss" "streams = sorted_set ss"
    by (auto simp: candidate_streams_def split: json.splits Option.bind_splits)
  then have "nonblank_streams (json_list streams) = Some streams" using nonblank_streams_list by simp
  moreover have "map_of (cn_metadata n) ''source_stream_ids'' = Some (JStr (json_strings streams))"
    "map_of (cn_metadata n) ''candidate_json'' = Some (JStr (candidate_json c))"
    "jget (cn_metadata n) ''candidate_key'' = JStr (dc_candidate_key c)"
    "jget (cn_metadata n) ''candidate_artifact_id'' = JStr (dc_artifact_id c)"
    "jget (cn_metadata n) ''evidence_snapshot_id'' = JStr (dc_evidence_snapshot_id c)"
    by (simp_all add: n(4) snapshot_node_def prepared_form_def Let_def jget_def)
  ultimately show ?thesis
    using n(1,2,3) by (simp add: read_snapshot_def Let_def cd_loads_def json_loads_strings json_list_def decodable_def stored_form_def)
qed

locale conversation_store =
  fixes ops :: "'s conversation_ops" and stored :: "'s \<Rightarrow> string \<Rightarrow> conversation_node set"
  assumes finite_stored: "finite (stored s ns)"
    and unique_ids: "n \<in> stored s ns \<Longrightarrow> n' \<in> stored s ns \<Longrightarrow> cn_id n = cn_id n' \<Longrightarrow> n = n'"
    and by_id: "set (cv_get_nodes_by_ids ops s ns [i] 1) = {n \<in> stored s ns. cn_id n = i}"
    and by_where: "set (cv_get_nodes_where ops s ns q k) \<subseteq> {n \<in> stored s ns. node_matches q n}"
    and where_complete: "int (card {n \<in> stored s ns. node_matches q n}) \<le> k \<Longrightarrow>
      set (cv_get_nodes_where ops s ns q k) = {n \<in> stored s ns. node_matches q n}"
    and where_distinct: "distinct (cv_get_nodes_where ops s ns q k)"
    and add_node: "\<forall>n\<in>stored s ns. cn_id n \<noteq> cn_id node \<Longrightarrow>
      \<exists>s'. cv_add_node ops s ns node = (s', None) \<and>
        stored s' = (stored s)(ns := insert node (stored s ns))"
begin

lemma persist_snapshot_cases:
  assumes "persist_snapshot ops ps s = (s', None)"
  shows "\<exists>n\<in>stored s' (conv_bg (dc_workspace_id (ps_candidate ps))). cn_id n = ps_node_id ps \<and>
      jget (cn_metadata n) ''candidate_json'' = JStr (ps_json ps)"
    and "stored s' = stored s \<or> stored s' = (stored s)(conv_bg (dc_workspace_id (ps_candidate ps)) :=
      insert (snapshot_node ps) (stored s (conv_bg (dc_workspace_id (ps_candidate ps)))))"
proof -
  let ?ns = "conv_bg (dc_workspace_id (ps_candidate ps))"
  have "(\<exists>n\<in>stored s' ?ns. cn_id n = ps_node_id ps \<and> jget (cn_metadata n) ''candidate_json'' = JStr (ps_json ps)) \<and>
      (stored s' = stored s \<or> stored s' = (stored s)(?ns := insert (snapshot_node ps) (stored s ?ns)))"
  proof (cases "cv_get_nodes_by_ids ops s ?ns [ps_node_id ps] 1")
    case Nil
    with by_id [of s ?ns "ps_node_id ps"] have "\<forall>n\<in>stored s ?ns. cn_id n \<noteq> cn_id (snapshot_node ps)"
      by (auto simp: snapshot_node_def Let_def)
    from add_node [OF this] assms Nil have "stored s' = (stored s)(?ns := insert (snapshot_node ps) (stored s ?ns))"
      by (auto simp: persist_snapshot_def Let_def)
    then show ?thesis by (auto simp: snapshot_node_def Let_def jget_def)
  next
    case (Cons node rest)
    with by_id [of s ?ns "ps_node_id ps"] have "node \<in> stored s ?ns" "cn_id node = ps_node_id ps" by auto
    with assms Cons show ?thesis by (auto simp: persist_snapshot_def Let_def raise_if_def split: if_splits)
  qed
  then show "\<exists>n\<in>stored s' ?ns. cn_id n = ps_node_id ps \<and> jget (cn_metadata n) ''candidate_json'' = JStr (ps_json ps)"
    "stored s' = stored s \<or> stored s' = (stored s)(?ns := insert (snapshot_node ps) (stored s ?ns))" by blast+
qed

lemma persist_snapshots_stored:
  assumes "persist_snapshots ops pss s = (s', Inr ids)"
  shows "ids = map ps_node_id pss \<and> (\<forall>ns. stored s ns \<subseteq> stored s' ns) \<and>
    (\<forall>ns. stored s' ns \<subseteq> stored s ns \<union> {snapshot_node ps | ps. ps \<in> set pss \<and> ns = conv_bg (dc_workspace_id (ps_candidate ps))}) \<and>
    (\<forall>ps\<in>set pss. \<exists>n\<in>stored s' (conv_bg (dc_workspace_id (ps_candidate ps))). cn_id n = ps_node_id ps \<and>
       jget (cn_metadata n) ''candidate_json'' = JStr (ps_json ps))"
  using assms
proof (induction pss arbitrary: s ids)
  case Nil
  then show ?case by simp
next
  case (Cons ps pss)
  from Cons.prems obtain s1 ids' where 1: "persist_snapshot ops ps s = (s1, None)"
    "persist_snapshots ops pss s1 = (s', Inr ids')" "ids = ps_node_id ps # ids'"
    by (auto split: prod.splits option.splits sum.splits)
  note IH = Cons.IH [OF 1(2)] and p = persist_snapshot_cases [OF 1(1)]
  have grow: "stored s ns \<subseteq> stored s1 ns"
    "stored s1 ns \<subseteq> stored s ns \<union> {snapshot_node p | p. p = ps \<and> ns = conv_bg (dc_workspace_id (ps_candidate p))}" for ns
    using p(2) by (auto split: if_splits)
  have "\<forall>ns. stored s ns \<subseteq> stored s' ns" using grow(1) IH by blast
  moreover have "\<forall>ns. stored s' ns \<subseteq> stored s ns \<union>
      {snapshot_node p | p. p \<in> set (ps # pss) \<and> ns = conv_bg (dc_workspace_id (ps_candidate p))}"
    using grow(2) IH by (fastforce simp: subset_iff)
  moreover have "\<forall>p\<in>set (ps # pss). \<exists>n\<in>stored s' (conv_bg (dc_workspace_id (ps_candidate p))). cn_id n = ps_node_id p \<and>
       jget (cn_metadata n) ''candidate_json'' = JStr (ps_json p)"
    using p(1) IH by (auto simp: subset_iff)
  ultimately show ?case using IH 1(3) by simp
qed

lemma snapshots_listed:
  assumes inv: "snapshot_invariant cd sid stored s" and ws: "py_strip ws \<noteq> []"
    and limit: "1 \<le> limit" "limit \<le> 5000" "int (card {n \<in> stored s (conv_bg ws). is_snapshot n}) \<le> limit"
  shows "\<exists>L. list_contact_candidate_snapshots cd ops authorize ws limit s = Inr L \<and> int (length L) \<le> limit \<and>
    set L = {stored_form c | c. \<exists>n\<in>stored s (conv_bg ws). snapshot_of cd sid ws n c \<and>
      (\<forall>st\<in>set (the (candidate_streams cd c)). authorize ws st)}"
proof -
  let ?q = "snapshot_query ws ''contact_match_candidate''"
  let ?M = "{n \<in> stored s (conv_bg ws). node_matches ?q n}"
  let ?nodes = "cv_get_nodes_where ops s (conv_bg ws) ?q limit"
  have sub: "?M \<subseteq> {n \<in> stored s (conv_bg ws). is_snapshot n}"
    by (auto simp: node_matches_def snapshot_query_def is_snapshot_def)
  have "card ?M \<le> card {n \<in> stored s (conv_bg ws). is_snapshot n}"
    by (rule card_mono [OF _ sub]) (simp add: finite_stored)
  with limit have nodes: "set ?nodes = ?M" by (intro where_complete) linarith
  have "\<exists>c. snapshot_of cd sid ws n c" if "n \<in> set ?nodes" for n
    using that sub inv unfolding nodes snapshot_invariant_def by blast
  then obtain f where f: "snapshot_of cd sid ws n (f n)" if "n \<in> set ?nodes" for n by metis
  let ?shown = "\<lambda>c. \<forall>st\<in>set (the (candidate_streams cd c)). authorize ws st"
  have "map_res (read_snapshot cd authorize ws) ns =
      Inr (map (\<lambda>n. if ?shown (f n) then Some (stored_form (f n)) else None) ns)" if "set ns \<subseteq> set ?nodes" for ns
    using that by (induction ns) (simp_all add: read_snapshot_of [OF f])
  then have read: "map_res (read_snapshot cd authorize ws) ?nodes =
      Inr (map (\<lambda>n. if ?shown (f n) then Some (stored_form (f n)) else None) ?nodes)" by blast
  have same: "stored_form (f n) = stored_form c \<and> ?shown (f n) = ?shown c" if "n \<in> set ?nodes" "snapshot_of cd sid ws n c" for n c
  proof -
    have "(if \<forall>st\<in>set (the (candidate_streams cd (f n))). az ws st then Some (stored_form (f n)) else None) =
        (if \<forall>st\<in>set (the (candidate_streams cd c)). az ws st then Some (stored_form c) else None)" for az :: authorizer
      using read_snapshot_of [OF f [OF that(1)], of az] read_snapshot_of [OF that(2), of az] by simp
    from this [of authorize] this [of "\<lambda>_ _. True"] show ?thesis by (auto split: if_splits)
  qed
  have member: "n \<in> set ?nodes" if "n \<in> stored s (conv_bg ws)" "snapshot_of cd sid ws n c" for n c
    using that unfolding nodes
    by (auto simp: snapshot_of_def node_matches_def snapshot_query_def snapshot_node_def prepared_form_def Let_def jget_def)
  have shown: "(\<exists>n\<in>set ?nodes. ?shown (f n) \<and> d = stored_form (f n)) \<longleftrightarrow>
      (\<exists>c. d = stored_form c \<and> (\<exists>n\<in>stored s (conv_bg ws). snapshot_of cd sid ws n c \<and> ?shown c))" (is "?L \<longleftrightarrow> ?R") for d
  proof
    assume ?L
    then obtain n where n: "n \<in> set ?nodes" "?shown (f n)" "d = stored_form (f n)" by blast
    have "n \<in> stored s (conv_bg ws)" using n(1) nodes by auto
    with n f [OF n(1)] show ?R by blast
  next
    assume ?R
    then obtain c n where c: "d = stored_form c" "n \<in> stored s (conv_bg ws)" "snapshot_of cd sid ws n c" "?shown c" by blast
    note m = member [OF c(2,3)]
    from same [OF m c(3)] c m show ?L by (intro bexI [of _ n]) auto
  qed
  have "set (List.map_filter id (map (\<lambda>n. if ?shown (f n) then Some (stored_form (f n)) else None) ?nodes)) =
      {d. \<exists>n\<in>set ?nodes. ?shown (f n) \<and> d = stored_form (f n)}"
    unfolding set_map_filter by (auto split: if_splits)
  also have "\<dots> = {stored_form c | c. \<exists>n\<in>stored s (conv_bg ws). snapshot_of cd sid ws n c \<and> ?shown c}"
    unfolding shown ..
  finally have "set (List.map_filter id (map (\<lambda>n. if ?shown (f n) then Some (stored_form (f n)) else None) ?nodes)) =
      {stored_form c | c. \<exists>n\<in>stored s (conv_bg ws). snapshot_of cd sid ws n c \<and> ?shown c}" .
  moreover have "int (length (List.map_filter id (map (\<lambda>n. if ?shown (f n) then Some (stored_form (f n)) else None) ?nodes))) \<le> limit"
  proof -
    have "length (List.map_filter id (map g xs)) \<le> length xs" for g :: "conversation_node \<Rightarrow> disambiguation_candidate option" and xs
      by (simp add: List.map_filter_def)
    from this [of "\<lambda>n. if ?shown (f n) then Some (stored_form (f n)) else None" ?nodes]
    have "length (List.map_filter id (map (\<lambda>n. if ?shown (f n) then Some (stored_form (f n)) else None) ?nodes)) \<le> length ?nodes" .
    also have "\<dots> = card ?M" unfolding nodes [symmetric] by (rule distinct_card [OF where_distinct, symmetric])
    also note \<open>card ?M \<le> _\<close>
    finally show ?thesis using limit(3) by linarith
  qed
  ultimately show ?thesis using read ws limit(1,2)
    by (simp add: list_contact_candidate_snapshots_def raise_if_def max_contact_artifact_scan_def)
qed

text \<open>Two nodes with one candidate text hold the same candidate.\<close>

lemma same_text:
  assumes "snapshot_of cd sid ws n c" "decodable cd c'" "jget (cn_metadata n) ''candidate_json'' = JStr (candidate_json c')"
  shows "stored_form c = stored_form c'"
  using assms by (auto simp: snapshot_of_def decodable_def snapshot_node_def prepared_form_def Let_def jget_def)

lemma persist_invariant:
  assumes inv: "snapshot_invariant cd sid stored s" and dec: "\<forall>c\<in>set cs. decodable cd c"
    and ok: "persist_contact_candidates cd sid ops authorize cs s = (s', Inr ids)"
  shows "snapshot_invariant cd sid stored s'"
    and "stored s ns \<subseteq> stored s' ns"
    and "n \<in> stored s' (conv_bg ws) \<Longrightarrow> n \<in> stored s (conv_bg ws) \<or> (\<exists>c\<in>set cs. snapshot_of cd sid ws n c)"
    and "c \<in> set cs \<Longrightarrow> (\<forall>st\<in>set (the (candidate_streams cd c)). authorize (dc_workspace_id c) st) \<and>
      (\<exists>n\<in>stored s' (conv_bg (dc_workspace_id c)). jget (cn_metadata n) ''candidate_json'' = JStr (candidate_json c))"
proof -
  from ok obtain pss where pss: "map_res (prepare_snapshot cd sid authorize) cs = Inr pss"
    "persist_snapshots ops pss s = (s', Inr ids)" by (auto simp: persist_contact_candidates_def split: sum.splits)
  have all2: "list_all2 (\<lambda>c ps. prepare_snapshot cd sid authorize c = Inr ps) cs pss"
    using pss(1) by (rule map_res_Inr)
  note st = persist_snapshots_stored [OF pss(2)]
  have new: "\<exists>c\<in>set cs. snapshot_of cd sid ws (snapshot_node ps) c"
    if "ps \<in> set pss" "conv_bg ws = conv_bg (dc_workspace_id (ps_candidate ps))" for ps ws
  proof -
    from that(1) map_res_Inr_set [OF pss(1)] obtain c where c: "c \<in> set cs" "prepare_snapshot cd sid authorize c = Inr ps" by blast
    then obtain streams where ps: "candidate_streams cd c = Some streams" "ps = prepared_form sid c streams"
      unfolding prepare_snapshot_Inr by blast
    have "dc_workspace_id c = ws" using that(2) by (simp add: ps(2) prepared_form_def conv_bg_def)
    moreover have "decodable cd c" using dec c(1) by blast
    ultimately have "snapshot_of cd sid ws (snapshot_node ps) c" using ps unfolding snapshot_of_def by blast
    with c show ?thesis by blast
  qed
  show sub: "stored s ns \<subseteq> stored s' ns" for ns using st by blast
  show old: "n \<in> stored s (conv_bg ws) \<or> (\<exists>c\<in>set cs. snapshot_of cd sid ws n c)" if "n \<in> stored s' (conv_bg ws)" for n ws
    using that st new by blast
  show "snapshot_invariant cd sid stored s'" using inv old unfolding snapshot_invariant_def by blast
  show "(\<forall>st\<in>set (the (candidate_streams cd c)). authorize (dc_workspace_id c) st) \<and>
      (\<exists>n\<in>stored s' (conv_bg (dc_workspace_id c)). jget (cn_metadata n) ''candidate_json'' = JStr (candidate_json c))"
    if c: "c \<in> set cs"
  proof -
    from c obtain i where i: "i < length cs" "cs ! i = c" by (auto simp: in_set_conv_nth)
    have ps: "pss ! i \<in> set pss" "prepare_snapshot cd sid authorize c = Inr (pss ! i)"
      using list_all2_nthD [OF all2 i(1)] list_all2_lengthD [OF all2] i by auto
    then have "ps_candidate (pss ! i) = c" "ps_json (pss ! i) = candidate_json c"
      "\<forall>st\<in>set (the (candidate_streams cd c)). authorize (dc_workspace_id c) st"
      by (auto simp: prepare_snapshot_Inr prepared_form_def)
    with st ps(1) show ?thesis by force
  qed
qed

lemma persist_then_list:
  assumes inv: "snapshot_invariant cd sid stored s" and dec: "\<forall>c\<in>set cs. decodable cd c"
    and ok: "persist_contact_candidates cd sid ops authorize cs s = (s', Inr ids)"
    and ws: "py_strip ws \<noteq> []" and card: "card {n \<in> stored s' (conv_bg ws). is_snapshot n} \<le> 5000"
  shows "\<exists>before after. list_contact_candidate_snapshots cd ops authorize ws 5000 s = Inr before \<and>
    list_contact_candidate_snapshots cd ops authorize ws 5000 s' = Inr after \<and>
    set after = set before \<union> stored_form ` {c \<in> set cs. dc_workspace_id c = ws}"
proof -
  note p = persist_invariant [OF inv dec ok]
  let ?shown = "\<lambda>c. \<forall>st\<in>set (the (candidate_streams cd c)). authorize ws st"
  have "card {n \<in> stored s (conv_bg ws). is_snapshot n} \<le> card {n \<in> stored s' (conv_bg ws). is_snapshot n}"
    using p(2) by (intro card_mono) (auto simp: finite_stored)
  with card have card0: "card {n \<in> stored s (conv_bg ws). is_snapshot n} \<le> 5000" by simp
  from snapshots_listed [OF inv ws, of 5000 authorize] card0 obtain L0 where L0:
    "list_contact_candidate_snapshots cd ops authorize ws 5000 s = Inr L0"
    "set L0 = {stored_form c | c. \<exists>n\<in>stored s (conv_bg ws). snapshot_of cd sid ws n c \<and> ?shown c}" by auto
  from snapshots_listed [OF p(1) ws, of 5000 authorize] card obtain L1 where L1:
    "list_contact_candidate_snapshots cd ops authorize ws 5000 s' = Inr L1"
    "set L1 = {stored_form c | c. \<exists>n\<in>stored s' (conv_bg ws). snapshot_of cd sid ws n c \<and> ?shown c}" by auto
  have jtext: "jget (cn_metadata n) ''candidate_json'' = JStr (candidate_json c)" if "snapshot_of cd sid ws n c" for n c
    using that by (auto simp: snapshot_of_def snapshot_node_def prepared_form_def Let_def jget_def)
  have "d \<in> set L0 \<union> stored_form ` {c \<in> set cs. dc_workspace_id c = ws}" if d: "d \<in> set L1" for d
  proof -
    from d obtain n c where n: "d = stored_form c" "n \<in> stored s' (conv_bg ws)" "snapshot_of cd sid ws n c" "?shown c"
      unfolding L1(2) by blast
    from p(3) [OF n(2)] show ?thesis
    proof
      assume "n \<in> stored s (conv_bg ws)"
      with n show ?thesis unfolding L0(2) by blast
    next
      assume "\<exists>c\<in>set cs. snapshot_of cd sid ws n c"
      then obtain c' where c': "c' \<in> set cs" "snapshot_of cd sid ws n c'" by blast
      then have "stored_form c = stored_form c'" using dec same_text [OF n(3) _ jtext [OF c'(2)]] by blast
      with c' n(1) show ?thesis by (auto simp: snapshot_of_def)
    qed
  qed
  moreover have "stored_form c \<in> set L1" if c: "c \<in> set cs" "dc_workspace_id c = ws" for c
  proof -
    from p(4) [OF c(1)] c(2) obtain n where n: "n \<in> stored s' (conv_bg ws)" "?shown c"
      "jget (cn_metadata n) ''candidate_json'' = JStr (candidate_json c)" by blast
    from n(1,3) p(1) obtain c' where c': "snapshot_of cd sid ws n c'"
      unfolding snapshot_invariant_def is_snapshot_def by fastforce
    have same: "stored_form c' = stored_form c" using same_text [OF c' _ n(3)] dec c(1) by blast
    then have "candidate_streams cd c' = candidate_streams cd c" by (metis candidate_streams_stored_form)
    then have "?shown c'" using n(2) by simp
    with n(1) c' have "\<exists>n\<in>stored s' (conv_bg ws). snapshot_of cd sid ws n c' \<and> ?shown c'" by blast
    with same [symmetric] show ?thesis unfolding L1(2) by blast
  qed
  moreover have "set L0 \<subseteq> set L1" unfolding L0(2) L1(2) using p(2) by blast
  ultimately have "set L1 = set L0 \<union> stored_form ` {c \<in> set cs. dc_workspace_id c = ws}" by auto
  with L0(1) L1(1) show ?thesis by blast
qed

end

section \<open>The association-list store\<close>

type_synonym conversation_memory = "((string \<times> string) \<times> conversation_node) list"

definition memory_stored :: "conversation_memory \<Rightarrow> string \<Rightarrow> conversation_node set" where
  "memory_stored s ns = {n. map_of s (ns, cn_id n) = Some n}"

definition memory_nodes :: "conversation_memory \<Rightarrow> string \<Rightarrow> conversation_node list" where
  "memory_nodes s ns = remdups (filter (\<lambda>n. map_of s (ns, cn_id n) = Some n) (map snd s))"

definition memory_ops :: "conversation_memory conversation_ops" where
  "memory_ops = \<lparr>
     cv_get_nodes_by_ids = (\<lambda>s ns ids k. take (nat k) (filter (\<lambda>n. cn_id n \<in> set ids) (memory_nodes s ns))),
     cv_get_nodes_where = (\<lambda>s ns q k. take (nat k) (filter (node_matches q) (memory_nodes s ns))),
     cv_add_node = (\<lambda>s ns n. (AList.update (ns, cn_id n) n s, None))\<rparr>"

lemma set_memory_nodes: "set (memory_nodes s ns) = memory_stored s ns"
  by (force simp: memory_nodes_def memory_stored_def dest: map_of_SomeD)

lemma take_single:
  assumes "distinct xs" "\<And>x y. x \<in> set xs \<Longrightarrow> y \<in> set xs \<Longrightarrow> x = y"
  shows "take 1 xs = xs"
proof (cases xs)
  case (Cons x ys)
  have "y = x" if "y \<in> set ys" for y using assms(2) [of y x] that Cons by simp
  with assms(1) Cons have "ys = []" by (cases ys) auto
  with Cons show ?thesis by simp
qed simp

lemma memory_by_id: "set (cv_get_nodes_by_ids memory_ops s ns [i] 1) = {n \<in> memory_stored s ns. cn_id n = i}"
proof -
  let ?xs = "filter (\<lambda>n. cn_id n = i) (memory_nodes s ns)"
  have xs: "set ?xs = {n \<in> memory_stored s ns. cn_id n = i}" by (auto simp: set_memory_nodes)
  have "distinct ?xs" by (simp add: memory_nodes_def)
  moreover have "x = y" if "x \<in> set ?xs" "y \<in> set ?xs" for x y using that by (auto simp: set_memory_nodes memory_stored_def)
  ultimately have "take 1 ?xs = ?xs" by (rule take_single)
  with xs show ?thesis by (simp add: memory_ops_def)
qed

interpretation memory: conversation_store memory_ops memory_stored
proof unfold_locales
  fix s ns q k
  let ?xs = "filter (node_matches q) (memory_nodes s ns)"
  have xs: "set ?xs = {n \<in> memory_stored s ns. node_matches q n}" by (auto simp: set_memory_nodes)
  have dist: "distinct ?xs" by (simp add: memory_nodes_def)
  show "finite (memory_stored s ns)" by (simp flip: set_memory_nodes)
  show "set (cv_get_nodes_where memory_ops s ns q k) \<subseteq> {n \<in> memory_stored s ns. node_matches q n}"
    unfolding xs [symmetric] memory_ops_def by (simp add: set_take_subset del: set_filter)
  show "distinct (cv_get_nodes_where memory_ops s ns q k)" using dist by (simp add: memory_ops_def)
  assume "int (card {n \<in> memory_stored s ns. node_matches q n}) \<le> k"
  then have "length ?xs \<le> nat k" using distinct_card [OF dist] unfolding xs by linarith
  then show "set (cv_get_nodes_where memory_ops s ns q k) = {n \<in> memory_stored s ns. node_matches q n}"
    using xs by (simp add: memory_ops_def)
next
  show "\<exists>s'. cv_add_node memory_ops s ns node = (s', None) \<and>
      memory_stored s' = (memory_stored s)(ns := insert node (memory_stored s ns))"
    if "\<forall>n\<in>memory_stored s ns. cn_id n \<noteq> cn_id node" for s ns node
  proof -
    have "memory_stored (AList.update (ns, cn_id node) node s) = (memory_stored s)(ns := insert node (memory_stored s ns))"
    proof -
      have "cn_id x \<noteq> cn_id node" if x: "map_of s (ns, cn_id node) = Some x" for x
      proof
        assume eq: "cn_id x = cn_id node"
        with x have "x \<in> memory_stored s ns" by (simp add: memory_stored_def)
        with eq \<open>\<forall>n\<in>memory_stored s ns. _\<close> show False by blast
      qed
      then show ?thesis by (auto simp: memory_stored_def update_conv' fun_eq_iff set_eq_iff split: if_splits)
    qed
    then show ?thesis by (simp add: memory_ops_def)
  qed
qed (auto simp: memory_by_id memory_stored_def)

section \<open>Persisting\<close>

text \<open>C20: No write without authorization. If any source stream of any candidate is denied, the call that
  persists the candidates fails and leaves the conversation graph as it was, whatever the engine does and wherever
  in the batch the candidate stands.\<close>

theorem persist_authorizes_first:
  assumes "c \<in> set cs" "candidate_streams cd c = Some streams" "st \<in> set streams" "\<not> authorize (dc_workspace_id c) st"
  shows "\<exists>e. persist_contact_candidates cd sid ops authorize cs s = (s, Inl e)"
proof -
  have "\<exists>e. map_res (prepare_snapshot cd sid authorize) cs = Inl e"
  proof (cases "map_res (prepare_snapshot cd sid authorize) cs")
    case (Inr pss)
    obtain i where "i < length cs" "cs ! i = c" using assms(1) by (auto simp: in_set_conv_nth)
    with list_all2_nthD [OF map_res_Inr [OF Inr]] obtain ps where "prepare_snapshot cd sid authorize c = Inr ps" by blast
    with assms show ?thesis by (auto simp: prepare_snapshot_Inr)
  qed blast
  then show ?thesis by (auto simp: persist_contact_candidates_def)
qed

text \<open>C19: What is persisted is what is listed. On any conversation engine that stores nodes by identifier,
  when candidates were persisted, listing the snapshots of a workspace succeeds before and after, and the second
  listing has exactly the candidates of the first and those persisted for the workspace; and every stored snapshot
  stays readable.\<close>

theorem persisted_candidates_listed:
  assumes store: "conversation_store ops stored"
    and "snapshot_invariant cd sid stored s" "\<forall>c\<in>set cs. decodable cd c"
    and "persist_contact_candidates cd sid ops authorize cs s = (s', Inr ids)"
    and "py_strip ws \<noteq> []" "card {n \<in> stored s' (conv_bg ws). is_snapshot n} \<le> 5000"
  shows "snapshot_invariant cd sid stored s' \<and> (\<exists>before after.
    list_contact_candidate_snapshots cd ops authorize ws 5000 s = Inr before \<and>
    list_contact_candidate_snapshots cd ops authorize ws 5000 s' = Inr after \<and>
    set after = set before \<union> stored_form ` {c \<in> set cs. dc_workspace_id c = ws})"
  using conversation_store.persist_invariant(1) [OF store assms(2-4)] conversation_store.persist_then_list [OF store assms(2-6)]
  by blast

end
