(* ===== verification/Service_Review.thy ===== *)
theory Service_Review
  imports Service_Store
begin

text \<open>
  The review projection of the disambiguation service: one question per key, on its newest evidence, with
  the latest decision about exactly this evidence; and an answer becomes current as soon as it is recorded.
\<close>

section \<open>The newest snapshot of a key\<close>

definition newest_in :: "disambiguation_candidate set \<Rightarrow> disambiguation_candidate \<Rightarrow> bool" where
  "newest_in S c \<longleftrightarrow> c \<in> S \<and> (\<forall>o1\<in>S. dc_candidate_key o1 = dc_candidate_key c \<longrightarrow> \<not> newer_snapshot o1 c)"

definition latest_ok :: "disambiguation_candidate list \<Rightarrow> (string \<times> disambiguation_candidate) list \<Rightarrow> bool" where
  "latest_ok seen latest \<longleftrightarrow> distinct (map fst latest) \<and>
     (\<forall>k. case map_of latest k of None \<Rightarrow> \<forall>c\<in>set seen. dc_candidate_key c \<noteq> k
        | Some c \<Rightarrow> dc_candidate_key c = k \<and> newest_in (set seen) c)"

lemma newer_trans: "newer_snapshot c prior \<Longrightarrow> \<not> newer_snapshot o1 prior \<Longrightarrow> \<not> newer_snapshot o1 c"
  unfolding newer_snapshot_def by (blast dest: order.strict_trans)

lemma newer_irrefl [simp]: "\<not> newer_snapshot c c"
  by (simp add: newer_snapshot_def)

lemma latest_ok_step:
  assumes "latest_ok seen latest"
  shows "latest_ok (seen @ [c]) (keep_latest c latest)"
proof -
  let ?k = "dc_candidate_key c"
  have old: "case map_of latest k of None \<Rightarrow> \<forall>c\<in>set seen. dc_candidate_key c \<noteq> k
      | Some c \<Rightarrow> dc_candidate_key c = k \<and> newest_in (set seen) c" for k
    using assms by (simp add: latest_ok_def)
  have "distinct (map fst (keep_latest c latest))"
    using assms by (simp add: latest_ok_def keep_latest_def distinct_update split: option.split)
  moreover have "case map_of (keep_latest c latest) k of None \<Rightarrow> \<forall>c\<in>set (seen @ [c]). dc_candidate_key c \<noteq> k
      | Some d \<Rightarrow> dc_candidate_key d = k \<and> newest_in (set (seen @ [c])) d" for k
  proof (cases "k = ?k")
    case False
    then have "map_of (keep_latest c latest) k = map_of latest k"
      by (auto simp: keep_latest_def update_conv' split: option.split)
    with old [of k] False show ?thesis by (auto simp: newest_in_def split: option.splits)
  next
    case True
    show ?thesis
    proof (cases "map_of latest ?k")
      case None
      with old [of ?k] True show ?thesis by (auto simp: keep_latest_def newest_in_def update_conv')
    next
      case (Some prior)
      with old [of ?k] have p: "dc_candidate_key prior = ?k" "newest_in (set seen) prior" by simp_all
      show ?thesis
      proof (cases "newer_snapshot c prior")
        case True
        then show ?thesis using p Some \<open>k = ?k\<close> newer_trans [OF True]
          by (auto simp: keep_latest_def newest_in_def update_conv')
      next
        case False
        then show ?thesis using p Some \<open>k = ?k\<close> by (auto simp: keep_latest_def newest_in_def)
      qed
    qed
  qed
  ultimately show ?thesis by (simp add: latest_ok_def)
qed

lemma latest_by_key_ok: "latest_ok snapshots (latest_by_key snapshots)"
proof -
  have "latest_ok (seen @ cs) (fold keep_latest cs latest)" if "latest_ok seen latest" for cs seen latest
    using that
  proof (induction cs arbitrary: seen latest)
    case (Cons c cs)
    from Cons.IH [OF latest_ok_step [OF Cons.prems, of c]] show ?case by simp
  qed simp
  from this [of "[]" "[]" snapshots] show ?thesis by (simp add: latest_by_key_def latest_ok_def)
qed

section \<open>The latest decision about it\<close>

text \<open>A decision node that can be read: its candidate agrees with its own key and evidence.\<close>

definition decision_of :: "codec \<Rightarrow> string \<Rightarrow> conversation_node \<Rightarrow> int \<Rightarrow> disambiguation_candidate \<Rightarrow> bool" where
  "decision_of cd ws n v d \<longleftrightarrow> (let md = cn_metadata n in
     jget md ''candidate_key'' = JStr (dc_candidate_key d) \<and> jget md ''evidence_snapshot_id'' = JStr (dc_evidence_snapshot_id d) \<and>
     (\<exists>t. jget md ''reconciled_candidate_json'' = JStr t \<and> cd_candidate cd t = Some d) \<and>
     stored_version md = Some v \<and> dc_workspace_id d = ws)"

lemma decision_of_unique:
  assumes "decision_of cd ws n v d" "decision_of cd ws n v' d'"
  shows "v' = v \<and> d' = d"
proof -
  obtain t t' where "jget (cn_metadata n) ''reconciled_candidate_json'' = JStr t" "cd_candidate cd t = Some d"
    "jget (cn_metadata n) ''reconciled_candidate_json'' = JStr t'" "cd_candidate cd t' = Some d'"
    using assms unfolding decision_of_def Let_def by blast
  then have "d' = d" by (metis json.inject(4) option.inject)
  with assms show ?thesis unfolding decision_of_def Let_def by simp
qed

definition about :: "disambiguation_candidate \<Rightarrow> disambiguation_candidate \<Rightarrow> bool" where
  "about d c \<longleftrightarrow> dc_candidate_key d = dc_candidate_key c \<and> dc_evidence_snapshot_id d = dc_evidence_snapshot_id c"

definition versions_unique :: "codec \<Rightarrow> string \<Rightarrow> conversation_node set \<Rightarrow> bool" where
  "versions_unique cd ws N \<longleftrightarrow> (\<forall>n\<in>N. \<forall>n'\<in>N. \<forall>v d d'. decision_of cd ws n v d \<longrightarrow> decision_of cd ws n' v d' \<longrightarrow> about d d' \<longrightarrow> n = n')"

text \<open>The entry kept for a candidate is the decision with the largest version seen about it.\<close>

definition decided_for ::
    "codec \<Rightarrow> string \<Rightarrow> conversation_node list \<Rightarrow> disambiguation_candidate \<Rightarrow> (int \<times> string \<times> disambiguation_candidate) option \<Rightarrow> bool" where
  "decided_for cd ws seen c entry \<longleftrightarrow> (case entry of
       None \<Rightarrow> \<forall>n\<in>set seen. \<forall>v d. decision_of cd ws n v d \<longrightarrow> \<not> about d c
     | Some (v, i, d) \<Rightarrow> (\<exists>n\<in>set seen. cn_id n = i \<and> decision_of cd ws n v d) \<and> about d c \<and>
         (\<forall>n\<in>set seen. \<forall>v' d'. decision_of cd ws n v' d' \<longrightarrow> about d' c \<longrightarrow> v' \<le> v))"

definition decided_ok ::
    "codec \<Rightarrow> string \<Rightarrow> (string \<times> disambiguation_candidate) list \<Rightarrow> conversation_node list \<Rightarrow> decisions \<Rightarrow> bool" where
  "decided_ok cd ws latest seen ds \<longleftrightarrow> (\<forall>k c. map_of latest k = Some c \<longrightarrow> decided_for cd ws seen c (map_of ds k))"

lemma decided_for_skip:
  "decision_of cd ws n v d \<Longrightarrow> \<not> about d c \<Longrightarrow> decided_for cd ws seen c e \<Longrightarrow> decided_for cd ws (seen @ [n]) c e"
  by (auto simp: decided_for_def split: option.splits dest: decision_of_unique)

lemma decided_for_old:
  "decision_of cd ws n v d \<Longrightarrow> v \<le> v0 \<Longrightarrow> decided_for cd ws seen c (Some (v0, i, d0)) \<Longrightarrow>
   decided_for cd ws (seen @ [n]) c (Some (v0, i, d0))"
  by (auto simp: decided_for_def dest: decision_of_unique)

lemma decided_for_new:
  assumes "decision_of cd ws n v d" "about d c" "decided_for cd ws seen c e" "\<And>v0 i d0. e = Some (v0, i, d0) \<Longrightarrow> v0 \<le> v"
  shows "decided_for cd ws (seen @ [n]) c (Some (v, cn_id n, d))"
proof -
  have "v' \<le> v" if "n' \<in> set seen" "decision_of cd ws n' v' d'" "about d' c" for n' v' d'
  proof (cases e)
    case None
    with assms(3) that show ?thesis by (simp add: decided_for_def)
  next
    case (Some x)
    obtain v0 i d0 where "x = (v0, i, d0)" by (cases x) auto
    with Some assms(3,4) that show ?thesis by (fastforce simp: decided_for_def)
  qed
  with assms(1,2) show ?thesis by (auto simp: decided_for_def dest: decision_of_unique)
qed

lemma latest_ok_newest: "latest_ok snapshots latest \<Longrightarrow> map_of latest k = Some c \<Longrightarrow> newest_in (set snapshots) c \<and> dc_candidate_key c = k"
  unfolding latest_ok_def by (drule conjunct2, drule spec [of _ k]) simp

lemma latest_ok_key: "latest_ok snapshots latest \<Longrightarrow> map_of latest k = Some c \<Longrightarrow> dc_candidate_key c = k"
  unfolding latest_ok_def by (drule conjunct2, drule spec [of _ k]) simp

lemma keep_decision_of:
  assumes "decision_of cd ws n version d" "latest_ok snapshots latest"
  shows "keep_decision cd ws latest n ds = (let key = dc_candidate_key d in case map_of latest key of
       None \<Rightarrow> Inr ds
     | Some c \<Rightarrow> if \<not> about d c then Inr ds else (case map_of ds key of
         None \<Rightarrow> Inr (AList.update key (version, cn_id n, d) ds)
       | Some (v, i, prior) \<Rightarrow>
           if v = version \<and> cd_dump_candidate cd prior \<noteq> cd_dump_candidate cd d
           then Inl (ValueError ''conflicting contact decisions share one evidence version'')
           else if (v, i) < (version, cn_id n) then Inr (AList.update key (version, cn_id n, d) ds) else Inr ds))"
proof -
  obtain t where t: "jget (cn_metadata n) ''candidate_key'' = JStr (dc_candidate_key d)"
    "jget (cn_metadata n) ''evidence_snapshot_id'' = JStr (dc_evidence_snapshot_id d)"
    "jget (cn_metadata n) ''reconciled_candidate_json'' = JStr t" "cd_candidate cd t = Some d"
    "stored_version (cn_metadata n) = Some version" "dc_workspace_id d = ws"
    using assms(1) by (auto simp: decision_of_def Let_def)
  have key: "str_or_empty (jget (cn_metadata n) ''candidate_key'') = dc_candidate_key d" by (simp add: t str_or_empty_def)
  have "dc_candidate_key c = k" if "map_of latest k = Some c" for k c
    using latest_ok_key [OF assms(2) that] .
  note ckey = this
  show ?thesis
  proof (cases "map_of latest (dc_candidate_key d)")
    case None
    then show ?thesis unfolding keep_decision_def Let_def key by simp
  next
    case (Some c)
    note ckey [OF Some]
    then have "about d c \<longleftrightarrow> dc_evidence_snapshot_id d = dc_evidence_snapshot_id c" by (simp add: about_def)
    with Some show ?thesis unfolding keep_decision_def Let_def key by (simp add: t)
  qed
qed

lemma decided_ok_step:
  assumes ok: "decided_ok cd ws latest seen ds" and n: "decision_of cd ws n version d"
    and latest: "latest_ok snapshots latest" and uniq: "versions_unique cd ws (insert n (set seen))"
  shows "\<exists>ds'. keep_decision cd ws latest n ds = Inr ds' \<and> decided_ok cd ws latest (seen @ [n]) ds'"
proof (cases "\<exists>c. map_of latest (dc_candidate_key d) = Some c \<and> about d c")
  case False
  then have "keep_decision cd ws latest n ds = Inr ds"
    unfolding keep_decision_of [OF n latest] by (cases "map_of latest (dc_candidate_key d)") (simp_all add: Let_def)
  moreover have "\<not> about d c" if "map_of latest k = Some c" for k c
    using False that latest_ok_key [OF latest that] by (auto simp: about_def)
  then have "decided_ok cd ws latest (seen @ [n]) ds"
    using ok decided_for_skip [OF n] unfolding decided_ok_def by blast
  ultimately show ?thesis by blast
next
  case True
  then obtain c where c: "map_of latest (dc_candidate_key d) = Some c" "about d c" by blast
  let ?k = "dc_candidate_key d" and ?new = "AList.update (dc_candidate_key d) (version, cn_id n, d) ds"
  have others: "decided_for cd ws (seen @ [n]) c' (map_of ds k)" if "map_of latest k = Some c'" "k \<noteq> ?k" for k c'
    using ok decided_for_skip [OF n] latest_ok_key [OF latest that(1)] that unfolding decided_ok_def about_def by metis
  have here: "decided_for cd ws seen c (map_of ds ?k)" using ok c(1) unfolding decided_ok_def by blast
  have put: "decided_ok cd ws latest (seen @ [n]) ?new" if "decided_for cd ws (seen @ [n]) c (Some (version, cn_id n, d))"
    using that others c(1) by (auto simp: decided_ok_def update_conv')
  have keep: "decided_ok cd ws latest (seen @ [n]) ds" if "decided_for cd ws (seen @ [n]) c (map_of ds ?k)"
    unfolding decided_ok_def using that others c(1) by (metis option.inject)
  note step = keep_decision_of [OF n latest, of ds]
  show ?thesis
  proof (cases "map_of ds ?k")
    case None
    then have "keep_decision cd ws latest n ds = Inr ?new" using step c by (simp add: Let_def)
    with put decided_for_new [OF n c(2) here] None show ?thesis by simp
  next
    case (Some e)
    obtain v i prior where e: "e = (v, i, prior)" by (cases e) auto
    from here Some e obtain m where m: "m \<in> set seen" "cn_id m = i" "decision_of cd ws m v prior" "about prior c"
      by (auto simp: decided_for_def)
    consider "v < version" | "v = version" | "version < v" by linarith
    then show ?thesis
    proof cases
      case 1
      then have "keep_decision cd ws latest n ds = Inr ?new" using step c Some e by (simp add: Let_def)
      moreover have "decided_for cd ws (seen @ [n]) c (Some (version, cn_id n, d))"
        using decided_for_new [OF n c(2) here] Some e 1 by simp
      ultimately show ?thesis using put by blast
    next
      case 2
      have "about prior d" using m(4) c(2) by (simp add: about_def)
      then have "m = n" using uniq m n 2 unfolding versions_unique_def by blast
      then have "prior = d" using decision_of_unique [OF n] m(3) by blast
      then have "keep_decision cd ws latest n ds = Inr ds" using step c Some e 2 m(2) \<open>m = n\<close> by (simp add: Let_def)
      moreover have "decided_for cd ws (seen @ [n]) c (map_of ds ?k)"
        using decided_for_old [OF n] here Some e 2 by simp
      ultimately show ?thesis using keep by blast
    next
      case 3
      then have "keep_decision cd ws latest n ds = Inr ds" using step c Some e by (simp add: Let_def)
      moreover have "decided_for cd ws (seen @ [n]) c (map_of ds ?k)"
        using decided_for_old [OF n] here Some e 3 by simp
      ultimately show ?thesis using keep by blast
    qed
  qed
qed

lemma decisions_kept:
  assumes "\<forall>n\<in>set ns. \<exists>v d. decision_of cd ws n v d" "latest_ok snapshots latest"
    and "versions_unique cd ws (set seen \<union> set ns)" "decided_ok cd ws latest seen ds"
  shows "\<exists>ds'. fold_res (keep_decision cd ws latest) ns ds = Inr ds' \<and> decided_ok cd ws latest (seen @ ns) ds'"
  using assms
proof (induction ns arbitrary: seen ds)
  case (Cons n ns)
  from Cons.prems(1) obtain v d where n: "decision_of cd ws n v d" by auto
  have "versions_unique cd ws (insert n (set seen))" using Cons.prems(3) by (auto simp: versions_unique_def)
  from decided_ok_step [OF Cons.prems(4) n Cons.prems(2) this] obtain ds1
    where ds1: "keep_decision cd ws latest n ds = Inr ds1" "decided_ok cd ws latest (seen @ [n]) ds1" by blast
  have "versions_unique cd ws (set (seen @ [n]) \<union> set ns)" using Cons.prems(3) by (simp add: insert_commute)
  from Cons.IH [OF _ Cons.prems(2) this ds1(2)] Cons.prems(1) ds1(1) show ?case by simp
qed simp

section \<open>The projection\<close>

definition is_decision :: "string \<Rightarrow> conversation_node \<Rightarrow> bool" where
  "is_decision ws n \<longleftrightarrow> node_matches (snapshot_query ws ''disambiguation_decision'') n \<or>
     node_matches (snapshot_query ws ''disambiguation_decision_challenge'') n"

text \<open>Every decision can be read, and two decisions about the same evidence have different versions.\<close>

definition decision_invariant :: "codec \<Rightarrow> string \<Rightarrow> conversation_node set \<Rightarrow> bool" where
  "decision_invariant cd ws N \<longleftrightarrow> (\<forall>n\<in>N. is_decision ws n \<longrightarrow> (\<exists>v d. decision_of cd ws n v d)) \<and>
     versions_unique cd ws {n \<in> N. is_decision ws n}"

text \<open>The snapshots the caller may see, and what is shown for a key: the newest of them, or the decision with
  the largest version about it.\<close>

definition visible_snapshots ::
    "codec \<Rightarrow> stable_id_fn \<Rightarrow> authorizer \<Rightarrow> string \<Rightarrow> conversation_node set \<Rightarrow> disambiguation_candidate set" where
  "visible_snapshots cd sid authorize ws N = {stored_form c | c. \<exists>n\<in>N. snapshot_of cd sid ws n c \<and>
     (\<forall>st\<in>set (the (candidate_streams cd c)). authorize ws st)}"

definition latest_decision ::
    "codec \<Rightarrow> string \<Rightarrow> conversation_node set \<Rightarrow> disambiguation_candidate \<Rightarrow> disambiguation_candidate \<Rightarrow> bool" where
  "latest_decision cd ws N c d \<longleftrightarrow> (\<exists>n\<in>N. \<exists>v. is_decision ws n \<and> decision_of cd ws n v d \<and> about d c \<and>
     (\<forall>n'\<in>N. \<forall>v' d'. is_decision ws n' \<longrightarrow> decision_of cd ws n' v' d' \<longrightarrow> about d' c \<longrightarrow> v' \<le> v))"

definition undecided :: "codec \<Rightarrow> string \<Rightarrow> conversation_node set \<Rightarrow> disambiguation_candidate \<Rightarrow> bool" where
  "undecided cd ws N c \<longleftrightarrow> (\<forall>n\<in>N. \<forall>v d. is_decision ws n \<longrightarrow> decision_of cd ws n v d \<longrightarrow> \<not> about d c)"

definition shown_for ::
    "codec \<Rightarrow> string \<Rightarrow> conversation_node set \<Rightarrow> disambiguation_candidate \<Rightarrow> disambiguation_candidate \<Rightarrow> bool" where
  "shown_for cd ws N c d \<longleftrightarrow> undecided cd ws N c \<and> d = c \<or> latest_decision cd ws N c d"

lemma shown_for_entry:
  assumes "decided_for cd ws seen c e" "set seen = {n \<in> N. is_decision ws n}"
    and uniq: "versions_unique cd ws {n \<in> N. is_decision ws n}"
  shows "shown_for cd ws N c d \<longleftrightarrow> d = (case e of None \<Rightarrow> c | Some (_, _, d) \<Rightarrow> d)"
proof (cases e)
  case None
  then have "undecided cd ws N c" using assms(1,2) by (auto simp: decided_for_def undecided_def)
  then have "\<not> latest_decision cd ws N c d" by (auto simp: latest_decision_def undecided_def)
  with \<open>undecided cd ws N c\<close> None show ?thesis by (auto simp: shown_for_def)
next
  case (Some x)
  obtain v i d0 where x: "x = (v, i, d0)" by (cases x) auto
  with Some assms(1,2) obtain n where n: "n \<in> N" "is_decision ws n" "decision_of cd ws n v d0" "about d0 c"
    and max: "\<forall>n\<in>N. \<forall>v' d'. is_decision ws n \<longrightarrow> decision_of cd ws n v' d' \<longrightarrow> about d' c \<longrightarrow> v' \<le> v"
    by (auto simp: decided_for_def)
  have "d = d0" if "latest_decision cd ws N c d"
  proof -
    from that obtain m w where m: "m \<in> N" "is_decision ws m" "decision_of cd ws m w d" "about d c"
      "\<forall>n'\<in>N. \<forall>v' d'. is_decision ws n' \<longrightarrow> decision_of cd ws n' v' d' \<longrightarrow> about d' c \<longrightarrow> v' \<le> w"
      unfolding latest_decision_def by blast
    have "w \<le> v" "v \<le> w" using max m n by blast+
    then have "w = v" by simp
    moreover have "about d0 d" using n(4) m(4) by (simp add: about_def)
    ultimately have "n = m" using uniq n m unfolding versions_unique_def by blast
    then show ?thesis using decision_of_unique [OF n(3)] m(3) by blast
  qed
  moreover have "latest_decision cd ws N c d0" using n max unfolding latest_decision_def by blast
  moreover have "\<not> undecided cd ws N c" using n unfolding undecided_def by blast
  ultimately show ?thesis using Some x by (auto simp: shown_for_def)
qed

lemma shown_for_unique:
  assumes "shown_for cd ws N c d" "shown_for cd ws N c d'" and uniq: "versions_unique cd ws {n \<in> N. is_decision ws n}"
  shows "d = d'"
proof (cases "undecided cd ws N c")
  case True
  with assms(1,2) show ?thesis by (auto simp: shown_for_def undecided_def latest_decision_def)
next
  case False
  with assms(1) obtain n v where n: "n \<in> N" "is_decision ws n" "decision_of cd ws n v d" "about d c"
    "\<forall>n'\<in>N. \<forall>v' d'. is_decision ws n' \<longrightarrow> decision_of cd ws n' v' d' \<longrightarrow> about d' c \<longrightarrow> v' \<le> v"
    unfolding shown_for_def latest_decision_def by blast
  from False assms(2) obtain m w where m: "m \<in> N" "is_decision ws m" "decision_of cd ws m w d'" "about d' c"
    "\<forall>n'\<in>N. \<forall>v' d'. is_decision ws n' \<longrightarrow> decision_of cd ws n' v' d' \<longrightarrow> about d' c \<longrightarrow> v' \<le> w"
    unfolding shown_for_def latest_decision_def by blast
  have "w \<le> v" "v \<le> w" using n m by blast+
  then have "w = v" by simp
  moreover have "about d d'" using n(4) m(4) by (simp add: about_def)
  ultimately have "n = m" using uniq n m unfolding versions_unique_def by blast
  then show ?thesis using decision_of_unique [OF n(3)] m(3) by blast
qed

lemma newer_linear:
  "\<not> newer_snapshot c c' \<Longrightarrow> \<not> newer_snapshot c' c \<Longrightarrow> dc_evidence_snapshot_id c = dc_evidence_snapshot_id c'"
  unfolding newer_snapshot_def by (metis not_less_iff_gr_or_eq prod.inject)

context conversation_store
begin

lemma newest_unique:
  assumes "newest_in (visible_snapshots cd sid authorize ws (stored s (conv_bg ws))) c"
    "newest_in (visible_snapshots cd sid authorize ws (stored s (conv_bg ws))) c'" "dc_candidate_key c = dc_candidate_key c'"
  shows "c = c'"
proof -
  obtain x n where x: "c = stored_form x" "n \<in> stored s (conv_bg ws)" "snapshot_of cd sid ws n x"
    using assms(1) by (auto simp: newest_in_def visible_snapshots_def)
  obtain x' n' where x': "c' = stored_form x'" "n' \<in> stored s (conv_bg ws)" "snapshot_of cd sid ws n' x'"
    using assms(2) by (auto simp: newest_in_def visible_snapshots_def)
  have "\<not> newer_snapshot c c'" "\<not> newer_snapshot c' c" using assms by (auto simp: newest_in_def)
  then have "dc_evidence_snapshot_id c = dc_evidence_snapshot_id c'" by (rule newer_linear)
  moreover have "cn_id n = sid [''contact_match_candidate_snapshot'', ws, dc_candidate_key c, dc_evidence_snapshot_id c]"
    "cn_id n' = sid [''contact_match_candidate_snapshot'', ws, dc_candidate_key c', dc_evidence_snapshot_id c']"
    using x x' by (auto simp: snapshot_of_def snapshot_node_def prepared_form_def snapshot_node_id_def stored_form_def Let_def)
  ultimately have "n = n'" using unique_ids [OF x(2) x'(2)] assms(3) by simp
  then have "jget (cn_metadata n) ''candidate_json'' = JStr (candidate_json x')"
    using x'(3) by (auto simp: snapshot_of_def snapshot_node_def prepared_form_def Let_def jget_def)
  moreover have "decodable cd x'" using x'(3) by (simp add: snapshot_of_def)
  ultimately have "stored_form x = stored_form x'" using same_text [OF x(3)] by blast
  with x(1) x'(1) show ?thesis by simp
qed

lemma decision_nodes_stored:
  assumes "card {n \<in> stored s (conv_bg ws). is_decision ws n} \<le> 5000"
  shows "set (decision_nodes ops ws s) = {n \<in> stored s (conv_bg ws). is_decision ws n}"
proof -
  have "set (cv_get_nodes_where ops s (conv_bg ws) (snapshot_query ws kind) max_contact_artifact_scan) =
      {n \<in> stored s (conv_bg ws). node_matches (snapshot_query ws kind) n}"
    if "kind = ''disambiguation_decision'' \<or> kind = ''disambiguation_decision_challenge''" for kind
  proof (rule where_complete)
    have "{n \<in> stored s (conv_bg ws). node_matches (snapshot_query ws kind) n} \<subseteq> {n \<in> stored s (conv_bg ws). is_decision ws n}"
      using that by (auto simp: is_decision_def)
    from card_mono [OF _ this] assms show "int (card {n \<in> stored s (conv_bg ws). node_matches (snapshot_query ws kind) n}) \<le> max_contact_artifact_scan"
      by (simp add: max_contact_artifact_scan_def finite_stored)
  qed
  then show ?thesis by (auto simp: decision_nodes_def is_decision_def)
qed

lemma current_listed:
  assumes inv: "snapshot_invariant cd sid stored s" "decision_invariant cd ws (stored s (conv_bg ws))"
    and ws: "py_strip ws \<noteq> []"
    and cards: "card {n \<in> stored s (conv_bg ws). is_snapshot n} \<le> 5000" "card {n \<in> stored s (conv_bg ws). is_decision ws n} \<le> 5000"
  shows "\<exists>L. list_current_contact_candidates cd ops authorize ws 5000 s = Inr L \<and>
    set L = {d. \<exists>c. newest_in (visible_snapshots cd sid authorize ws (stored s (conv_bg ws))) c \<and>
      shown_for cd ws (stored s (conv_bg ws)) c d}"
proof -
  let ?N = "stored s (conv_bg ws)" and ?S = "visible_snapshots cd sid authorize ws (stored s (conv_bg ws))"
  from snapshots_listed [OF inv(1) ws, of 5000 authorize] cards(1) obtain L0 where L0:
    "list_contact_candidate_snapshots cd ops authorize ws 5000 s = Inr L0" "length L0 \<le> 5000" "set L0 = ?S"
    by (auto simp: visible_snapshots_def)
  let ?latest = "latest_by_key L0"
  note ok = latest_by_key_ok [of L0]
  have newest: "map_of ?latest k = Some c \<longleftrightarrow> newest_in ?S c \<and> dc_candidate_key c = k" for k c
  proof
    assume *: "newest_in ?S c \<and> dc_candidate_key c = k"
    then have "map_of ?latest k \<noteq> None" using ok L0(3) unfolding latest_ok_def newest_in_def by (fastforce split: option.splits)
    then obtain c' where c': "map_of ?latest k = Some c'" by blast
    from latest_ok_newest [OF ok this] L0(3) have "newest_in ?S c' \<and> dc_candidate_key c' = k" by simp
    then have "c = c'" using * newest_unique by blast
    with c' show "map_of ?latest k = Some c" by simp
  next
    assume "map_of ?latest k = Some c"
    from latest_ok_newest [OF ok this] L0(3) show "newest_in ?S c \<and> dc_candidate_key c = k" by simp
  qed
  have dist: "distinct (map fst ?latest)" using ok by (simp add: latest_ok_def)
  have nodes: "set (decision_nodes ops ws s) = {n \<in> ?N. is_decision ws n}" by (rule decision_nodes_stored [OF cards(2)])
  have "decided_ok cd ws ?latest [] []" by (auto simp: decided_ok_def decided_for_def)
  moreover have "\<forall>n\<in>set (decision_nodes ops ws s). \<exists>v d. decision_of cd ws n v d"
    using inv(2) nodes unfolding decision_invariant_def by auto
  moreover have "versions_unique cd ws (set [] \<union> set (decision_nodes ops ws s))"
    using inv(2) nodes unfolding decision_invariant_def by simp
  ultimately obtain ds where ds: "fold_res (keep_decision cd ws ?latest) (decision_nodes ops ws s) [] = Inr ds"
    "decided_ok cd ws ?latest (decision_nodes ops ws s) ds"
    using decisions_kept [of "decision_nodes ops ws s" cd ws L0 ?latest "[]" "[]"] ok by auto
  let ?pick = "\<lambda>(key, c). case map_of ds key of None \<Rightarrow> c | Some (_, _, d) \<Rightarrow> d"
  have pick: "shown_for cd ws ?N c d \<longleftrightarrow> d = ?pick (k, c)" if "map_of ?latest k = Some c" for k c d
    using shown_for_entry [OF _ nodes, of cd c "map_of ds k" d] ds(2) that inv(2)
    unfolding decided_ok_def decision_invariant_def by simp
  have len: "length ?latest \<le> 5000"
  proof -
    have "set (map fst ?latest) \<subseteq> dc_candidate_key ` set L0"
    proof
      fix k assume "k \<in> set (map fst ?latest)"
      then obtain c where "map_of ?latest k = Some c" by (metis list.set_map map_of_eq_None_iff option.exhaust)
      with newest L0(3) show "k \<in> dc_candidate_key ` set L0" by (auto simp: newest_in_def)
    qed
    then have "card (set (map fst ?latest)) \<le> length L0"
      by (meson List.finite_set card_image_le card_length card_mono finite_imageI le_trans)
    with dist L0(2) show ?thesis by (metis distinct_card le_trans length_map)
  qed
  have "set (map ?pick ?latest) = {d. \<exists>c. newest_in ?S c \<and> shown_for cd ws ?N c d}"
  proof -
    have mem: "(k, c) \<in> set ?latest \<longleftrightarrow> newest_in ?S c \<and> dc_candidate_key c = k" for k c
      unfolding newest [symmetric] by (rule map_of_eq_Some_iff [OF dist, symmetric])
    have "d \<in> set (map ?pick ?latest) \<longleftrightarrow> (\<exists>c. newest_in ?S c \<and> shown_for cd ws ?N c d)" for d
    proof -
      have "d \<in> set (map ?pick ?latest) \<longleftrightarrow> (\<exists>k c. (k, c) \<in> set ?latest \<and> d = ?pick (k, c))" by (simp only: set_map image_iff Bex_def split_paired_Ex)
      also have "\<dots> \<longleftrightarrow> (\<exists>k c. (k, c) \<in> set ?latest \<and> shown_for cd ws ?N c d)"
        using pick newest mem by blast
      also have "\<dots> \<longleftrightarrow> (\<exists>c. newest_in ?S c \<and> shown_for cd ws ?N c d)" by (simp add: mem)
      finally show ?thesis .
    qed
    then show ?thesis by blast
  qed
  with L0(1) ds(1) len have "list_current_contact_candidates cd ops authorize ws 5000 s =
      Inr (sort_key review_order (map ?pick ?latest)) \<and> set (sort_key review_order (map ?pick ?latest)) =
      {d. \<exists>c. newest_in ?S c \<and> shown_for cd ws ?N c d}"
    by (auto simp: list_current_contact_candidates_def raise_if_def max_contact_artifact_scan_def Let_def)
  then show ?thesis by blast
qed

end

section \<open>Answers\<close>

lemma reconcile_version: "rr_new_evidence_version (reconcile_disambiguation_candidate c u) = eu_evidence_version u"
  by (rule reconcile_cases [of c u]) (simp_all add: branch_defs)

lemma reconcile_about:
  "dc_candidate_key (rr_candidate (reconcile_disambiguation_candidate c u)) = dc_candidate_key c"
  "dc_workspace_id (rr_candidate (reconcile_disambiguation_candidate c u)) = dc_workspace_id c"
  "dc_evidence_snapshot_id (rr_candidate (reconcile_disambiguation_candidate c u)) = dc_evidence_snapshot_id c"
  using reconcile_candidate_fields [of c u] by (simp_all add: question_identity_def)

text \<open>The node a recorded answer leaves.\<close>

definition answer_node ::
    "codec \<Rightarrow> stable_id_fn \<Rightarrow> disambiguation_candidate \<Rightarrow> evidence_update \<Rightarrow> string \<Rightarrow> string option \<Rightarrow> maintenance_patch \<Rightarrow>
     conversation_node" where
  "answer_node cd sid c u src actor p = (let r = reconcile_disambiguation_candidate c u in
     build_decision_node cd c (decision_node_id sid c u src r) u src r p actor)"

lemma answer_node_decision:
  assumes "cd_candidate cd (cd_dump_candidate cd (rr_candidate (reconcile_disambiguation_candidate c u))) =
    Some (rr_candidate (reconcile_disambiguation_candidate c u))"
  shows "decision_of cd (dc_workspace_id c) (answer_node cd sid c u src actor p) (eu_evidence_version u)
      (rr_candidate (reconcile_disambiguation_candidate c u))"
  using assms
  by (simp add: decision_of_def Let_def answer_node_def build_decision_node_def decision_metadata_def jget_def
      stored_version_def py_int_def reconcile_version reconcile_about)

lemma answer_node_is_decision: "is_decision (dc_workspace_id c) (answer_node cd sid c u src actor p)"
  by (simp add: is_decision_def node_matches_def snapshot_query_def answer_node_def build_decision_node_def
      decision_metadata_def jget_def Let_def)

lemma answer_node_not_snapshot: "\<not> is_snapshot (answer_node cd sid c u src actor p)"
  by (simp add: is_snapshot_def answer_node_def build_decision_node_def decision_metadata_def jget_def Let_def
      split: option.split)

lemma answer_node_id: "cn_id (answer_node cd sid c u src actor p) = decision_node_id sid c u src (reconcile_disambiguation_candidate c u)"
  by (simp add: answer_node_def build_decision_node_def Let_def)

context conversation_store
begin

lemma record_answer_stored:
  assumes "record_answer cd sid ops c u src actor s = (s', Inr an)"
    and "\<forall>n\<in>stored s (conv_bg (dc_workspace_id c)). cn_id n \<noteq> decision_node_id sid c u src (reconcile_disambiguation_candidate c u)"
  shows "an_candidate an = rr_candidate (reconcile_disambiguation_candidate c u) \<and>
    (\<exists>p. stored s' = (stored s)(conv_bg (dc_workspace_id c) :=
       insert (answer_node cd sid c u src actor p) (stored s (conv_bg (dc_workspace_id c)))))"
proof -
  let ?r = "reconcile_disambiguation_candidate c u" and ?ns = "conv_bg (dc_workspace_id c)"
  from assms(1) obtain p where p: "persist_decision_node cd sid ops c u src ?r p actor s = (s', None)"
    "an_candidate an = rr_candidate ?r"
    by (auto simp: record_answer_def Let_def split: sum.splits prod.splits option.splits)
  have empty: "cv_get_nodes_by_ids ops s ?ns [decision_node_id sid c u src ?r] 1 = []"
    using by_id [of s ?ns "decision_node_id sid c u src ?r"] assms(2) by (metis (mono_tags, lifting) Collect_empty_eq set_empty)
  have "\<forall>n\<in>stored s ?ns. cn_id n \<noteq> cn_id (answer_node cd sid c u src actor p)" using assms(2) by (simp add: answer_node_id)
  from add_node [OF this] p(1) empty have "stored s' = (stored s)(?ns := insert (answer_node cd sid c u src actor p) (stored s ?ns))"
    by (auto simp: persist_decision_node_def answer_node_def Let_def)
  with p(2) show ?thesis by blast
qed

lemma answer_shown:
  fixes c u src
  defines "r \<equiv> reconcile_disambiguation_candidate c u" and "ws \<equiv> dc_workspace_id c"
  assumes ok: "record_answer cd sid ops c u src actor s = (s', Inr an)"
    and fresh: "\<forall>n\<in>stored s (conv_bg ws). cn_id n \<noteq> decision_node_id sid c u src r"
    and dump: "cd_candidate cd (cd_dump_candidate cd (rr_candidate r)) = Some (rr_candidate r)"
    and newer: "\<forall>n\<in>stored s (conv_bg ws). \<forall>v d. is_decision ws n \<longrightarrow> decision_of cd ws n v d \<longrightarrow> about d c \<longrightarrow> v < eu_evidence_version u"
    and inv: "decision_invariant cd ws (stored s (conv_bg ws))"
  shows "decision_invariant cd ws (stored s' (conv_bg ws))"
    and "about c0 c \<Longrightarrow> shown_for cd ws (stored s' (conv_bg ws)) c0 d \<longleftrightarrow> d = rr_candidate r"
    and "\<not> about c0 c \<Longrightarrow> shown_for cd ws (stored s' (conv_bg ws)) c0 d \<longleftrightarrow> shown_for cd ws (stored s (conv_bg ws)) c0 d"
proof -
  let ?N = "stored s (conv_bg ws)" and ?N' = "stored s' (conv_bg ws)"
  from record_answer_stored [OF ok fresh [unfolded r_def ws_def]] obtain p
    where N': "?N' = insert (answer_node cd sid c u src actor p) ?N" by (auto simp: ws_def)
  let ?n = "answer_node cd sid c u src actor p" and ?v = "eu_evidence_version u"
  have n: "decision_of cd ws ?n ?v (rr_candidate r)" "is_decision ws ?n" "about (rr_candidate r) c"
    using answer_node_decision [of cd c u] dump answer_node_is_decision reconcile_about [of c u]
    by (simp_all add: r_def ws_def about_def)
  have only: "v = ?v \<and> d = rr_candidate r" if "decision_of cd ws ?n v d" for v d using decision_of_unique [OF n(1) that] by simp
  have trans: "about d c'" if "about d b" "about b c'" for d b c' using that by (simp add: about_def)
  have sym: "about b d" if "about d b" for d b using that by (simp add: about_def)
  have "m = m'" if "m \<in> ?N'" "is_decision ws m" "m' \<in> ?N'" "is_decision ws m'" "decision_of cd ws m v d"
      "decision_of cd ws m' v d'" "about d d'" for m m' v d d'
  proof -
    have "v < ?v" if "w \<in> ?N" "is_decision ws w" "decision_of cd ws w v e" "about e c" for w e
      using newer that by blast
    moreover have "v = ?v \<and> about d c \<and> about d' c" if "m = ?n \<or> m' = ?n"
      using that only \<open>decision_of cd ws m v d\<close> \<open>decision_of cd ws m' v d'\<close> n(3) trans sym \<open>about d d'\<close> by blast
    ultimately show ?thesis
      using that inv unfolding N' decision_invariant_def versions_unique_def by blast
  qed
  then show "decision_invariant cd ws ?N'"
    using inv n unfolding decision_invariant_def versions_unique_def N' by blast
  show "shown_for cd ws ?N' c0 d \<longleftrightarrow> d = rr_candidate r" if c0: "about c0 c"
  proof -
    have top: "latest_decision cd ws ?N' c0 d \<longleftrightarrow> d = rr_candidate r"
    proof
      assume "latest_decision cd ws ?N' c0 d"
      then obtain m v where m: "m \<in> ?N'" "is_decision ws m" "decision_of cd ws m v d" "about d c0"
        "\<forall>n'\<in>?N'. \<forall>v' d'. is_decision ws n' \<longrightarrow> decision_of cd ws n' v' d' \<longrightarrow> about d' c0 \<longrightarrow> v' \<le> v"
        unfolding latest_decision_def by blast
      have "?n \<in> ?N'" "about (rr_candidate r) c0" using N' n(3) c0 trans sym by blast+
      with m(5) n have "?v \<le> v" by blast
      have "m = ?n"
      proof (rule ccontr)
        assume "m \<noteq> ?n"
        with m(1) N' have "m \<in> ?N" by blast
        with newer m(2,3) trans [OF m(4) c0] have "v < ?v" by blast
        with \<open>?v \<le> v\<close> show False by simp
      qed
      with only m(3) show "d = rr_candidate r" by blast
    next
      assume d: "d = rr_candidate r"
      have "v' \<le> ?v" if "m \<in> ?N'" "is_decision ws m" "decision_of cd ws m v' d'" "about d' c0" for m v' d'
        using that newer only trans [OF that(4) c0] unfolding N' by (metis insert_iff order.refl order.strict_implies_order)
      then show "latest_decision cd ws ?N' c0 d"
        using n trans [OF n(3) sym [OF c0]] unfolding latest_decision_def d by (intro bexI [of _ ?n] exI [of _ ?v]) (auto simp: N')
    qed
    moreover have "\<not> undecided cd ws ?N' c0" using n trans [OF n(3) sym [OF c0]] unfolding undecided_def N' by blast
    ultimately show ?thesis by (auto simp: shown_for_def)
  qed
  show "shown_for cd ws ?N' c0 d \<longleftrightarrow> shown_for cd ws ?N c0 d" if c0: "\<not> about c0 c"
  proof -
    have no: "\<not> about e c0" if "decision_of cd ws ?n v e" for v e
    proof
      assume "about e c0"
      then have "about c0 c" using only [OF that] n(3) trans sym by blast
      with c0 show False by simp
    qed
    have "latest_decision cd ws ?N' c0 d \<longleftrightarrow> latest_decision cd ws ?N c0 d"
      unfolding latest_decision_def N' using no by blast
    moreover have "undecided cd ws ?N' c0 \<longleftrightarrow> undecided cd ws ?N c0" unfolding undecided_def N' using no by blast
    ultimately show ?thesis by (simp add: shown_for_def)
  qed
qed


lemma answer_becomes_current:
  assumes inv: "snapshot_invariant cd sid stored s" "decision_invariant cd ws (stored s (conv_bg ws))"
    and ws: "py_strip ws \<noteq> []" "dc_workspace_id c = ws"
    and cards: "card {n \<in> stored s' (conv_bg ws). is_snapshot n} \<le> 5000" "card {n \<in> stored s' (conv_bg ws). is_decision ws n} \<le> 5000"
    and cur: "list_current_contact_candidates cd ops authorize ws 5000 s = Inr L" "c \<in> set L"
    and ok: "record_answer cd sid ops c u src actor s = (s', Inr an)"
    and fresh: "\<forall>n\<in>stored s (conv_bg ws). cn_id n \<noteq> decision_node_id sid c u src (reconcile_disambiguation_candidate c u)"
    and dump: "cd_candidate cd (cd_dump_candidate cd (an_candidate an)) = Some (an_candidate an)"
    and newer: "\<forall>n\<in>stored s (conv_bg ws). \<forall>v d. is_decision ws n \<longrightarrow> decision_of cd ws n v d \<longrightarrow> about d c \<longrightarrow> v < eu_evidence_version u"
  shows "decision_invariant cd ws (stored s' (conv_bg ws)) \<and> snapshot_invariant cd sid stored s' \<and>
    (\<exists>L'. list_current_contact_candidates cd ops authorize ws 5000 s' = Inr L' \<and> set L' = insert (an_candidate an) (set L - {c}))"
proof -
  let ?N = "stored s (conv_bg ws)" and ?N' = "stored s' (conv_bg ws)"
  let ?new = "newest_in (visible_snapshots cd sid authorize ws ?N)"
  from record_answer_stored [OF ok fresh [folded ws(2)]] obtain p
    where an: "an_candidate an = rr_candidate (reconcile_disambiguation_candidate c u)"
    and st: "stored s' = (stored s)(conv_bg ws := insert (answer_node cd sid c u src actor p) ?N)" by (auto simp: ws(2))
  have not_snap: "\<not> snapshot_of cd sid ws (answer_node cd sid c u src actor p) x" for x
  proof
    assume "snapshot_of cd sid ws (answer_node cd sid c u src actor p) x"
    then have "is_snapshot (answer_node cd sid c u src actor p)"
      by (auto simp: snapshot_of_def is_snapshot_def snapshot_node_def prepared_form_def Let_def jget_def)
    with answer_node_not_snapshot show False by blast
  qed
  have same: "visible_snapshots cd sid authorize ws ?N' = visible_snapshots cd sid authorize ws ?N"
    using not_snap by (auto simp: visible_snapshots_def st)
  have inv': "snapshot_invariant cd sid stored s'"
    using inv(1) answer_node_not_snapshot by (auto simp: snapshot_invariant_def st conv_bg_def)
  have sub: "?N \<subseteq> ?N'" by (auto simp: st)
  have "card {n \<in> ?N. is_snapshot n} \<le> 5000" "card {n \<in> ?N. is_decision ws n} \<le> 5000"
    using cards sub card_mono [of "{n \<in> ?N'. is_snapshot n}" "{n \<in> ?N. is_snapshot n}"]
      card_mono [of "{n \<in> ?N'. is_decision ws n}" "{n \<in> ?N. is_decision ws n}"] finite_stored
    by (fastforce intro: order.trans)+
  from current_listed [OF inv ws(1) this, of authorize] cur(1) have L: "set L = {d. \<exists>c. ?new c \<and> shown_for cd ws ?N c d}" by simp
  note shown = answer_shown [OF ok, unfolded ws(2), OF fresh _ newer inv(2)]
  note shown = shown [folded an, OF dump]
  from current_listed [OF inv' shown(1) ws(1) cards, of authorize] obtain L'
    where L': "list_current_contact_candidates cd ops authorize ws 5000 s' = Inr L'"
      "set L' = {d. \<exists>c. ?new c \<and> shown_for cd ws ?N' c d}" by (auto simp: same)
  have about_shown: "about c0 d" if "shown_for cd ws ?N c0 d" for c0 d
    using that by (auto simp: shown_for_def latest_decision_def about_def)
  have only: "about c1 c \<longleftrightarrow> c1 = c0" if "?new c0" "?new c1" "about c0 c" for c0 c1
    using newest_unique [OF that(1,2)] that(3) by (auto simp: about_def)
  from cur(2) L obtain c0 where c0: "?new c0" "shown_for cd ws ?N c0 c" by auto
  have "set L' = insert (an_candidate an) (set L - {c})"
  proof (intro set_eqI iffI)
    fix d assume "d \<in> set L'"
    then obtain c1 where c1: "?new c1" "shown_for cd ws ?N' c1 d" using L'(2) by blast
    show "d \<in> insert (an_candidate an) (set L - {c})"
    proof (cases "about c1 c")
      case True
      with c1(2) shown(2) an show ?thesis by simp
    next
      case False
      with c1(2) shown(3) have "shown_for cd ws ?N c1 d" by simp
      with about_shown [OF this] False c1(1) L show ?thesis by auto
    qed
  next
    fix d assume d: "d \<in> insert (an_candidate an) (set L - {c})"
    show "d \<in> set L'"
    proof (cases "d = an_candidate an")
      case True
      with shown(2) [of c0 d] about_shown [OF c0(2)] c0(1) an show ?thesis unfolding L'(2) by auto
    next
      case False
      with d L obtain c1 where c1: "?new c1" "shown_for cd ws ?N c1 d" "d \<noteq> c" by blast
      have "\<not> about c1 c"
      proof
        assume "about c1 c"
        then have "c1 = c0" using only [OF c0(1) c1(1) about_shown [OF c0(2)]] by simp
        with shown_for_unique [OF c0(2)] c1(2,3) inv(2) show False by (simp add: decision_invariant_def)
      qed
      with c1 shown(3) show ?thesis unfolding L'(2) by blast
    qed
  qed
  with shown(1) inv' L' show ?thesis by blast
qed

end

section \<open>The review loop\<close>

text \<open>C18: The review projection is exact. On any conversation engine, when the stored snapshots and decisions
  can be read and no two decisions about the same evidence share a version, listing the current questions succeeds
  and shows, for every key the caller may see, the newest snapshot, or the decision with the largest version about
  exactly this evidence; a decision on older evidence is never shown.\<close>

theorem current_questions_exact:
  assumes store: "conversation_store ops stored"
    and "snapshot_invariant cd sid stored s" "decision_invariant cd ws (stored s (conv_bg ws))" "py_strip ws \<noteq> []"
    and "card {n \<in> stored s (conv_bg ws). is_snapshot n} \<le> 5000" "card {n \<in> stored s (conv_bg ws). is_decision ws n} \<le> 5000"
  shows "\<exists>L. list_current_contact_candidates cd ops authorize ws 5000 s = Inr L \<and>
    set L = {d. \<exists>c. newest_in (visible_snapshots cd sid authorize ws (stored s (conv_bg ws))) c \<and>
      shown_for cd ws (stored s (conv_bg ws)) c d}"
  by (rule conversation_store.current_listed [OF assms])

text \<open>C17: An answer becomes current. When an answer to a listed question is recorded with a version larger than
  those of the earlier decisions about the same evidence, the next listing succeeds and differs from the one before
  only in that the answered question is replaced by the reconciled one; the stored snapshots and decisions stay
  readable.\<close>

theorem recorded_answer_current:
  assumes store: "conversation_store ops stored"
    and "snapshot_invariant cd sid stored s" "decision_invariant cd ws (stored s (conv_bg ws))"
    and "py_strip ws \<noteq> []" "dc_workspace_id c = ws"
    and "card {n \<in> stored s' (conv_bg ws). is_snapshot n} \<le> 5000" "card {n \<in> stored s' (conv_bg ws). is_decision ws n} \<le> 5000"
    and "list_current_contact_candidates cd ops authorize ws 5000 s = Inr L" "c \<in> set L"
    and "record_answer cd sid ops c u src actor s = (s', Inr an)"
    and "\<forall>n\<in>stored s (conv_bg ws). cn_id n \<noteq> decision_node_id sid c u src (reconcile_disambiguation_candidate c u)"
    and "cd_candidate cd (cd_dump_candidate cd (an_candidate an)) = Some (an_candidate an)"
    and "\<forall>n\<in>stored s (conv_bg ws). \<forall>v d. is_decision ws n \<longrightarrow> decision_of cd ws n v d \<longrightarrow> about d c \<longrightarrow> v < eu_evidence_version u"
  shows "decision_invariant cd ws (stored s' (conv_bg ws)) \<and> snapshot_invariant cd sid stored s' \<and>
    (\<exists>L'. list_current_contact_candidates cd ops authorize ws 5000 s' = Inr L' \<and> set L' = insert (an_candidate an) (set L - {c}))"
  by (rule conversation_store.answer_becomes_current [OF assms])


end
