(* ===== verification/Service_Examples.thy ===== *)
theory Service_Examples
  imports Service_Review
begin

text \<open>
  The review loop on the association-list store: one contact question is persisted, listed, answered by the
  user, and shown as answered.
\<close>

definition example_question :: disambiguation_candidate where
  "example_question = (example_decision ''a'' ''b'' DdkAmbiguous)\<lparr>dc_artifact_status := DasPending,
     dc_resolution_source := DrsNone, dc_source_document_ids := [''d''],
     dc_metadata := [(''source_stream_ids'', JStr (json_strings [''s''])), (''match_basis'', JStr ''name'')]\<rparr>"

definition example_answer :: evidence_update where
  "example_answer = (no_update 1)\<lparr>eu_user_decision := Some DdkSameEntity\<rparr>"

definition example_answered :: disambiguation_candidate where
  "example_answered = rr_candidate (reconcile_disambiguation_candidate (stored_form example_question) example_answer)"

text \<open>A codec that knows two texts: the one of the answered question and any other, which is the question's.\<close>

definition example_codec :: codec where
  "example_codec = \<lparr>cd_parse_float = (\<lambda>t. PyFloat 0 t),
     cd_candidate = (\<lambda>t. if t = ''answered'' then Some example_answered else Some (stored_form example_question)),
     cd_dump_candidate = (\<lambda>c. ''answered''), cd_dump_patch = (\<lambda>p. ''patch'')\<rparr>"

definition example_snapshot_node :: conversation_node where
  "example_snapshot_node = snapshot_node (prepared_form join_id example_question [''s''])"

definition example_store :: conversation_memory where
  "example_store = [((conv_bg ''w'', snapshot_node_id join_id example_question), example_snapshot_node)]"

lemma example_streams: "candidate_streams example_codec example_question = Some [''s'']"
  by (simp add: candidate_streams_def example_question_def jget_def cd_loads_def json_loads_strings nonblank_streams_def;
      code_simp)

lemma example_decodable: "decodable example_codec example_question"
proof -
  have "hd (candidate_json example_question) \<noteq> hd ''answered''" by (simp add: candidate_json_def candidate_object_def)
  then have "candidate_json example_question \<noteq> ''answered''" by metis
  then show ?thesis by (simp add: decodable_def example_codec_def)
qed

lemma example_workspace: "dc_workspace_id example_question = ''w''" "dc_candidate_key example_question = ''contact-match:ab''"
  by (simp_all add: example_question_def example_decision_def)

lemma memory_card: "card {n \<in> memory_stored s ns. P n} \<le> length s"
proof -
  have "{n \<in> memory_stored s ns. P n} \<subseteq> set (map snd s)" using set_memory_nodes [of s ns] by (auto simp: memory_nodes_def)
  then have "card {n \<in> memory_stored s ns. P n} \<le> card (set (map snd s))" by (rule card_mono [OF List.finite_set])
  also have "\<dots> \<le> length s" using card_length [of "map snd s"] by simp
  finally show ?thesis .
qed

lemma example_persisted:
  "persist_contact_candidates example_codec join_id memory_ops (\<lambda>ws st. st = ''s'') [example_question] [] =
     (example_store, Inr [snapshot_node_id join_id example_question])"
proof -
  have "prepare_snapshot example_codec join_id (\<lambda>ws st. st = ''s'') example_question =
      Inr (prepared_form join_id example_question [''s''])"
    unfolding prepare_snapshot_Inr using example_streams by (simp add: example_workspace)
  then show ?thesis
    by (simp add: persist_contact_candidates_def persist_snapshot_def Let_def memory_ops_def memory_nodes_def example_store_def
        example_snapshot_node_def snapshot_node_def prepared_form_def example_workspace)
qed

lemma empty_invariants: "snapshot_invariant cd sid memory_stored []" "decision_invariant cd ws (memory_stored [] ns)"
  by (simp_all add: snapshot_invariant_def decision_invariant_def versions_unique_def memory_stored_def)

lemma strip_w: "py_strip ''w'' \<noteq> []"
  by code_simp

theorem persist_authorizes_first_witness:
  "\<exists>e. persist_contact_candidates example_codec join_id memory_ops (\<lambda>ws st. False) [example_question] [] = ([], Inl e)"
  using persist_authorizes_first [of example_question "[example_question]" example_codec "[''s'']" "''s''" "\<lambda>ws st. False" join_id memory_ops "[]"]
    example_streams by simp

theorem persisted_candidates_listed_witness:
  "\<exists>L. list_contact_candidate_snapshots example_codec memory_ops (\<lambda>ws st. st = ''s'') ''w'' 5000 example_store = Inr L \<and>
     set L = {stored_form example_question}"
proof -
  have dec: "\<forall>c\<in>set [example_question]. decodable example_codec c" using example_decodable by simp
  have card: "card {n \<in> memory_stored example_store (conv_bg ''w''). is_snapshot n} \<le> 5000"
    using memory_card [of example_store "conv_bg ''w''" is_snapshot] by (simp add: example_store_def)
  have before: "list_contact_candidate_snapshots example_codec memory_ops (\<lambda>ws st. st = ''s'') ''w'' 5000 [] = Inr []"
    using strip_w by (simp add: list_contact_candidate_snapshots_def raise_if_def max_contact_artifact_scan_def memory_ops_def
        memory_nodes_def map_filter_simps)
  from persisted_candidates_listed [OF memory.conversation_store_axioms empty_invariants(1) dec example_persisted strip_w card]
  show ?thesis unfolding before by (auto simp: example_workspace)
qed

lemma example_snapshot: "snapshot_of example_codec join_id ''w'' example_snapshot_node example_question"
  using example_streams example_decodable by (simp add: snapshot_of_def example_snapshot_node_def example_workspace)

lemma example_stored: "memory_stored example_store (conv_bg ''w'') = {example_snapshot_node}"
  by (auto simp: memory_stored_def example_store_def example_snapshot_node_def snapshot_node_def prepared_form_def Let_def)

lemma example_no_decision: "\<not> is_decision ws example_snapshot_node"
  by (simp add: is_decision_def node_matches_def snapshot_query_def example_snapshot_node_def snapshot_node_def prepared_form_def
      Let_def jget_def)

lemma example_invariants:
  "snapshot_invariant example_codec join_id memory_stored example_store"
  "decision_invariant example_codec ''w'' (memory_stored example_store (conv_bg ''w''))"
proof -
  show "snapshot_invariant example_codec join_id memory_stored example_store"
    by (rule memory.persist_invariant(1) [OF empty_invariants(1) _ example_persisted]) (simp add: example_decodable)
  show "decision_invariant example_codec ''w'' (memory_stored example_store (conv_bg ''w''))"
    unfolding example_stored by (simp add: decision_invariant_def versions_unique_def example_no_decision)
qed

lemma example_visible:
  "visible_snapshots example_codec join_id (\<lambda>ws st. st = ''s'') ''w'' {example_snapshot_node} = {stored_form example_question}"
proof -
  have "stored_form c = stored_form example_question" if "snapshot_of example_codec join_id ''w'' example_snapshot_node c" for c
  proof (rule memory.same_text [OF that example_decodable])
    show "jget (cn_metadata example_snapshot_node) ''candidate_json'' = JStr (candidate_json example_question)"
      by (simp add: example_snapshot_node_def snapshot_node_def prepared_form_def Let_def jget_def)
  qed
  note only = this
  have "\<forall>st\<in>set (the (candidate_streams example_codec example_question)). st = ''s''" by (simp add: example_streams)
  with example_snapshot only show ?thesis unfolding visible_snapshots_def by blast
qed

lemma example_cards:
  "length s \<le> 5000 \<Longrightarrow> card {n \<in> memory_stored s ns. P n} \<le> 5000"
  using memory_card [of s ns P] by simp

lemma example_shown:
  "newest_in {stored_form example_question} c \<longleftrightarrow> c = stored_form example_question"
  "shown_for example_codec ''w'' {example_snapshot_node} c d \<longleftrightarrow> d = c"
  by (auto simp: newest_in_def shown_for_def undecided_def latest_decision_def example_no_decision)

lemma example_current:
  "\<exists>L. list_current_contact_candidates example_codec memory_ops (\<lambda>ws st. st = ''s'') ''w'' 5000 example_store = Inr L \<and>
     set L = {stored_form example_question}"
proof -
  have len: "length example_store \<le> 5000" by (simp add: example_store_def)
  show ?thesis
    using memory.current_listed [where authorize = "\<lambda>ws st. st = ''s''", OF example_invariants strip_w
        example_cards [OF len] example_cards [OF len]]
    by (simp add: example_stored example_visible example_shown)
qed

theorem current_questions_exact_witness:
  "\<exists>L. list_current_contact_candidates example_codec memory_ops (\<lambda>ws st. st = ''s'') ''w'' 5000 example_store = Inr L \<and>
     set L = {stored_form example_question}"
proof -
  have len: "length example_store \<le> 5000" by (simp add: example_store_def)
  show ?thesis
    using current_questions_exact [where authorize = "\<lambda>ws st. st = ''s''", OF memory.conversation_store_axioms
        example_invariants strip_w example_cards [OF len] example_cards [OF len]]
    by (simp add: example_stored example_visible example_shown)
qed

lemma example_node_id: "cn_id example_snapshot_node = snapshot_node_id join_id example_question"
  by (simp add: example_snapshot_node_def snapshot_node_def prepared_form_def Let_def)

lemma example_recorded:
  "\<exists>s' an. record_answer example_codec join_id memory_ops (stored_form example_question) example_answer ''user'' None example_store =
     (s', Inr an) \<and> an_candidate an = example_answered \<and> length s' = 2"
proof -
  let ?q = "stored_form example_question" and ?u = example_answer
  let ?r = "reconcile_disambiguation_candidate ?q ?u"
  let ?patch = "build_disambiguation_patch join_id ?q ?r
      (join_id [''disambiguation_answer_run'', dc_artifact_id ?q, int_str (eu_evidence_version ?u), ''user''])
      (case dc_source_document_ids ?q of [] \<Rightarrow> None | d # _ \<Rightarrow> Some d) (dc_source_span_ids ?q) answer_confidence"
  have "(case ?patch of Inl e \<Rightarrow> False | Inr p \<Rightarrow> True)" by code_simp
  then obtain p where p: "?patch = Inr p" by (auto split: sum.splits)
  have ids: "decision_node_id join_id ?q ?u ''user'' ?r \<noteq> snapshot_node_id join_id example_question" by code_simp
  have ws: "dc_workspace_id ?q = ''w''" by (simp add: stored_form_def example_workspace)
  have empty: "cv_get_nodes_by_ids memory_ops example_store (conv_bg ''w'') [decision_node_id join_id ?q ?u ''user'' ?r] 1 = []"
  proof -
    have "set (cv_get_nodes_by_ids memory_ops example_store (conv_bg ''w'') [decision_node_id join_id ?q ?u ''user'' ?r] 1) = {}"
      unfolding memory.by_id example_stored using ids [symmetric] by (simp add: example_node_id)
    then show ?thesis by (simp only: set_empty)
  qed
  have "persist_decision_node example_codec join_id memory_ops ?q ?u ''user'' ?r p None example_store =
      (AList.update (conv_bg ''w'', decision_node_id join_id ?q ?u ''user'' ?r)
        (answer_node example_codec join_id ?q ?u ''user'' None p) example_store, None)"
    by (simp add: persist_decision_node_def Let_def ws empty answer_node_def) (simp add: memory_ops_def build_decision_node_def)
  with p ids show ?thesis
    by (simp add: record_answer_def Let_def example_answered_def example_store_def)
qed

theorem recorded_answer_current_witness:
  "\<exists>s' an L. record_answer example_codec join_id memory_ops (stored_form example_question) example_answer ''user'' None example_store =
     (s', Inr an) \<and>
     list_current_contact_candidates example_codec memory_ops (\<lambda>ws st. st = ''s'') ''w'' 5000 s' = Inr L \<and>
     set L = {example_answered} \<and> dc_artifact_status example_answered = DasResolved"
proof -
  obtain s' an where rec: "record_answer example_codec join_id memory_ops (stored_form example_question) example_answer ''user'' None
      example_store = (s', Inr an)" "an_candidate an = example_answered" "length s' = 2"
    using example_recorded by blast
  have len: "length example_store \<le> 5000" "length s' \<le> 5000" using rec(3) by (simp_all add: example_store_def)
  from example_current obtain L where L: "list_current_contact_candidates example_codec memory_ops (\<lambda>ws st. st = ''s'') ''w'' 5000
      example_store = Inr L" "set L = {stored_form example_question}" by blast
  have ids: "decision_node_id join_id (stored_form example_question) example_answer ''user''
      (reconcile_disambiguation_candidate (stored_form example_question) example_answer) \<noteq> snapshot_node_id join_id example_question"
    by code_simp
  have "\<exists>L'. list_current_contact_candidates example_codec memory_ops (\<lambda>ws st. st = ''s'') ''w'' 5000 s' = Inr L' \<and>
      set L' = insert (an_candidate an) (set L - {stored_form example_question})"
  proof (rule recorded_answer_current [THEN conjunct2, THEN conjunct2, OF memory.conversation_store_axioms example_invariants strip_w
        _ example_cards [OF len(2)] example_cards [OF len(2)] L(1) _ rec(1)])
    show "dc_workspace_id (stored_form example_question) = ''w''" by (simp add: stored_form_def example_workspace)
    show "stored_form example_question \<in> set L" using L(2) by simp
    show "\<forall>n\<in>memory_stored example_store (conv_bg ''w''). cn_id n \<noteq> decision_node_id join_id (stored_form example_question) example_answer ''user''
      (reconcile_disambiguation_candidate (stored_form example_question) example_answer)"
      using ids [symmetric] by (simp add: example_stored example_node_id)
    show "cd_candidate example_codec (cd_dump_candidate example_codec (an_candidate an)) = Some (an_candidate an)"
      by (simp add: example_codec_def rec(2))
    show "\<forall>n\<in>memory_stored example_store (conv_bg ''w''). \<forall>v d. is_decision ''w'' n \<longrightarrow> decision_of example_codec ''w'' n v d \<longrightarrow>
        about d (stored_form example_question) \<longrightarrow> v < eu_evidence_version example_answer"
      by (simp add: example_stored example_no_decision)
  qed
  moreover have "dc_artifact_status example_answered = DasResolved" by code_simp
  ultimately show ?thesis using rec(1,2) L(2) by auto
qed


end
