(* ===== verification/Maintenance_Plan.thy ===== *)
theory Maintenance_Plan
  imports Json_Text "HOL-Library.Sublist"
begin

text \<open>
  The phases of a maintenance job. \<^verbatim>\<open>maintenance/maintenance_planner.py\<close> decides from the payload of a
  job which phase follows a completed one, \<^verbatim>\<open>maintenance/maintenance_context.py\<close> keeps the context
  that is carried from round to round within its limit, and \<^verbatim>\<open>_advance_maintenance_plan\<close> of
  \<^verbatim>\<open>maintenance/worker_execution.py\<close> composes the two into the payload the job is queued again with.
  A payload is a JSON object.
\<close>

section \<open>The planner\<close>

text \<open>\<^verbatim>\<open>_as_int\<close> of the planner: a text that is no number raises.\<close>

definition planner_int :: "json \<Rightarrow> int result" where
  "planner_int v = (case v of
       JInt i \<Rightarrow> Inr i
     | JFloat f \<Rightarrow> Inr (trunc_rat (fl_val f))
     | JStr s \<Rightarrow> (case int_of_string s of Some i \<Rightarrow> Inr i
         | None \<Rightarrow> Inl (ValueError (''invalid literal for int() with base 10: '' @ repr_string s)))
     | _ \<Rightarrow> Inr 0)"

record plan_decision =
  pd_current_kind :: string
  pd_next_kind :: "string option"
  pd_current_index :: int
  pd_next_index :: int
  pd_reason :: string


definition normalize_maintenance_plan :: "json \<Rightarrow> string list" where
  "normalize_maintenance_plan v = (case v of
       JArr xs \<Rightarrow> filter (\<lambda>s. s \<noteq> []) (map (\<lambda>x. py_strip (py_str x)) xs)
     | _ \<Rightarrow> [])"

text \<open>The plan of a payload: one-shot lanes skip the expansion of frontiers.\<close>

definition payload_plan :: "json_object \<Rightarrow> string list" where
  "payload_plan p =
     (let plan = normalize_maintenance_plan (jget p ''maintenance_plan'')
      in if truthy (jget p ''durable_layered_parse'') then plan
         else filter (\<lambda>k. k \<noteq> ''document_expand_parse_children'') plan)"





section \<open>The bounded context\<close>

definition bounded_integer :: "json \<Rightarrow> int" where
  "bounded_integer v = (case v of
       JInt i \<Rightarrow> i
     | JFloat f \<Rightarrow> (if fl_val f = of_int \<lfloor>fl_val f\<rfloor> then \<lfloor>fl_val f\<rfloor> else 0)
     | JStr s \<Rightarrow> (case int_of_string (py_strip s) of Some i \<Rightarrow> i | None \<Rightarrow> 0)
     | _ \<Rightarrow> 0)"

definition bounded_string :: "nat \<Rightarrow> json \<Rightarrow> string" where
  "bounded_string limit v = take limit (py_strip (str_or_empty v))"

fun bounded_ids_loop :: "string list \<Rightarrow> json list \<Rightarrow> string list" where
  "bounded_ids_loop acc [] = acc"
| "bounded_ids_loop acc (x # xs) =
     (let i = bounded_string 256 x;
          acc' = (if i \<noteq> [] \<and> i \<notin> set acc then acc @ [i] else acc)
      in if 64 \<le> length acc' then acc' else bounded_ids_loop acc' xs)"

definition bounded_ids :: "json \<Rightarrow> string list" where
  "bounded_ids v = (case v of JArr xs \<Rightarrow> bounded_ids_loop [] xs | _ \<Rightarrow> [])"

definition string_array :: "string list \<Rightarrow> json" where
  "string_array xs = JArr (map JStr xs)"

definition bounded_reason :: "json \<Rightarrow> json option" where
  "bounded_reason v = (case v of
       JObj r \<Rightarrow> Some (JObj
         [(''candidate_id'', JStr (bounded_string 256 (jget r ''candidate_id''))),
          (''reason'', JStr (bounded_string 64 (jget r ''reason''))),
          (''score'', (case jget r ''score'' of
              JInt i \<Rightarrow> JInt i | JFloat f \<Rightarrow> JFloat f | JBool b \<Rightarrow> JBool b | _ \<Rightarrow> JNull))])
     | _ \<Rightarrow> None)"

definition bounded_turn :: "json \<Rightarrow> json option" where
  "bounded_turn v = (case v of
       JObj t \<Rightarrow> Some (JObj
         [(''round'', JInt (max 0 (bounded_integer (jget t ''round'')))),
          (''summary'', JStr (bounded_string 2000 (jget t ''summary''))),
          (''touched_node_ids'', string_array (bounded_ids (jget t ''touched_node_ids''))),
          (''touched_edge_ids'', string_array (bounded_ids (jget t ''touched_edge_ids''))),
          (''next_seed_node_ids'', string_array (bounded_ids (jget t ''next_seed_node_ids''))),
          (''hop_limit'', JInt (max 0 (min 8 (bounded_integer (jget t ''hop_limit''))))),
          (''selection_reasons'', JArr (case jget t ''selection_reasons'' of
              JArr rs \<Rightarrow> List.map_filter bounded_reason (take 24 rs) | _ \<Rightarrow> []))])
     | _ \<Rightarrow> None)"

text \<open>The mutable dictionary of \<^verbatim>\<open>bound_maintenance_context\<close>, the JSON object it is, and the loop that
  drops the oldest turns, then the end of the summary, then identifiers, until the text fits.\<close>

record bounded_context =
  bc_turns :: "json list"
  bc_summary :: string
  bc_node_ids :: "string list"
  bc_edge_ids :: "string list"
  bc_truncated :: bool

definition context_object :: "bounded_context \<Rightarrow> json_object" where
  "context_object c =
     [(''version'', JInt 1), (''turns'', JArr (bc_turns c)),
      (''compressed_summary'', JStr (bc_summary c)),
      (''compressed_node_ids'', string_array (bc_node_ids c)),
      (''compressed_edge_ids'', string_array (bc_edge_ids c)),
      (''truncated'', JBool (bc_truncated c))]"

definition context_text :: "json_object \<Rightarrow> string" where
  "context_text obj = json_dumps json_char True (JObj obj)"

definition fits_context :: "bounded_context \<Rightarrow> bool" where
  "fits_context c \<longleftrightarrow> length (context_text (context_object c)) \<le> 10000"

definition drop_ids :: "bounded_context \<Rightarrow> bounded_context" where
  "drop_ids c = c\<lparr>bc_node_ids := take (length (bc_node_ids c) - 8) (bc_node_ids c),
     bc_edge_ids := take (length (bc_edge_ids c) - 8) (bc_edge_ids c), bc_truncated := True\<rparr>"

lemma empty_context_fits:
  assumes "bc_turns c = []" "bc_summary c = []" "bc_node_ids c = []" "bc_edge_ids c = []"
  shows "fits_context c"
proof -
  have "fits_context \<lparr>bc_turns = [], bc_summary = [], bc_node_ids = [], bc_edge_ids = [],
     bc_truncated = b\<rparr>" for b
    by (cases b; simp; code_simp)
  with assms show ?thesis by (metis bounded_context.surjective old.unit.exhaust)
qed

function shrink_context :: "bounded_context \<Rightarrow> bounded_context" where
  "shrink_context c =
     (if fits_context c then c
      else if bc_turns c \<noteq> []
      then shrink_context (c\<lparr>bc_turns := tl (bc_turns c), bc_truncated := True\<rparr>)
      else if bc_summary c \<noteq> []
      then shrink_context (c\<lparr>bc_summary := take (length (bc_summary c) - 256) (bc_summary c),
                             bc_truncated := True\<rparr>)
      else if fits_context (drop_ids c) then drop_ids c
      else shrink_context (drop_ids c))"
  by pat_completeness auto

termination
proof (relation "measure (\<lambda>c. length (bc_turns c) + length (bc_summary c) +
    length (bc_node_ids c) + length (bc_edge_ids c))", goal_cases)
  case (4 c)
  then have "bc_node_ids c \<noteq> [] \<or> bc_edge_ids c \<noteq> []"
    using empty_context_fits [of c] by blast
  then have "0 < length (bc_node_ids c) \<or> 0 < length (bc_edge_ids c)" by simp
  then have "length (bc_node_ids c) - 8 + (length (bc_edge_ids c) - 8) <
      length (bc_node_ids c) + length (bc_edge_ids c)" by linarith
  then show ?case by (simp add: drop_ids_def)
qed auto

declare shrink_context.simps [simp del]

definition context_turns :: "json \<Rightarrow> json list" where
  "context_turns v = (case v of
       JArr xs \<Rightarrow> List.map_filter bounded_turn (drop (length xs - 10) xs) | _ \<Rightarrow> [])"

definition read_context :: "json_object \<Rightarrow> bounded_context" where
  "read_context obj =
     \<lparr>bc_turns = context_turns (jget obj ''turns''),
      bc_summary = bounded_string 4000 (jget obj ''compressed_summary''),
      bc_node_ids = bounded_ids (jget obj ''compressed_node_ids''),
      bc_edge_ids = bounded_ids (jget obj ''compressed_edge_ids''),
      bc_truncated = truthy (jget obj ''truncated'')\<rparr>"

definition bound_maintenance_context :: "json_object option \<Rightarrow> json_object" where
  "bound_maintenance_context v = (case v of
       None \<Rightarrow> [(''version'', JInt 1), (''turns'', JArr []), (''compressed_summary'', JStr []),
                (''truncated'', JBool False)]
     | Some obj \<Rightarrow> context_object (shrink_context (read_context obj)))"

definition append_maintenance_round ::
    "json_object option \<Rightarrow> int \<Rightarrow> string \<Rightarrow> string list \<Rightarrow> string list \<Rightarrow> string list \<Rightarrow> int \<Rightarrow>
     json_object list \<Rightarrow> json_object" where
  "append_maintenance_round v round_number summary touched_nodes touched_edges seeds hops reasons =
     (let context = bound_maintenance_context v;
          turns = (case jget context ''turns'' of JArr ts \<Rightarrow> ts | _ \<Rightarrow> []);
          turn = JObj [(''round'', JInt (max 0 round_number)), (''summary'', JStr summary),
            (''touched_node_ids'', string_array touched_nodes),
            (''touched_edge_ids'', string_array touched_edges),
            (''next_seed_node_ids'', string_array seeds), (''hop_limit'', JInt hops),
            (''selection_reasons'', JArr (map JObj reasons))]
      in bound_maintenance_context (Some (AList.update ''turns'' (JArr (turns @ [turn])) context)))"

section \<open>Advancing a job\<close>

text \<open>\<^verbatim>\<open>_as_int\<close> of the worker, which answers 0 for a text that is no number.\<close>

definition worker_int :: "json \<Rightarrow> int" where
  "worker_int v = (case planner_int v of Inr i \<Rightarrow> i | Inl _ \<Rightarrow> 0)"

definition mapping_items :: "json \<Rightarrow> json_object list" where
  "mapping_items v = (case v of
       JArr xs \<Rightarrow> List.map_filter (\<lambda>x. case x of JObj o' \<Rightarrow> Some o' | _ \<Rightarrow> None) xs | _ \<Rightarrow> [])"

definition mapping_or_empty :: "json \<Rightarrow> json_object" where
  "mapping_or_empty v = (case v of JObj obj \<Rightarrow> obj | _ \<Rightarrow> [])"

definition dict_update :: "json_object \<Rightarrow> json_object \<Rightarrow> json_object" where
  "dict_update new old = fold (\<lambda>(k, v). AList.update k v) new old"

definition candidate_ids :: "json_object \<Rightarrow> string list" where
  "candidate_ids p = List.map_filter (\<lambda>item.
       if py_strip (str_or_empty (jget item ''candidate_id'')) \<noteq> []
       then Some (py_str (jget item ''candidate_id'')) else None)
     (mapping_items (jget p ''maintenance_candidates''))"

text \<open>\<^verbatim>\<open>persisted_budget_state\<close> of \<^verbatim>\<open>maintenance/state.py\<close>.\<close>

definition persisted_budget_keys :: "string list" where
  "persisted_budget_keys = [''token_budget'', ''token_used'', ''step_budget'', ''step_used'', ''call_budget'',
     ''call_used'', ''time_budget_ms'', ''time_used_ms'', ''cost_budget'', ''cost_used'',
     ''request_token_budget'', ''request_step_budget'', ''request_call_budget'',
     ''request_time_budget_ms'', ''request_cost_budget'']"

definition persisted_budget_state :: "json_object \<Rightarrow> json_object" where
  "persisted_budget_state st = filter (\<lambda>kv. fst kv \<in> set persisted_budget_keys \<and>
     (case snd kv of JInt i \<Rightarrow> True | JFloat f \<Rightarrow> True | _ \<Rightarrow> False)) st"

text \<open>\<^verbatim>\<open>_advance_maintenance_plan\<close>: the payload the job is queued again with, or none when no work
  remains. \<open>parser\<close> says whether the worker has a document parser.\<close>

definition counted_steps :: "json_object \<Rightarrow> int" where
  "counted_steps p = worker_int (jget (mapping_or_empty (jget p ''maintenance_budget_state'')) ''step_used'') + 1"

definition step_limit :: "json_object \<Rightarrow> int" where
  "step_limit p = worker_int (jget (mapping_or_empty (jget p ''budgets'')) ''max_steps'')"

definition next_payload ::
    "string \<Rightarrow> json_object option \<Rightarrow> json_object \<Rightarrow> plan_decision \<Rightarrow> json_object" where
  "next_payload kind budget p d =
     (let ids = candidate_ids p;
          context = append_maintenance_round
            (case jget p ''maintenance_context'' of JObj c \<Rightarrow> Some c | _ \<Rightarrow> None)
            (worker_int (jget p ''maintenance_round'')) (''Completed maintenance phase: '' @ kind)
            ids [] ids 0 (mapping_items (jget p ''maintenance_candidates''));
          state = (case budget of
              None \<Rightarrow> dict_update [(''step_used'', JInt (counted_steps p)), (''step_budget'', JInt (step_limit p))]
                        (mapping_or_empty (jget p ''maintenance_budget_state''))
            | Some b \<Rightarrow> persisted_budget_state b)
      in dict_update
           [(''maintenance_context'', JObj context), (''maintenance_budget_state'', JObj state),
            (''maintenance_kind'', JStr (opt_str (pd_next_kind d))),
            (''maintenance_phase_index'', JInt (pd_next_index d)),
            (''maintenance_previous_kind'', JStr kind),
            (''maintenance_round'', JInt (worker_int (jget p ''maintenance_round'') + 1))] p)"


section \<open>The context stays within its limit\<close>






section \<open>A plan is run through in order\<close>

lemma jget_update [simp]: "jget (AList.update k v obj) k' = (if k' = k then v else jget obj k')"
  by (simp add: jget_def update_conv')

lemma dict_update_simps [simp]:
  "dict_update [] old = old"
  "dict_update ((k, v) # new) old = dict_update new (AList.update k v old)"
  by (simp_all add: dict_update_def)

lemma next_payload_plan [simp]: "payload_plan (next_payload kind b p d) = payload_plan p"
  by (simp add: payload_plan_def next_payload_def Let_def)

lemma next_payload_sel [simp]:
  "jget (next_payload kind b p d) ''maintenance_kind'' = JStr (opt_str (pd_next_kind d))"
  "jget (next_payload kind b p d) ''maintenance_phase_index'' = JInt (pd_next_index d)"
  "jget (next_payload kind b p d) ''maintenance_round'' = JInt (worker_int (jget p ''maintenance_round'') + 1)"
  by (simp_all add: next_payload_def Let_def)

lemma planner_int_JInt [simp]: "planner_int (JInt i) = Inr i"
  by (simp add: planner_int_def)









end
