(* ===== verification/Spec2Isabelle.thy ===== *)
theory Spec2Isabelle
  imports Source_Guards Dependency_Planning Parse_Model Projection_Store Parse_Generations Parse_Sessions
    Parse_Views Patch_Model Graph_Engine Patch_Apply Patch_Safety Patch_Examples
    Budget_Profiles Notification_Digest Notification_Delivery Notification_Outbox Disambiguation Contact_Groups Service_Examples
    Maintenance_Plan
begin

text \<open>
  A verification development for the core of \<^verbatim>\<open>kogwistar_llm_wiki\<close>
  (\<^verbatim>\<open>src/src/kogwistar_llm_wiki\<close>).

  \<^bold>\<open>The program.\<close> The wiki ingests documents, lets a language model parse them into graph evidence and
  keeps the graph up to date with background maintenance. Parsing is long and may be repeated, so its
  results are stored as immutable \<^emph>\<open>generations\<close>, driven by versioned \<^emph>\<open>sessions\<close>, and become visible only
  when a \<^emph>\<open>view\<close> that selects committed members is activated. Maintenance changes the graph only through
  \<^emph>\<open>patches\<close>, which are validated, checked against the rights of the principal and applied in a unit of
  work. Queued jobs are fenced by \<^emph>\<open>guards\<close>, invalidation is planned by following dependencies, and the
  budget of background work is controlled by \<^emph>\<open>profiles\<close>. Notifications are grouped into \<^emph>\<open>digests\<close>,
  delivered through a job queue and listed in an \<^emph>\<open>outbox\<close>.

  \<^bold>\<open>The theories.\<close>
  \<^item> \<open>Wiki_Prelude\<close>: JSON values, the Python string methods, exceptions as values, validators and results,
    and the generic lemmas.
  \<^item> \<open>Source_Guards\<close> (\<^verbatim>\<open>maintenance/maintenance_guards.py\<close>): source revisions and digests, the
    maintenance guard and the session guard. Lemmas: exactly which jobs are admitted.
  \<^item> \<open>Dependency_Planning\<close> (\<^verbatim>\<open>maintenance/dependency_planning.py\<close>): the plan of
    \<^verbatim>\<open>plan_dependency_invalidation\<close> against a specification of the affected artifacts.
  \<^item> \<open>Parse_Model\<close> (\<^verbatim>\<open>parsing/parse_views.py\<close>, \<^verbatim>\<open>parsing/parse_reconciliation.py\<close>): the data
    of parsing with the validators of its models, the identifiers, and the reconciliation decision. Lemmas:
    the sorted neighbour check decides disjointness of all pairs; ancestors contain their members.
  \<^item> \<open>Projection_Store\<close>: the contract of Kogwistar's named-projection store, the locales
    \<open>projection_store\<close> and \<open>parse_store\<close>, interpreted on an in-memory store with compare-and-swap; the
    payloads and readers the parse stores share.
  \<^item> \<open>Parse_Generations\<close> (\<^verbatim>\<open>parsing/parse_generation_store.py\<close>), \<open>Parse_Sessions\<close>
    (\<^verbatim>\<open>parsing/parse_session_store.py\<close>) and \<open>Parse_Views\<close> (the stores and the resolver of
    \<^verbatim>\<open>parsing/parse_views.py\<close>): every operation of the three stores over the abstract store. Lemmas:
    evidence is only added, the life cycle is monotone, a save replaces only the version that was read,
    an activated view is grounded, what was written is read back, an activation ends.
  \<^item> \<open>Patch_Model\<close> (\<^verbatim>\<open>maintenance/maintenance_patches.py\<close>,
    \<^verbatim>\<open>maintenance/maintenance_status.py\<close>): patches and their validation, with a declarative
    specification of valid patches.
  \<^item> \<open>Graph_Engine\<close>, \<open>Patch_Apply\<close> (\<^verbatim>\<open>maintenance/maintenance_patch_apply.py\<close>): the operations of
    the graph engine as a record, its contract as the locale \<open>graph_engine\<close>, interpreted on an in-memory
    graph; the checks, the unit of work, the operations, the exception handlers and the audit artifact.
  \<^item> \<open>Patch_Safety\<close>, \<open>Patch_Examples\<close>: what a call can change, all or nothing, authorization and freshness
    at the moment of the mutation, protection of raw facts; concrete runs.
  \<^item> \<open>Budget_Profiles\<close> (\<^verbatim>\<open>maintenance/maintenance_profiles.py\<close>): budgets, caps, the profile ladder,
    usage and the reset of windows.
  \<^item> \<open>Notification_Digest\<close>, \<open>Notification_Delivery\<close>, \<open>Notification_Outbox\<close>
    (\<^verbatim>\<open>app_contracts/notification_digest.py\<close>, \<^verbatim>\<open>notification_delivery.py\<close>,
    \<^verbatim>\<open>notification_outbox.py\<close>): grouping of events, splitting into jobs, the payload of a job and its
    reader, the worker loop, the filtered history and its cursor.

  \<^bold>\<open>Parameters.\<close> Code outside the repository is an argument of the definitions: the projection store, the
  graph engine and the job queue of Kogwistar, \<^verbatim>\<open>stable_id\<close>, the source-pointer utilities and the
  access decisions. So are the hash function, the rounding of floats and their parsing, the environment
  variables, \<^verbatim>\<open>json.loads\<close> and the ISO format of timestamps. Where a property relies on one of them,
  the reliance is a locale or a named hypothesis, and a witness instantiates it.

  \<^bold>\<open>Conventions.\<close> A raised exception is a value of a sum type, a Pydantic or dataclass validator an optional
  error in the order of the source. A dictionary is an association list in insertion order, a set is a
  set; \<^verbatim>\<open>sorted\<close> orders strings by code points. Characters are code points below 256. Floats are
  rationals, with infinities and NaN where the code can meet them. A timestamp is its instant in
  microseconds. Other workers acting between two steps of an operation are a function \<open>env\<close> on the
  store, constrained only by what the store guarantees to everyone. Retry loops with a bound in the code
  (eight rounds of an activation) keep that bound; the others are structural recursion over the data, or
  terminate by the length of the text that is left.

  \<^bold>\<open>Not modelled.\<close> The job handlers of the maintenance workers, the daemons beyond their budget decisions,
  the ingest pipeline, the agent gateway, the workbench, embeddings, archiving, seeding, usage
  accounting, disambiguation and the command line: they combine language-model and network calls with
  the components above, or present their results.
\<close>

end
